(* ===== verification/Prelude.thy ===== *)
theory Prelude
  imports Main "HOL-Library.Word" "HOL-Library.Multiset" "HOL-Library.State_Monad" "HOL-Library.Sublist"
    "HOL-Library.List_Lexorder" "HOL-Library.Char_ord"
begin

text \<open>
  Shared vocabulary of the development: the named collections of facts that the component
  theories extend, the Go result type, and generic lemmas on lists, association lists,
  sorting and shuffles that more than one component uses.
\<close>

section \<open>Collections of facts\<close>

named_theorems emits_intro \<open>rules of the logic of emitted events (theory Effects)\<close>

section \<open>Association lists read as Go maps\<close>

text \<open>
  A Go map is an association list with distinct keys: the order of the list is the order in
  which one particular \<^verbatim>\<open>range\<close> visits it. Reading a missing key of a map to strings gives
  the zero value, the empty string.
\<close>

definition lookup_str :: "(string \<times> string) list \<Rightarrow> string \<Rightarrow> string" where
  "lookup_str m k = (case map_of m k of None \<Rightarrow> [] | Some v \<Rightarrow> v)"

lemma map_of_mset_eq:
  assumes "distinct (map fst xs)" and "mset xs = mset ys"
  shows "map_of xs = map_of ys"
proof -
  have "distinct (map fst ys)"
    using assms by (metis mset_map mset_eq_imp_distinct_iff)
  moreover have "set xs = set ys"
    using assms(2) by (rule mset_eq_setD)
  ultimately show ?thesis
    using assms(1) by (simp add: map_of_inject_set)
qed

lemma lookup_str_mset_eq:
  "distinct (map fst xs) \<Longrightarrow> mset xs = mset ys \<Longrightarrow> lookup_str xs k = lookup_str ys k"
  by (simp add: lookup_str_def map_of_mset_eq)

lemma lookup_str_map_of_SomeD: "map_of m k = Some v \<Longrightarrow> lookup_str m k = v"
  by (simp add: lookup_str_def)

section \<open>Sorting by a key that is distinct\<close>

text \<open>
  \<^verbatim>\<open>sort.Slice\<close> is not stable, but on a slice whose sort keys are distinct every correct sort
  gives the same result: the keys in ascending order, each with its own element.
\<close>

lemma sort_key_map_sorted_list_of_set:
  assumes "distinct (map f xs)" and "\<And>x. x \<in> set xs \<Longrightarrow> g (f x) = x"
  shows "sort_key f xs = map g (sorted_list_of_set (f ` set xs))"
proof -
  let ?s = "sort_key f xs"
  have d: "distinct (map f ?s)"
    using assms(1) by (metis mset_map mset_sort mset_eq_imp_distinct_iff)
  have "map f ?s = sorted_list_of_set (set (map f ?s))"
    using d by (intro sorted_list_of_set.idem_if_sorted_distinct [symmetric]) simp_all
  also have "set (map f ?s) = f ` set xs"
    by simp
  finally have "map g (map f ?s) = map g (sorted_list_of_set (f ` set xs))"
    by simp
  moreover have "map g (map f ?s) = ?s"
    unfolding map_map by (rule map_idI) (simp add: assms(2))
  ultimately show ?thesis
    by simp
qed

section \<open>Machine integers\<close>

text \<open>An \<^verbatim>\<open>int64\<close> computed from an unbounded value: two's complement wrap-around.\<close>

definition wrap64 :: "int \<Rightarrow> int" where
  "wrap64 i = (i + 2 ^ 63) mod 2 ^ 64 - 2 ^ 63"

lemma wrap64_bounds: "- (2 ^ 63) \<le> wrap64 i \<and> wrap64 i < 2 ^ 63"
  by (simp add: wrap64_def)

lemma wrap64_id: "- (2 ^ 63) \<le> i \<Longrightarrow> i < 2 ^ 63 \<Longrightarrow> wrap64 i = i"
  by (simp add: wrap64_def)

section \<open>Interleavings\<close>

text \<open>\<open>interleaves tss ts\<close>: the trace \<open>ts\<close> merges the traces \<open>tss\<close> of goroutines that run concurrently.\<close>

inductive interleaves :: "'a list list \<Rightarrow> 'a list \<Rightarrow> bool" where
  finished: "\<forall>ts \<in> set tss. ts = [] \<Longrightarrow> interleaves tss []"
| step: "i < length tss \<Longrightarrow> tss ! i = x # xs \<Longrightarrow> interleaves (tss[i := xs]) ys \<Longrightarrow>
           interleaves tss (x # ys)"

lemma interleaves_set: "interleaves tss ts \<Longrightarrow> set ts = (\<Union>xs \<in> set tss. set xs)"
proof (induction rule: interleaves.induct)
  case (finished tss)
  then show ?case
    by auto
next
  case (step i tss x xs ys)
  have "tss = take i tss @ (x # xs) # drop (Suc i) tss"
    using step.hyps(1,2) by (metis id_take_nth_drop)
  then have 1: "set tss = insert (x # xs) (set (take i tss) \<union> set (drop (Suc i) tss))"
    by (metis Un_insert_right list.simps(15) set_append)
  have 2: "set (tss[i := xs]) = insert xs (set (take i tss) \<union> set (drop (Suc i) tss))"
    using step.hyps(1) by (simp add: upd_conv_take_nth_drop)
  show ?case
    using step.IH unfolding 1 2 by auto
qed

text \<open>Every goroutine's own events stay in order.\<close>

lemma interleaves_subseq: "interleaves tss ts \<Longrightarrow> i < length tss \<Longrightarrow> subseq (tss ! i) ts"
proof (induction arbitrary: i rule: interleaves.induct)
  case (finished tss)
  then show ?case
    by (metis nth_mem subseq_order.order_refl)
next
  case (step j tss x xs ys)
  show ?case
  proof (cases "i = j")
    case True
    then show ?thesis
      using step.IH [of i] step.hyps(1,2) step.prems by simp
  next
    case False
    then show ?thesis
      using step.IH [of i] step.prems by (auto intro: subseq_Cons')
  qed
qed

end
