(* ===== verification/Go_Strings.thy ===== *)
theory Go_Strings
  imports Prelude
begin

text \<open>
  The operations of Go's \<^verbatim>\<open>strings\<close> package that the program uses, on byte strings. A Go string
  is a sequence of bytes, a HOL \<open>string\<close> a list of eight-bit characters, so lengths, slices and
  comparisons agree byte for byte. The case and space operations treat the ASCII range; Go also
  maps the case of non-ASCII letters and trims non-ASCII spaces, which is left out: bytes from
  128 on pass unchanged.
\<close>

section \<open>Searching\<close>

definition HasPrefix :: "string \<Rightarrow> string \<Rightarrow> bool" where
  "HasPrefix s p = prefix p s"

definition HasSuffix :: "string \<Rightarrow> string \<Rightarrow> bool" where
  "HasSuffix s p = suffix p s"

definition Contains :: "string \<Rightarrow> string \<Rightarrow> bool" where
  "Contains s sub = sublist sub s"

definition TrimSuffix :: "string \<Rightarrow> string \<Rightarrow> string" where
  "TrimSuffix s suf = (if suffix suf s then take (length s - length suf) s else s)"

lemma TrimSuffix_append [simp]: "TrimSuffix (s @ suf) suf = s"
  by (simp add: TrimSuffix_def suffix_def)

lemma Contains_append_iff:
  "Contains s sub \<longleftrightarrow> (\<exists>a b. s = a @ sub @ b)"
  by (simp add: Contains_def sublist_def)

lemma Contains_self [simp]: "Contains (a @ s @ b) s"
  by (auto simp: Contains_append_iff)

lemma Contains_refl [simp]: "Contains s s"
  by (simp add: Contains_def)

lemma Contains_trans: "Contains a b \<Longrightarrow> Contains b c \<Longrightarrow> Contains a c"
  unfolding Contains_def by (rule sublist_order.order.trans)

section \<open>Splitting and joining\<close>

text \<open>
  \<^verbatim>\<open>strings.Split(s, sep)\<close> for a one-byte separator: never the empty slice, one more piece than
  separators. \<^verbatim>\<open>strings.SplitN(s, sep, 2)\<close> cuts at the first separator only.
\<close>

fun split_char :: "char \<Rightarrow> string \<Rightarrow> string list" where
  "split_char sep [] = [[]]"
| "split_char sep (c # cs) =
     (if c = sep then [] # split_char sep cs
      else (case split_char sep cs of [] \<Rightarrow> [[c]] | p # ps \<Rightarrow> (c # p) # ps))"

definition Split :: "string \<Rightarrow> char \<Rightarrow> string list" where
  "Split s sep = split_char sep s"

definition SplitN2 :: "string \<Rightarrow> char \<Rightarrow> string list" where
  "SplitN2 s sep =
     (if sep \<in> set s then [takeWhile (\<lambda>c. c \<noteq> sep) s, tl (dropWhile (\<lambda>c. c \<noteq> sep) s)] else [s])"

fun Join :: "string list \<Rightarrow> string \<Rightarrow> string" where
  "Join [] sep = []"
| "Join [s] sep = s"
| "Join (s # t # ts) sep = s @ sep @ Join (t # ts) sep"

lemma split_char_not_Nil [simp]: "split_char sep s \<noteq> []"
  by (induction s) (auto split: list.splits)

lemma Split_not_Nil [simp]: "Split s sep \<noteq> []"
  by (simp add: Split_def)

lemma split_char_piece: "p \<in> set (split_char sep s) \<Longrightarrow> sep \<notin> set p"
proof (induction s arbitrary: p)
  case (Cons c cs)
  then show ?case
    by (cases "split_char sep cs") (auto split: if_splits)
qed simp

lemma split_char_no_sep: "sep \<notin> set s \<Longrightarrow> split_char sep s = [s]"
  by (induction s) auto

lemma split_char_append:
  "sep \<notin> set s \<Longrightarrow> split_char sep (s @ sep # t) = s # split_char sep t"
  by (induction s) auto

lemma Split_no_sep: "sep \<notin> set s \<Longrightarrow> Split s sep = [s]"
  by (simp add: Split_def split_char_no_sep)

lemma Split_Nil [simp]: "Split [] sep = [[]]"
  by (simp add: Split_def)

lemma Split_Join:
  "ss \<noteq> [] \<Longrightarrow> (\<And>s. s \<in> set ss \<Longrightarrow> sep \<notin> set s) \<Longrightarrow> Split (Join ss [sep]) sep = ss"
proof (induction ss "[sep]" rule: Join.induct)
  case (3 s t ts)
  then show ?case
    by (simp add: Split_def split_char_append)
qed (simp_all add: Split_no_sep)

lemma Join_Split: "Join (Split s sep) [sep] = s"
proof -
  have "Join (split_char sep s) [sep] = s"
  proof (induction s)
    case (Cons c cs)
    obtain p ps where ps: "split_char sep cs = p # ps"
      by (cases "split_char sep cs") auto
    from Cons ps show ?case
      by (cases ps) auto
  qed simp
  then show ?thesis
    by (simp add: Split_def)
qed

lemma takeWhile_dropWhile_split:
  "sep \<in> set s \<Longrightarrow> takeWhile (\<lambda>c. c \<noteq> sep) s @ sep # tl (dropWhile (\<lambda>c. c \<noteq> sep) s) = s"
  by (induction s) auto

lemma SplitN2_append:
  "sep \<notin> set a \<Longrightarrow> SplitN2 (a @ sep # b) sep = [a, b]"
  by (induction a) (auto simp: SplitN2_def)

lemma SplitN2_pair_iff:
  "SplitN2 s sep = [a, b] \<longleftrightarrow> s = a @ sep # b \<and> sep \<notin> set a"
proof
  assume *: "SplitN2 s sep = [a, b]"
  then have "sep \<in> set s" and "a = takeWhile (\<lambda>c. c \<noteq> sep) s"
    and "b = tl (dropWhile (\<lambda>c. c \<noteq> sep) s)"
    by (auto simp: SplitN2_def split: if_splits)
  then show "s = a @ sep # b \<and> sep \<notin> set a"
    by (metis set_takeWhileD takeWhile_dropWhile_split)
qed (auto simp: SplitN2_append)

text \<open>A text without the separator is found in a joined string only inside one of the pieces.\<close>

lemma sublist_sep:
  assumes "sep \<notin> set sub"
  shows "sublist sub (a @ sep # b) \<longleftrightarrow> sublist sub a \<or> sublist sub b"
proof
  assume "sublist sub (a @ sep # b)"
  then consider "sublist sub a" | "sublist sub (sep # b)"
    | xs ys where "sub = xs @ ys" "suffix xs a" "prefix ys (sep # b)"
    by (auto simp: sublist_append)
  then show "sublist sub a \<or> sublist sub b"
  proof cases
    case 2
    then show ?thesis
      using assms by (auto simp: sublist_Cons_right prefix_Cons)
  next
    case 3
    then have "ys = []"
      using assms by (auto simp: prefix_Cons)
    then show ?thesis
      using 3 by auto
  qed simp
qed (auto simp: sublist_append sublist_Cons_right)

lemma Contains_Join:
  assumes "sep \<notin> set sub" "sub \<noteq> []"
  shows "Contains (Join xs [sep]) sub \<longleftrightarrow> (\<exists>x \<in> set xs. Contains x sub)"
  unfolding Contains_def
proof (induction xs rule: induct_list012)
  case (3 x y zs)
  then show ?case
    using sublist_sep [OF assms(1), of x "Join (y # zs) [sep]"] by simp
qed (use assms(2) in simp_all)

section \<open>Replacing\<close>

text \<open>
  \<^verbatim>\<open>strings.ReplaceAll\<close> replaces non-overlapping occurrences from left to right. With an empty
  old string it inserts the new one before every character and at the end.
\<close>

fun replace_from :: "string \<Rightarrow> string \<Rightarrow> string \<Rightarrow> string" where
  "replace_from old new [] = []"
| "replace_from old new (c # cs) =
     (if prefix old (c # cs) then new @ replace_from old new (drop (length old - 1) cs)
      else c # replace_from old new cs)"

definition ReplaceAll :: "string \<Rightarrow> string \<Rightarrow> string \<Rightarrow> string" where
  "ReplaceAll s old new =
     (if old = [] then concat (map (\<lambda>c. new @ [c]) s) @ new else replace_from old new s)"

lemma replace_from_absent: "\<not> sublist old s \<Longrightarrow> replace_from old new s = s"
proof (induction s)
  case (Cons c cs)
  then show ?case
    by (auto simp: sublist_Cons_right)
qed simp

lemma ReplaceAll_absent: "old \<noteq> [] \<Longrightarrow> \<not> Contains s old \<Longrightarrow> ReplaceAll s old new = s"
  by (simp add: ReplaceAll_def Contains_def replace_from_absent)

lemma replace_from_hit:
  "old \<noteq> [] \<Longrightarrow> replace_from old new (old @ s) = new @ replace_from old new s"
  by (cases old) auto

text \<open>
  Up to its first occurrence, a string is copied unchanged. The side condition says that the old
  string does not start earlier, across the end of the copied part.
\<close>

lemma replace_from_copy:
  assumes "\<And>k. k < length a \<Longrightarrow> \<not> prefix old (drop k (a @ s))"
  shows "replace_from old new (a @ s) = a @ replace_from old new s"
  using assms
proof (induction a)
  case (Cons c a)
  from Cons.prems [of 0] have "\<not> prefix old ((c # a) @ s)"
    by simp
  moreover have "\<not> prefix old (drop k (a @ s))" if "k < length a" for k
    using Cons.prems [of "Suc k"] that by simp
  ultimately show ?case
    using Cons.IH by simp
qed simp

section \<open>Case and space\<close>

definition lower_char :: "char \<Rightarrow> char" where
  "lower_char c = (if 65 \<le> (of_char c :: nat) \<and> (of_char c :: nat) \<le> 90
                   then char_of ((of_char c :: nat) + 32) else c)"

definition ToLower :: "string \<Rightarrow> string" where
  "ToLower s = map lower_char s"

definition is_space :: "char \<Rightarrow> bool" where
  "is_space c = (c \<in> {CHR 0x09, CHR 0x0A, CHR 0x0B, CHR 0x0C, CHR 0x0D, CHR 0x20})"

definition TrimSpace :: "string \<Rightarrow> string" where
  "TrimSpace s = rev (dropWhile is_space (rev (dropWhile is_space s)))"

lemma lower_char_idem [simp]: "lower_char (lower_char c) = lower_char c"
proof (cases "65 \<le> (of_char c :: nat) \<and> (of_char c :: nat) \<le> 90")
  case True
  then have "of_char (lower_char c) = (of_char c :: nat) + 32"
    by (simp add: lower_char_def)
  with True show ?thesis
    by (simp add: lower_char_def)
qed (auto simp: lower_char_def)

lemma ToLower_idem [simp]: "ToLower (ToLower s) = ToLower s"
  by (simp add: ToLower_def)

lemma ToLower_Nil [simp]: "ToLower [] = []"
  by (simp add: ToLower_def)

lemma dropWhile_no_space: "\<forall>c \<in> set s. \<not> is_space c \<Longrightarrow> dropWhile is_space s = s"
  by (cases s) auto

lemma TrimSpace_no_space: "\<forall>c \<in> set s. \<not> is_space c \<Longrightarrow> TrimSpace s = s"
  by (simp add: TrimSpace_def dropWhile_no_space)

lemma TrimSpace_Nil [simp]: "TrimSpace [] = []"
  by (simp add: TrimSpace_def)

section \<open>Formatting\<close>

text \<open>
  \<^verbatim>\<open>fmt.Sprintf\<close> for the formats of the program's error messages: every verb takes one argument,
  given as its rendered text (for \<^verbatim>\<open>%s\<close> of a string, the string itself).
\<close>

fun Sprintf :: "string \<Rightarrow> string list \<Rightarrow> string" where
  "Sprintf [] as = []"
| "Sprintf [c] as = [c]"
| "Sprintf (c # d # cs) as =
     (if c = CHR ''%''
      then (case as of [] \<Rightarrow> c # d # Sprintf cs [] | a # as' \<Rightarrow> a @ Sprintf cs as')
      else c # Sprintf (d # cs) as)"

section \<open>Paths\<close>

text \<open>
  \<^verbatim>\<open>filepath.Clean\<close> on Unix, by path elements: empty elements and dots go, a double dot takes the
  element before it away, or stays when there is none and the path is not rooted. \<open>acc\<close> holds the
  elements kept so far, the last one first.
\<close>

fun clean_elems :: "bool \<Rightarrow> string list \<Rightarrow> string list \<Rightarrow> string list" where
  "clean_elems rooted acc [] = rev acc"
| "clean_elems rooted acc (e # es) =
     (if e = '''' \<or> e = ''.'' then clean_elems rooted acc es
      else if e = ''..'' then
        (if acc \<noteq> [] \<and> hd acc \<noteq> ''..'' then clean_elems rooted (tl acc) es
         else if rooted then clean_elems rooted acc es
         else clean_elems rooted (e # acc) es)
      else clean_elems rooted (e # acc) es)"

definition Clean :: "string \<Rightarrow> string" where
  "Clean path =
     (let rooted = (path \<noteq> [] \<and> hd path = CHR ''/'');
          out = Join (clean_elems rooted [] (Split path CHR ''/'')) ''/''
      in if rooted then ''/'' @ out else if out = '''' then ''.'' else out)"

text \<open>\<^verbatim>\<open>filepath.Dir\<close>: everything up to the last slash. \<^verbatim>\<open>filepath.Join\<close> leaves empty elements out.\<close>

definition Dir :: "string \<Rightarrow> string" where
  "Dir path = Clean (rev (dropWhile (\<lambda>c. c \<noteq> CHR ''/'') (rev path)))"

definition path_Join :: "string list \<Rightarrow> string" where
  "path_Join elems =
     (let es = dropWhile (\<lambda>e. e = '''') elems
      in if es = [] then '''' else Clean (Join es ''/''))"

lemma clean_elems_plain:
  "\<forall>e \<in> set es. e \<notin> {'''', ''.'', ''..''} \<Longrightarrow> clean_elems rooted acc es = rev acc @ es"
  by (induction es arbitrary: acc) auto

end
