(* ===== verification/Metrics.thy ===== *)
theory Metrics
  imports Go_Strings
begin

text \<open>
  Package \<^verbatim>\<open>pkg/metrics\<close>: the collectors declared in \<^verbatim>\<open>prom.go\<close>, the list that \<^verbatim>\<open>Init\<close> registers,
  and the operations the program performs on collectors. Prometheus itself is not part of the
  repository; an operation is recorded as a value of type \<open>metric_op\<close> in the history of the run,
  and \<open>series_live\<close> says which series a history leaves behind, by the documented behaviour of a
  metric vector: \<^verbatim>\<open>WithLabelValues\<close> creates the series, \<^verbatim>\<open>DeleteLabelValues\<close> removes it.
\<close>

section \<open>The declared collectors\<close>

datatype metric =
    RenewTokenCount | RenewTokenErrorCount | RenewLeaseCount | RenewLeaseErrorCount
  | RevokeTokenCount | RevokeTokenErrorCount | TokenExpirationInTime | LeaseExpirationInTime
  | SynchronizationCount | SynchronizationErrorCount | PodCleanupSuccessCount
  | PodCleanupErrorCount | LastTokenSynchronizationSuccess | OrphanTicketCreatedCount
  | OrphanErrorTicketCreatedCount | DataStoredCount | DataErrorStoredCount | DataDeletedCount
  | DataErrorDeletedCount | ConnectVault | ConnectVaultError | ServiceAccountAuthorized
  | ServiceAccountDenied | LastSynchronizationDuration | IsLeader | LeaseElectionAttempts
  | LeaseDuration | GetAllPodSuccessCount | GetAllPodErrorCount
  | MutatedPodWithSuccessCount | MutatedPodWithErrorCount | NRISubstitutionsTotal
  | NRIUnwrapFailures | TokenRequestErrors | VaultLoginErrors | ProjectedRoleMisconfigured
  | NRIResolveDuplicateTotal | NRIPrewarmSuccess | NRIPrewarmError | NRIPrewarmInflight
  | NRICacheHitTotal | NRIReconnectTotal

definition declared_metrics :: "metric list" where
  "declared_metrics =
    [RenewTokenCount, RenewTokenErrorCount, RenewLeaseCount, RenewLeaseErrorCount,
     RevokeTokenCount, RevokeTokenErrorCount, TokenExpirationInTime, LeaseExpirationInTime,
     SynchronizationCount, SynchronizationErrorCount, PodCleanupSuccessCount,
     PodCleanupErrorCount, LastTokenSynchronizationSuccess, OrphanTicketCreatedCount,
     OrphanErrorTicketCreatedCount, DataStoredCount, DataErrorStoredCount, DataDeletedCount,
     DataErrorDeletedCount, ConnectVault, ConnectVaultError, ServiceAccountAuthorized,
     ServiceAccountDenied, LastSynchronizationDuration, IsLeader, LeaseElectionAttempts,
     LeaseDuration, GetAllPodSuccessCount, GetAllPodErrorCount,
     MutatedPodWithSuccessCount, MutatedPodWithErrorCount, NRISubstitutionsTotal,
     NRIUnwrapFailures, TokenRequestErrors, VaultLoginErrors, ProjectedRoleMisconfigured,
     NRIResolveDuplicateTotal, NRIPrewarmSuccess, NRIPrewarmError, NRIPrewarmInflight,
     NRICacheHitTotal, NRIReconnectTotal]"

text \<open>The label names of each vector; a plain counter, gauge or summary has none.\<close>

fun metric_labels :: "metric \<Rightarrow> string list" where
  "metric_labels RenewTokenCount = [''uuid'', ''namespace'']"
| "metric_labels RenewTokenErrorCount = [''uuid'', ''namespace'']"
| "metric_labels RenewLeaseCount = [''uuid'', ''namespace'']"
| "metric_labels RenewLeaseErrorCount = [''uuid'', ''namespace'']"
| "metric_labels RevokeTokenCount = [''namespace'']"
| "metric_labels RevokeTokenErrorCount = [''uuid'', ''namespace'']"
| "metric_labels TokenExpirationInTime = [''uuid'', ''namespace'']"
| "metric_labels LeaseExpirationInTime = [''uuid'', ''namespace'']"
| "metric_labels DataErrorStoredCount = [''uuid'', ''namespace'']"
| "metric_labels DataDeletedCount = [''uuid'', ''namespace'']"
| "metric_labels DataErrorDeletedCount = [''uuid'', ''namespace'']"
| "metric_labels ServiceAccountDenied =
     [''service_account_name'', ''namespace'', ''db_role'', ''cause'']"
| "metric_labels IsLeader = [''lease_name'']"
| "metric_labels LeaseElectionAttempts = [''lease_name'']"
| "metric_labels LeaseDuration = [''lease_name'', ''leader_name'', ''mode'']"
| "metric_labels NRIUnwrapFailures = [''reason'']"
| "metric_labels TokenRequestErrors = [''reason'']"
| "metric_labels VaultLoginErrors = [''reason'', ''auth_mode'']"
| "metric_labels ProjectedRoleMisconfigured = [''role'']"
| "metric_labels NRIPrewarmError = [''reason'']"
| "metric_labels NRICacheHitTotal = [''source'']"
| "metric_labels NRIReconnectTotal = [''result'']"
| "metric_labels _ = []"

text \<open>\<^verbatim>\<open>Init\<close>: the program's own collectors, in the order they are registered.\<close>

definition Init :: "metric list" where
  "Init =
    [MutatedPodWithErrorCount, MutatedPodWithSuccessCount, NRISubstitutionsTotal,
     NRIUnwrapFailures, TokenRequestErrors, VaultLoginErrors, ProjectedRoleMisconfigured,
     GetAllPodErrorCount, GetAllPodSuccessCount, RenewTokenCount, RenewLeaseCount,
     RenewLeaseErrorCount, LeaseExpirationInTime, PodCleanupSuccessCount,
     PodCleanupErrorCount, RevokeTokenCount, RevokeTokenErrorCount, TokenExpirationInTime,
     SynchronizationCount, SynchronizationErrorCount, LastTokenSynchronizationSuccess,
     OrphanTicketCreatedCount, OrphanErrorTicketCreatedCount, DataStoredCount,
     DataErrorStoredCount, DataDeletedCount, DataErrorDeletedCount, ConnectVault,
     ConnectVaultError, ServiceAccountAuthorized, ServiceAccountDenied,
     LastSynchronizationDuration, IsLeader, LeaseElectionAttempts, LeaseDuration,
     NRIResolveDuplicateTotal, NRIPrewarmSuccess, NRIPrewarmError, NRIPrewarmInflight,
     NRICacheHitTotal, NRIReconnectTotal]"

section \<open>Operations on collectors\<close>

datatype metric_op =
    Inc metric "string list"
  | Dec metric "string list"
  | Set metric "string list" int
  | Observe metric int
  | DeleteLabelValues metric "string list"

definition FlushPodSeries :: "string \<Rightarrow> string \<Rightarrow> metric_op list" where
  "FlushPodSeries uuid namespace =
    [DeleteLabelValues TokenExpirationInTime [uuid, namespace],
     DeleteLabelValues LeaseExpirationInTime [uuid, namespace],
     DeleteLabelValues RenewTokenCount [uuid, namespace],
     DeleteLabelValues RenewTokenErrorCount [uuid, namespace],
     DeleteLabelValues RenewLeaseCount [uuid, namespace],
     DeleteLabelValues RenewLeaseErrorCount [uuid, namespace]]"

text \<open>The per-pod series of a registry: one vector, one pair of label values.\<close>

fun op_effect :: "metric \<Rightarrow> string list \<Rightarrow> metric_op \<Rightarrow> bool \<Rightarrow> bool" where
  "op_effect m ls (Inc m' ls') live = (live \<or> (m' = m \<and> ls' = ls))"
| "op_effect m ls (Dec m' ls') live = (live \<or> (m' = m \<and> ls' = ls))"
| "op_effect m ls (Set m' ls' v) live = (live \<or> (m' = m \<and> ls' = ls))"
| "op_effect m ls (Observe m' v) live = (live \<or> (m' = m \<and> ls = []))"
| "op_effect m ls (DeleteLabelValues m' ls') live = (live \<and> \<not> (m' = m \<and> ls' = ls))"

definition series_live :: "metric \<Rightarrow> string list \<Rightarrow> metric_op list \<Rightarrow> bool \<Rightarrow> bool" where
  "series_live m ls ops live = fold (op_effect m ls) ops live"

text \<open>The series that only the renewer writes for a pod.\<close>

definition pod_series :: "metric list" where
  "pod_series = [TokenExpirationInTime, LeaseExpirationInTime, RenewTokenCount,
                 RenewTokenErrorCount, RenewLeaseCount, RenewLeaseErrorCount]"

lemma series_live_Nil [simp]: "series_live m ls [] live = live"
  by (simp add: series_live_def)

lemma series_live_append:
  "series_live m ls (xs @ ys) live = series_live m ls ys (series_live m ls xs live)"
  by (simp add: series_live_def)

lemma series_live_FlushPodSeries:
  "m \<in> set pod_series \<Longrightarrow> \<not> series_live m [uuid, namespace] (FlushPodSeries uuid namespace) live"
  by (auto simp: pod_series_def series_live_def FlushPodSeries_def)

lemma series_live_FlushPodSeries_other:
  "(u, n) \<noteq> (uuid, namespace) \<or> m \<notin> set pod_series \<Longrightarrow>
   series_live m [u, n] (FlushPodSeries uuid namespace) live = live"
  by (auto simp: pod_series_def series_live_def FlushPodSeries_def)

end
