(* ===== verification/Placeholder.thy ===== *)
theory Placeholder
  imports Go_Strings
begin

text \<open>
  Package \<^verbatim>\<open>pkg/placeholder\<close>: the opaque tokens that the webhook writes into the pod's
  environment and the NRI plugin replaces at container creation. \<open>Generate\<close> takes the 32 bytes
  that \<^verbatim>\<open>crypto/rand\<close> returns as its argument; \<open>IsPlaceholder\<close> is the structural test.
\<close>

section \<open>The format\<close>

definition Prefix :: string where "Prefix = ''__VDBI_PH_''"

definition Suffix :: string where "Suffix = ''___''"

definition HexLength :: nat where "HexLength = 64"

definition Length :: nat where "Length = length Prefix + HexLength + length Suffix"

lemmas format_defs = Prefix_def Suffix_def HexLength_def Length_def

lemma length_Prefix [simp]: "length Prefix = 10"
  by (simp add: Prefix_def)

lemma length_Suffix [simp]: "length Suffix = 3"
  by (simp add: Suffix_def)

lemma Length_eq [simp]: "Length = 77"
  by (simp add: Length_def HexLength_def)

section \<open>Generation\<close>

text \<open>\<^verbatim>\<open>hex.EncodeToString\<close>: two lowercase digits per byte, the high half first.\<close>

definition hex_digit :: "nat \<Rightarrow> char" where
  "hex_digit n = (if n < 10 then char_of (48 + n) else char_of (87 + n))"

definition encode_byte :: "8 word \<Rightarrow> string" where
  "encode_byte b = [hex_digit (unat b div 16), hex_digit (unat b mod 16)]"

definition EncodeToString :: "8 word list \<Rightarrow> string" where
  "EncodeToString bs = concat (map encode_byte bs)"

definition Generate :: "8 word list \<Rightarrow> string" where
  "Generate raw = Prefix @ EncodeToString raw @ Suffix"

section \<open>The structural test\<close>

definition is_hex :: "char \<Rightarrow> bool" where
  "is_hex c = ((CHR ''0'' \<le> c \<and> c \<le> CHR ''9'') \<or> (CHR ''a'' \<le> c \<and> c \<le> CHR ''f''))"

definition IsPlaceholder :: "string \<Rightarrow> bool" where
  "IsPlaceholder s =
     (if length s \<noteq> Length then False
      else if take (length Prefix) s \<noteq> Prefix then False
      else if drop (length s - length Suffix) s \<noteq> Suffix then False
      else list_all is_hex (take HexLength (drop (length Prefix) s)))"

section \<open>What the test accepts\<close>

lemma is_hex_of_char:
  "is_hex c \<longleftrightarrow> (48 \<le> (of_char c :: nat) \<and> (of_char c :: nat) \<le> 57) \<or>
                (97 \<le> (of_char c :: nat) \<and> (of_char c :: nat) \<le> 102)"
  by (simp add: is_hex_def less_eq_char_def)

lemma of_char_hex_digit:
  "n < 16 \<Longrightarrow> (of_char (hex_digit n) :: nat) = (if n < 10 then 48 + n else 87 + n)"
  by (simp add: hex_digit_def)

lemma is_hex_hex_digit: "n < 16 \<Longrightarrow> is_hex (hex_digit n)"
  by (simp add: is_hex_of_char of_char_hex_digit)

lemma hex_digit_inj: "m < 16 \<Longrightarrow> n < 16 \<Longrightarrow> hex_digit m = hex_digit n \<Longrightarrow> m = n"
proof -
  assume "m < 16" "n < 16" "hex_digit m = hex_digit n"
  then have "(of_char (hex_digit m) :: nat) = of_char (hex_digit n)"
    by simp
  with \<open>m < 16\<close> \<open>n < 16\<close> show "m = n"
    by (simp add: of_char_hex_digit split: if_splits)
qed

lemma hex_digit_surj:
  assumes "is_hex c"
  obtains n where "n < 16" "hex_digit n = c"
proof (cases "(of_char c :: nat) \<le> 57")
  case True
  with assms have "48 \<le> (of_char c :: nat)"
    by (auto simp: is_hex_of_char)
  with True have "(of_char c :: nat) - 48 < 10"
    by simp
  with \<open>48 \<le> (of_char c :: nat)\<close> show ?thesis
    by (intro that [of "of_char c - 48"]) (simp_all add: hex_digit_def)
next
  case False
  with assms have "97 \<le> (of_char c :: nat)" "(of_char c :: nat) \<le> 102"
    by (auto simp: is_hex_of_char)
  then show ?thesis
    by (intro that [of "of_char c - 87"]) (auto simp: hex_digit_def)
qed

lemma unat_byte_halves [simp]: "unat (b :: 8 word) div 16 < 16" "unat (b :: 8 word) mod 16 < 16"
proof -
  have "unat b < 2 ^ LENGTH(8)"
    by (rule unsigned_less)
  then show "unat b div 16 < 16" "unat b mod 16 < 16"
    by simp_all
qed

lemma length_encode_byte [simp]: "length (encode_byte b) = 2"
  by (simp add: encode_byte_def)

lemma encode_byte_inj: "encode_byte a = encode_byte b \<Longrightarrow> a = b"
proof -
  assume "encode_byte a = encode_byte b"
  then have "unat a div 16 = unat b div 16" "unat a mod 16 = unat b mod 16"
    by (auto simp: encode_byte_def dest: hex_digit_inj [rotated 2])
  then have "unat a = unat b"
    by (metis div_mult_mod_eq)
  then show "a = b"
    by (simp add: unsigned_word_eqI)
qed

lemma encode_byte_surj:
  assumes "is_hex c" "is_hex d"
  obtains b where "encode_byte b = [c, d]"
proof -
  from assms obtain m n where mn: "m < 16" "hex_digit m = c" "n < 16" "hex_digit n = d"
    by (metis hex_digit_surj)
  let ?b = "word_of_nat (16 * m + n) :: 8 word"
  have "unat ?b = 16 * m + n"
    using mn by (simp only: unsigned_of_nat take_bit_eq_mod) simp
  with mn have "encode_byte ?b = [c, d]"
    by (simp add: encode_byte_def)
  then show ?thesis
    by (rule that)
qed

lemma EncodeToString_Cons [simp]: "EncodeToString (b # bs) = encode_byte b @ EncodeToString bs"
  by (simp add: EncodeToString_def)

lemma EncodeToString_Nil [simp]: "EncodeToString [] = []"
  by (simp add: EncodeToString_def)

lemma length_EncodeToString [simp]: "length (EncodeToString bs) = 2 * length bs"
  by (induction bs) simp_all

lemma is_hex_EncodeToString: "list_all is_hex (EncodeToString bs)"
  by (induction bs) (simp_all add: encode_byte_def is_hex_hex_digit)

lemma EncodeToString_inj: "EncodeToString as = EncodeToString bs \<Longrightarrow> as = bs"
proof (induction as arbitrary: bs)
  case Nil
  then show ?case
    by (cases bs) (auto simp: encode_byte_def)
next
  case (Cons a as)
  then obtain b bs' where [simp]: "bs = b # bs'"
    by (cases bs) (auto simp: encode_byte_def)
  from Cons.prems have "encode_byte a = encode_byte b" "EncodeToString as = EncodeToString bs'"
    by simp_all
  then show ?case
    using Cons.IH encode_byte_inj by simp
qed

lemma EncodeToString_surj:
  assumes "list_all is_hex cs" "length cs = 2 * n"
  shows "\<exists>bs. length bs = n \<and> EncodeToString bs = cs"
  using assms
proof (induction n arbitrary: cs)
  case (Suc n)
  then obtain c d cs' where [simp]: "cs = c # d # cs'"
    by (metis (no_types, lifting) Suc_length_conv mult_Suc_right numeral_2_eq_2 add_Suc plus_1_eq_Suc)
  from Suc obtain bs where bs: "length bs = n" "EncodeToString bs = cs'"
    by auto
  from Suc.prems(1) obtain b where "encode_byte b = [c, d]"
    by (auto elim: encode_byte_surj)
  with bs show ?case
    by (intro exI [of _ "b # bs"]) simp
qed simp

lemma length_Generate: "length (Generate raw) = 13 + 2 * length raw"
  by (simp add: Generate_def)

lemma Generate_inj: "Generate as = Generate bs \<Longrightarrow> as = bs"
  by (simp add: Generate_def EncodeToString_inj)

lemma IsPlaceholder_Generate: "length raw = 32 \<Longrightarrow> IsPlaceholder (Generate raw)"
  by (simp add: IsPlaceholder_def Generate_def HexLength_def is_hex_EncodeToString)

lemma IsPlaceholder_shape:
  assumes "IsPlaceholder s"
  obtains h where "s = Prefix @ h @ Suffix" "length h = 64" "list_all is_hex h"
proof -
  let ?h = "take HexLength (drop (length Prefix) s)"
  from assms have len: "length s = 77" and pre: "take 10 s = Prefix"
    and suf: "drop 74 s = Suffix" and hex: "list_all is_hex ?h"
    by (auto simp: IsPlaceholder_def split: if_splits)
  have "s = take 10 s @ take 64 (drop 10 s) @ drop 64 (drop 10 s)"
    by (simp only: append_take_drop_id)
  also have "drop 64 (drop 10 s) = drop 74 s"
    by simp
  finally have "s = Prefix @ ?h @ Suffix"
    by (simp add: pre suf HexLength_def)
  moreover have "length ?h = 64"
    using len by (simp add: HexLength_def)
  ultimately show ?thesis
    using that hex by blast
qed

lemma IsPlaceholder_not_Nil: "IsPlaceholder s \<Longrightarrow> s \<noteq> []"
  by (auto simp: IsPlaceholder_def split: if_splits)

lemma IsPlaceholder_length: "IsPlaceholder s \<Longrightarrow> length s = 77"
  by (simp add: IsPlaceholder_def split: if_splits)

lemma IsPlaceholder_Contains_Prefix: "IsPlaceholder s \<Longrightarrow> Contains s Prefix"
  by (elim IsPlaceholder_shape) (auto simp: Contains_append_iff intro: exI [of _ "[]"])

lemma IsPlaceholder_iff_Generate: "IsPlaceholder s \<longleftrightarrow> (\<exists>raw. length raw = 32 \<and> s = Generate raw)"
proof
  assume "IsPlaceholder s"
  then obtain h where h: "s = Prefix @ h @ Suffix" "length h = 64" "list_all is_hex h"
    by (rule IsPlaceholder_shape)
  then obtain raw where "length raw = 32" "EncodeToString raw = h"
    using EncodeToString_surj [of h 32] by auto
  with h show "\<exists>raw. length raw = 32 \<and> s = Generate raw"
    by (auto simp: Generate_def)
qed (auto simp: IsPlaceholder_Generate)

text \<open>A placeholder's bytes need no escaping in a URL and hold no separator the program splits on.\<close>

definition placeholder_char :: "char \<Rightarrow> bool" where
  "placeholder_char c = (is_hex c \<or> c \<in> set Prefix \<or> c \<in> set Suffix)"

lemma IsPlaceholder_chars: "IsPlaceholder s \<Longrightarrow> c \<in> set s \<Longrightarrow> placeholder_char c"
  by (elim IsPlaceholder_shape) (auto simp: placeholder_char_def list_all_iff)

end
