(* ===== verification/Effects.thy ===== *)
theory Effects
  imports Metrics Placeholder
begin

text \<open>
  Errors, the outside world, and how the code talks to it. Everything outside the repository
  (Vault, the Kubernetes API, the file system, the random source, the clock, the rate limiter)
  is one parameter \<open>E\<close> of type \<open>env\<close>, a record with one function per call. Each function may
  depend on the whole history of the run, so it stands for any behaviour of a stateful service.
  A call appends one event, holding its arguments and its answer, to the history. Code with
  effects is a function in the state monad over histories, written with the same calls in the
  same order as the source; log lines are left out.
\<close>

section \<open>Errors\<close>

text \<open>
  \<open>Newf\<close> is \<^verbatim>\<open>errors.New\<close>/\<^verbatim>\<open>errors.Newf\<close>, \<open>Wrap\<close> is \<^verbatim>\<open>errors.Wrap\<close>/\<^verbatim>\<open>Wrapf\<close>, \<open>JoinErr\<close> is \<^verbatim>\<open>errors.Join\<close>;
  \<open>KeyNotFound\<close> and \<open>V1AnnotationDetected\<close> are the two sentinel values. \<open>ResponseError\<close> is Vault's
  API error: status code, error strings, rendered message. \<open>KubeStatus\<close> is an API-server status
  error with its reason. \<open>NotExist\<close> is the missing-file error.
\<close>

datatype kube_reason = Forbidden | NotFound | Unauthorized | OtherReason

datatype goerr =
    Newf string "string list"
  | Wrap goerr string
  | JoinErr "goerr list"
  | KeyNotFound
  | V1AnnotationDetected
  | ResponseError nat "string list" string
  | KubeStatus kube_reason string
  | NotExist string
  | ContextCanceled

fun err_msg :: "goerr \<Rightarrow> string" where
  "err_msg (Newf f as) = Sprintf f as"
| "err_msg (Wrap e p) = p @ '': '' @ err_msg e"
| "err_msg (JoinErr es) = Join (map err_msg es) [CHR 0x0A]"
| "err_msg KeyNotFound = ''key information not found''"
| "err_msg V1AnnotationDetected =
     ''this pod is going to be ignored, old annotation from vault injector v1 detected''"
| "err_msg (ResponseError code errs txt) = txt"
| "err_msg (KubeStatus r txt) = txt"
| "err_msg (NotExist txt) = txt"
| "err_msg ContextCanceled = ''context canceled''"

text \<open>\<^verbatim>\<open>errors.As\<close> to Vault's response error, and \<^verbatim>\<open>errors.Is\<close> for a leaf: the first match of the tree.\<close>

fun as_response_error :: "goerr \<Rightarrow> (nat \<times> string list) option"
and as_response_errors :: "goerr list \<Rightarrow> (nat \<times> string list) option" where
  "as_response_error (ResponseError code errs txt) = Some (code, errs)"
| "as_response_error (Wrap e p) = as_response_error e"
| "as_response_error (JoinErr es) = as_response_errors es"
| "as_response_error _ = None"
| "as_response_errors [] = None"
| "as_response_errors (e # es) =
     (case as_response_error e of Some r \<Rightarrow> Some r | None \<Rightarrow> as_response_errors es)"

fun err_is :: "goerr \<Rightarrow> goerr \<Rightarrow> bool" where
  "err_is (Wrap e p) t = (Wrap e p = t \<or> err_is e t)"
| "err_is (JoinErr es) t = (JoinErr es = t \<or> (\<exists>e \<in> set es. err_is e t))"
| "err_is e t = (e = t)"

text \<open>The result of a Go function: a value, an error, or a run-time panic.\<close>

datatype 'a res = Ok 'a | Err goerr | Panic

fun wrap_err :: "string \<Rightarrow> 'a res \<Rightarrow> 'a res" where
  "wrap_err p (Ok a) = Ok a"
| "wrap_err p (Err e) = Err (Wrap e p)"
| "wrap_err p Panic = Panic"

fun of_sum :: "goerr + 'a \<Rightarrow> 'a res" where
  "of_sum (Inl e) = Err e"
| "of_sum (Inr a) = Ok a"

fun of_opt :: "goerr option \<Rightarrow> unit res" where
  "of_opt (Some e) = Err e"
| "of_opt None = Ok ()"

lemma of_sum_eq [simp]:
  "of_sum s = Ok a \<longleftrightarrow> s = Inr a" "of_sum s = Err e \<longleftrightarrow> s = Inl e" "of_sum s \<noteq> Panic"
  by (cases s; simp)+

lemma of_opt_eq [simp]:
  "of_opt r = Ok u \<longleftrightarrow> r = None" "of_opt r = Err e \<longleftrightarrow> r = Some e" "of_opt r \<noteq> Panic"
  by (cases r; simp)+

lemma wrap_err_eq [simp]:
  "wrap_err p r = Ok a \<longleftrightarrow> r = Ok a" "wrap_err p r = Panic \<longleftrightarrow> r = Panic"
  by (cases r; simp)+

section \<open>Values that come from outside\<close>

text \<open>
  A JSON value as the Vault client decodes it (\<^verbatim>\<open>any\<close>). Numbers arrive as \<^verbatim>\<open>json.Number\<close>; the other
  numeric types are there because the code switches on them. A float is given by the two things
  the code reads of it: its text under \<^verbatim>\<open>%v\<close> and its conversion to \<^verbatim>\<open>int64\<close>.
\<close>

datatype any =
    ANil
  | AStr string
  | ABool bool
  | AInt int
  | AInt32 int
  | AInt64 int
  | AFloat32 string
  | AFloat64 string int
  | AJsonNumber string
  | ASlice "any list"
  | AMap "(string \<times> any) list"

record secret =
  sec_data :: "(string \<times> any) list"
  sec_lease_id :: string
  sec_lease_duration :: int
  sec_client_token :: "string option"
  sec_token_ttl :: "goerr + int"

text \<open>A Vault client: the address it talks to and the token it sends.\<close>

record vclient =
  cl_address :: string
  cl_token :: string

text \<open>The parts of a Kubernetes pod that the code reads or writes.\<close>

record env_var =
  ev_name :: string
  ev_value :: string

record container =
  c_name :: string
  c_env :: "env_var list"

record pod =
  pod_uid :: string
  pod_namespace :: string
  pod_name :: string
  pod_labels :: "(string \<times> string) list"
  pod_annotations :: "(string \<times> string) list"
  pod_service_account :: string
  pod_node_name :: string
  pod_init_containers :: "container list"
  pod_containers :: "container list"
  pod_deleting :: bool

text \<open>What the program does to files, apart from reading them; \<open>WriteFile\<close> has the bytes written.\<close>

datatype fs_op =
    MkdirAll string
  | OpenTrunc string
  | WriteFile string string
  | SyncFile string
  | CloseFile string
  | RemoveFile string
  | Rename string string

section \<open>The history of a run\<close>

text \<open>
  One constructor per call that leaves the process. \<open>SpawnStoreData\<close> is the start of the
  goroutine of \<^verbatim>\<open>StoreDataAsync\<close>: address, token, KV mount, path, the data it will write.
\<close>

datatype event =
    NewVaultClient string "goerr option"
  | NewKubernetesAuth string string string "goerr option"
  | AuthLogin string string string string "goerr + string"
  | CreateOrphan vclient string string "string list" "goerr + secret"
  | LogicalRead vclient string "goerr + secret option"
  | LogicalList vclient string "goerr + secret option"
  | KvPut vclient string string "(string \<times> string) list" "goerr option"
  | KvDelete vclient string string "goerr option"
  | KvDeleteMetadata vclient string string "goerr option"
  | RevokeOrphan vclient string "goerr option"
  | RevokeSelf vclient "goerr option"
  | TokenRenew vclient string int "goerr + secret"
  | TokenRenewSelf vclient int "goerr option"
  | TokenLookupSelf vclient "goerr + secret option"
  | SysRenew vclient string int "goerr + secret option"
  | SysHealth string "goerr + bool \<times> bool"
  | KubeClient "goerr option"
  | ListPods string string "goerr + pod list"
  | GetPod string string "goerr + pod"
  | CreateToken string string "string list option" int "goerr + string"
  | ReadFile string "goerr + string"
  | FsOp fs_op "goerr option"
  | NewUUID string
  | RandRead "goerr + 8 word list"
  | TimeNow int
  | LimiterWait "goerr option"
  | SpawnStoreData string string string string "(string \<times> string) list"
  | Metric metric_op

type_synonym hist = "event list"

type_synonym 'a io = "(hist, 'a) state"

text \<open>
  The parts of client-go from which a clientset is made. A REST configuration is only handed on; a
  string stands for it.
\<close>

record client_go =
  cg_HomeDir :: string
  cg_InClusterConfig :: "goerr + string"
  cg_BuildConfigFromFlags :: "string \<Rightarrow> string \<Rightarrow> goerr + string"
  cg_NewForConfig :: "string \<Rightarrow> goerr option"

record env =
  e_new_client :: "hist \<Rightarrow> string \<Rightarrow> goerr option"
  e_k8s_auth :: "hist \<Rightarrow> string \<Rightarrow> string \<Rightarrow> string \<Rightarrow> goerr option"
  e_login :: "hist \<Rightarrow> string \<Rightarrow> string \<Rightarrow> string \<Rightarrow> string \<Rightarrow> goerr + string"
  e_create_orphan :: "hist \<Rightarrow> vclient \<Rightarrow> string \<Rightarrow> string \<Rightarrow> string list \<Rightarrow> goerr + secret"
  e_read :: "hist \<Rightarrow> vclient \<Rightarrow> string \<Rightarrow> goerr + secret option"
  e_list :: "hist \<Rightarrow> vclient \<Rightarrow> string \<Rightarrow> goerr + secret option"
  e_kv_put :: "hist \<Rightarrow> vclient \<Rightarrow> string \<Rightarrow> string \<Rightarrow> (string \<times> string) list \<Rightarrow> goerr option"
  e_kv_delete :: "hist \<Rightarrow> vclient \<Rightarrow> string \<Rightarrow> string \<Rightarrow> goerr option"
  e_kv_delete_metadata :: "hist \<Rightarrow> vclient \<Rightarrow> string \<Rightarrow> string \<Rightarrow> goerr option"
  e_revoke_orphan :: "hist \<Rightarrow> vclient \<Rightarrow> string \<Rightarrow> goerr option"
  e_revoke_self :: "hist \<Rightarrow> vclient \<Rightarrow> goerr option"
  e_token_renew :: "hist \<Rightarrow> vclient \<Rightarrow> string \<Rightarrow> int \<Rightarrow> goerr + secret"
  e_token_renew_self :: "hist \<Rightarrow> vclient \<Rightarrow> int \<Rightarrow> goerr option"
  e_lookup_self :: "hist \<Rightarrow> vclient \<Rightarrow> goerr + secret option"
  e_sys_renew :: "hist \<Rightarrow> vclient \<Rightarrow> string \<Rightarrow> int \<Rightarrow> goerr + secret option"
  e_health :: "hist \<Rightarrow> string \<Rightarrow> goerr + bool \<times> bool"
  e_client_go :: "hist \<Rightarrow> client_go"
  e_list_pods :: "hist \<Rightarrow> string \<Rightarrow> string \<Rightarrow> goerr + pod list"
  e_get_pod :: "hist \<Rightarrow> string \<Rightarrow> string \<Rightarrow> goerr + pod"
  e_create_token :: "hist \<Rightarrow> string \<Rightarrow> string \<Rightarrow> string list option \<Rightarrow> int \<Rightarrow> goerr + string"
  e_read_file :: "hist \<Rightarrow> string \<Rightarrow> goerr + string"
  e_fs :: "hist \<Rightarrow> fs_op \<Rightarrow> goerr option"
  e_uuid :: "hist \<Rightarrow> string"
  e_rand :: "hist \<Rightarrow> goerr + 8 word list"
  e_now :: "hist \<Rightarrow> int"
  e_limiter :: "hist \<Rightarrow> goerr option"

section \<open>Calls\<close>

definition perform :: "(hist \<Rightarrow> 'a) \<Rightarrow> ('a \<Rightarrow> event) \<Rightarrow> 'a io" where
  "perform f ev = State (\<lambda>h. (f h, h @ [ev (f h)]))"

definition emit :: "event \<Rightarrow> unit io" where
  "emit e = State (\<lambda>h. ((), h @ [e]))"

definition metric :: "metric_op \<Rightarrow> unit io" where
  "metric op = emit (Metric op)"

fun metrics_all :: "metric_op list \<Rightarrow> unit io" where
  "metrics_all [] = State_Monad.return ()"
| "metrics_all (op # ops) = do { _ \<leftarrow> metric op; metrics_all ops }"

abbreviation ret :: "'a \<Rightarrow> 'a io" where
  "ret \<equiv> State_Monad.return"

text \<open>
  \<open>check m k\<close> is \<^verbatim>\<open>x, err := m; if err != nil { return err }\<close> followed by \<open>k x\<close>; a panic unwinds the
  same way.
\<close>

definition check :: "'a res io \<Rightarrow> ('a \<Rightarrow> 'b res io) \<Rightarrow> 'b res io" where
  "check m k = do {
     r \<leftarrow> m;
     case r of Ok a \<Rightarrow> k a | Err e \<Rightarrow> ret (Err e) | Panic \<Rightarrow> ret Panic }"

lemma run_perform [simp]: "run_state (perform f ev) h = (f h, h @ [ev (f h)])"
  by (simp add: perform_def)

lemma run_emit [simp]: "run_state (emit e) h = ((), h @ [e])"
  by (simp add: emit_def)

lemma run_metric [simp]: "run_state (metric op) h = ((), h @ [Metric op])"
  by (simp add: metric_def)

lemma run_metrics_all [simp]: "run_state (metrics_all ops) h = ((), h @ map Metric ops)"
  by (induction ops arbitrary: h) simp_all

section \<open>A logic of emitted events\<close>

text \<open>
  \<open>emits m P\<close>: from every history, \<open>m\<close> only appends events, and its result together with the
  appended events satisfies \<open>P\<close>. The rules go backwards over the code, one per construct.
\<close>

definition emits :: "'a io \<Rightarrow> ('a \<Rightarrow> event list \<Rightarrow> bool) \<Rightarrow> bool" where
  "emits m P \<longleftrightarrow> (\<forall>h. \<exists>es. snd (run_state m h) = h @ es \<and> P (fst (run_state m h)) es)"

lemma emitsD:
  assumes "emits m P" "run_state m h = (a, h')"
  obtains es where "h' = h @ es" "P a es"
  using assms unfolding emits_def by (metis fst_conv snd_conv)

lemma emits_return [emits_intro]: "P a [] \<Longrightarrow> emits (ret a) P"
  by (simp add: emits_def)

lemma emits_perform [emits_intro]: "(\<And>a. P a [ev a]) \<Longrightarrow> emits (perform f ev) P"
  by (simp add: emits_def)

lemma emits_emit [emits_intro]: "P () [e] \<Longrightarrow> emits (emit e) P"
  by (simp add: emits_def)

lemma emits_metric [emits_intro]: "P () [Metric op] \<Longrightarrow> emits (metric op) P"
  by (simp add: emits_def)

lemma emits_metrics_all [emits_intro]: "P () (map Metric ops) \<Longrightarrow> emits (metrics_all ops) P"
  by (simp add: emits_def)

lemma emits_bind [emits_intro]:
  assumes "emits m (\<lambda>a es. emits (k a) (\<lambda>b es'. P b (es @ es')))"
  shows "emits (State_Monad.bind m k) P"
  unfolding emits_def
proof
  fix h
  obtain a h1 where m: "run_state m h = (a, h1)"
    by fastforce
  obtain es where es: "h1 = h @ es" "emits (k a) (\<lambda>b es'. P b (es @ es'))"
    by (rule emitsD [OF assms m])
  obtain b h2 where k: "run_state (k a) h1 = (b, h2)"
    by fastforce
  obtain es' where "h2 = h1 @ es'" "P b (es @ es')"
    by (rule emitsD [OF es(2) k])
  with m k es(1)
  show "\<exists>es. snd (run_state (State_Monad.bind m k) h) = h @ es \<and>
             P (fst (run_state (State_Monad.bind m k) h)) es"
    by auto
qed

lemma emits_conseq:
  "emits m Q \<Longrightarrow> (\<And>a es. Q a es \<Longrightarrow> P a es) \<Longrightarrow> emits m P"
  unfolding emits_def by blast

lemma emits_conj: "emits m P \<Longrightarrow> emits m Q \<Longrightarrow> emits m (\<lambda>a es. P a es \<and> Q a es)"
  unfolding emits_def by (metis same_append_eq)

lemma emits_check [emits_intro]:
  assumes "emits m (\<lambda>r es. case r of
             Ok a \<Rightarrow> emits (k a) (\<lambda>b es'. P b (es @ es'))
           | Err e \<Rightarrow> P (Err e) es | Panic \<Rightarrow> P Panic es)"
  shows "emits (check m k) P"
  unfolding check_def
  by (rule emits_bind, rule emits_conseq [OF assms]) (auto intro: emits_return split: res.splits)

text \<open>
  Most uses only bound which events can occur: \<open>only S m\<close> says that every event \<open>m\<close> emits is in
  the set \<open>S\<close>, whatever the result.
\<close>

definition only :: "event set \<Rightarrow> 'a io \<Rightarrow> bool" where
  "only S m \<longleftrightarrow> emits m (\<lambda>_ es. set es \<subseteq> S)"

lemma only_return [simp, intro!]: "only S (ret a)"
  unfolding only_def by (rule emits_return) simp

lemma only_perform [intro!]: "(\<And>a. ev a \<in> S) \<Longrightarrow> only S (perform f ev)"
  unfolding only_def by (rule emits_perform) simp

lemma only_emit [intro!]: "e \<in> S \<Longrightarrow> only S (emit e)"
  unfolding only_def by (rule emits_emit) simp

lemma only_metric [intro!]: "Metric op \<in> S \<Longrightarrow> only S (metric op)"
  unfolding only_def by (rule emits_metric) simp

lemma only_metrics_all [intro!]: "(\<And>op. Metric op \<in> S) \<Longrightarrow> only S (metrics_all ops)"
  unfolding only_def by (rule emits_metrics_all) auto

lemma only_bind [intro!]:
  assumes "only S m" "\<And>a. only S (k a)"
  shows "only S (State_Monad.bind m k)"
  using assms unfolding only_def
  by (auto intro!: emits_bind elim!: emits_conseq)

lemma only_check [intro!]:
  assumes "only S m" "\<And>a. only S (k a)"
  shows "only S (check m k)"
  unfolding check_def using assms by (auto split: res.splits)

lemma only_mono: "only S m \<Longrightarrow> S \<subseteq> T \<Longrightarrow> only T m"
  unfolding only_def by (erule emits_conseq) auto

lemma onlyD:
  assumes "only S m" "run_state m h = (a, h')"
  obtains es where "h' = h @ es" "set es \<subseteq> S"
  using assms unfolding only_def by (elim emitsD) auto

lemma emits_True_of_only: "only S m \<Longrightarrow> emits m (\<lambda>_ _. True)"
  unfolding only_def by (erule emits_conseq) simp

section \<open>Which calls a piece of code makes\<close>

text \<open>
  \<open>call_of\<close> forgets the arguments of an event. \<open>calls K m\<close> says that \<open>m\<close> makes no calls outside
  \<open>K\<close>; each component states it for its operations, as an introduction rule.
\<close>

datatype call =
    C_new_client | C_k8s_auth | C_login | C_create_orphan | C_read | C_list | C_kv_put | C_kv_delete
  | C_kv_delete_metadata | C_revoke_orphan | C_revoke_self | C_token_renew | C_token_renew_self
  | C_lookup_self | C_sys_renew | C_health | C_kube_client | C_list_pods | C_get_pod
  | C_create_token | C_read_file | C_fs | C_uuid | C_rand | C_now | C_limiter | C_spawn_store
  | C_metric

fun call_of :: "event \<Rightarrow> call" where
  "call_of (NewVaultClient a r) = C_new_client"
| "call_of (NewKubernetesAuth a b c r) = C_k8s_auth"
| "call_of (AuthLogin a b c d r) = C_login"
| "call_of (CreateOrphan a b c d r) = C_create_orphan"
| "call_of (LogicalRead a b r) = C_read"
| "call_of (LogicalList a b r) = C_list"
| "call_of (KvPut a b c d r) = C_kv_put"
| "call_of (KvDelete a b c r) = C_kv_delete"
| "call_of (KvDeleteMetadata a b c r) = C_kv_delete_metadata"
| "call_of (RevokeOrphan a b r) = C_revoke_orphan"
| "call_of (RevokeSelf a r) = C_revoke_self"
| "call_of (TokenRenew a b c r) = C_token_renew"
| "call_of (TokenRenewSelf a b r) = C_token_renew_self"
| "call_of (TokenLookupSelf a r) = C_lookup_self"
| "call_of (SysRenew a b c r) = C_sys_renew"
| "call_of (SysHealth a r) = C_health"
| "call_of (KubeClient r) = C_kube_client"
| "call_of (ListPods a b r) = C_list_pods"
| "call_of (GetPod a b r) = C_get_pod"
| "call_of (CreateToken a b c d r) = C_create_token"
| "call_of (ReadFile a r) = C_read_file"
| "call_of (FsOp a r) = C_fs"
| "call_of (NewUUID a) = C_uuid"
| "call_of (RandRead r) = C_rand"
| "call_of (TimeNow t) = C_now"
| "call_of (LimiterWait r) = C_limiter"
| "call_of (SpawnStoreData a b c d e) = C_spawn_store"
| "call_of (Metric op) = C_metric"

definition calls :: "call set \<Rightarrow> 'a io \<Rightarrow> bool" where
  "calls K m \<longleftrightarrow> only {e. call_of e \<in> K} m"

lemma calls_return [simp, intro!]: "calls K (ret a)"
  by (simp add: calls_def)

lemma calls_perform [intro!]: "(\<And>a. call_of (ev a) \<in> K) \<Longrightarrow> calls K (perform f ev)"
  by (auto simp: calls_def)

lemma calls_emit [intro!]: "call_of e \<in> K \<Longrightarrow> calls K (emit e)"
  by (auto simp: calls_def)

lemma calls_metric [intro!]: "C_metric \<in> K \<Longrightarrow> calls K (metric op)"
  by (auto simp: calls_def)

lemma calls_metrics_all [intro!]: "C_metric \<in> K \<Longrightarrow> calls K (metrics_all ops)"
  by (auto simp: calls_def)

lemma calls_bind [intro!]: "calls K m \<Longrightarrow> (\<And>a. calls K (k a)) \<Longrightarrow> calls K (State_Monad.bind m k)"
  by (auto simp: calls_def)

lemma calls_check [intro!]: "calls K m \<Longrightarrow> (\<And>a. calls K (k a)) \<Longrightarrow> calls K (check m k)"
  by (auto simp: calls_def)

lemma calls_mono: "calls K m \<Longrightarrow> K \<subseteq> K' \<Longrightarrow> calls K' m"
  unfolding calls_def by (erule only_mono) auto

lemma calls_D: "calls K m \<Longrightarrow> run_state m h = (a, h @ es) \<Longrightarrow> e \<in> set es \<Longrightarrow> call_of e \<in> K"
  unfolding calls_def by (erule onlyD) auto

text \<open>Parts of which only the kinds of calls, or nothing at all, matters for a property.\<close>

lemma emits_calls:
  "calls K m \<Longrightarrow> (\<And>a es. \<forall>e \<in> set es. call_of e \<in> K \<Longrightarrow> P a es) \<Longrightarrow> emits m P"
  unfolding calls_def only_def by (erule emits_conseq) auto

lemma emits_any: "calls UNIV m \<Longrightarrow> (\<And>a es. P a es) \<Longrightarrow> emits m P"
  by (erule emits_calls)

lemma emits_run: "emits m P \<Longrightarrow> P (fst (run_state m [])) (snd (run_state m []))"
  unfolding emits_def by (metis append_Nil)

text \<open>The calls that reach Vault's API, with or without a token.\<close>

definition vault_calls :: "call set" where
  "vault_calls = {C_login, C_create_orphan, C_read, C_list, C_kv_put, C_kv_delete,
     C_kv_delete_metadata, C_revoke_orphan, C_revoke_self, C_token_renew, C_token_renew_self,
     C_lookup_self, C_sys_renew, C_health, C_spawn_store}"

section \<open>Order of events\<close>

text \<open>\<open>preceded P Q es\<close>: every event with \<open>Q\<close> has an event with \<open>P\<close> somewhere before it.\<close>

fun preceded :: "(event \<Rightarrow> bool) \<Rightarrow> (event \<Rightarrow> bool) \<Rightarrow> event list \<Rightarrow> bool" where
  "preceded P Q [] = True"
| "preceded P Q (e # es) = (\<not> Q e \<and> (P e \<or> preceded P Q es))"

lemma preceded_iff:
  "preceded P Q es \<longleftrightarrow> (\<forall>us e vs. es = us @ e # vs \<longrightarrow> Q e \<longrightarrow> (\<exists>x \<in> set us. P x))"
proof (induction es)
  case (Cons a es)
  show ?case
  proof
    assume *: "preceded P Q (a # es)"
    show "\<forall>us e vs. a # es = us @ e # vs \<longrightarrow> Q e \<longrightarrow> (\<exists>x \<in> set us. P x)"
    proof (intro allI impI)
      fix us e vs
      assume "a # es = us @ e # vs" "Q e"
      with * Cons show "\<exists>x \<in> set us. P x"
        by (cases us) auto
    qed
  next
    assume *: "\<forall>us e vs. a # es = us @ e # vs \<longrightarrow> Q e \<longrightarrow> (\<exists>x \<in> set us. P x)"
    have "\<not> Q a"
      using *[rule_format, of "[]" a es] by auto
    moreover have "P a \<or> preceded P Q es"
      using *[rule_format, of "a # us" for us] unfolding Cons by (metis append_Cons set_ConsD)
    ultimately show "preceded P Q (a # es)"
      by simp
  qed
qed simp

lemma preceded_append:
  "preceded P Q (xs @ ys) \<longleftrightarrow> preceded P Q xs \<and> ((\<exists>x \<in> set xs. P x) \<or> preceded P Q ys)"
  by (induction xs) auto

lemma preceded_none: "(\<And>e. e \<in> set es \<Longrightarrow> \<not> Q e) \<Longrightarrow> preceded P Q es"
  by (induction es) auto

lemma preceded_guard:
  "(\<And>e. e \<in> set xs \<Longrightarrow> \<not> Q e) \<Longrightarrow> (\<exists>x \<in> set xs. P x) \<Longrightarrow> preceded P Q (xs @ ys)"
  by (simp add: preceded_append preceded_none)

section \<open>A world in which every call succeeds\<close>

text \<open>
  Concrete worlds, to evaluate the model on and to show that hypotheses about runs can hold:
  \<open>calm_env\<close> answers every call with success, and examples override single answers.
\<close>

definition calm_secret :: secret where
  "calm_secret =
    \<lparr>sec_data = [(''username'', AStr ''alice''), (''password'', AStr ''s3cret''),
                 (''period'', AJsonNumber ''3600''),
                 (''data'', AMap [(''LeaseId'', AStr ''l1''), (''TokenId'', AStr ''t1''),
                                  (''Namespace'', AStr ''ns'')]),
                 (''keys'', ASlice [AStr ''u1'', AStr ''u2'']),
                 (''bound_service_account_names'', ASlice [AStr ''app'']),
                 (''bound_service_account_namespaces'', ASlice [AStr ''ns'']),
                 (''token_policies'', ASlice [AStr ''ro''])],
     sec_lease_id = ''lease'', sec_lease_duration = 3600, sec_client_token = Some ''orphan'',
     sec_token_ttl = Inr 3600000000000\<rparr>"

definition calm_pod :: pod where
  "calm_pod =
    \<lparr>pod_uid = ''u1'', pod_namespace = ''ns'', pod_name = ''p1'', pod_labels = [],
     pod_annotations = [(''db-creds-injector.numberly.io/role'', ''ro''),
                        (''db-creds-injector.numberly.io/pg.env-key-dbuser'', ''USER''),
                        (''db-creds-injector.numberly.io/pg.env-key-dbpassword'', ''PASS'')],
     pod_service_account = ''app'', pod_node_name = ''node'',
     pod_init_containers = [],
     pod_containers = [\<lparr>c_name = ''c'', c_env = [\<lparr>ev_name = ''A'', ev_value = ''1''\<rparr>]\<rparr>],
     pod_deleting = False\<rparr>"

definition calm_client_go :: client_go where
  "calm_client_go =
    \<lparr>cg_HomeDir = ''/root'', cg_InClusterConfig = Inr ''https://10.0.0.1'',
     cg_BuildConfigFromFlags = (\<lambda>master kubeconfig. Inl (NotExist kubeconfig)), cg_NewForConfig = (\<lambda>c. None)\<rparr>"

definition calm_env :: env where
  "calm_env =
    \<lparr>e_new_client = \<lambda>h a. None, e_k8s_auth = \<lambda>h a b c. None,
     e_login = \<lambda>h a p role jwt. Inr (''tok-'' @ role),
     e_create_orphan = \<lambda>h cl ttl n ps. Inr calm_secret,
     e_read = \<lambda>h cl p. Inr (Some calm_secret), e_list = \<lambda>h cl p. Inr (Some calm_secret),
     e_kv_put = \<lambda>h cl m p d. None, e_kv_delete = \<lambda>h cl m p. None,
     e_kv_delete_metadata = \<lambda>h cl m p. None, e_revoke_orphan = \<lambda>h cl t. None,
     e_revoke_self = \<lambda>h cl. None, e_token_renew = \<lambda>h cl t i. Inr calm_secret,
     e_token_renew_self = \<lambda>h cl i. None, e_lookup_self = \<lambda>h cl. Inr (Some calm_secret),
     e_sys_renew = \<lambda>h cl l i. Inr (Some calm_secret), e_health = \<lambda>h a. Inr (True, False),
     e_client_go = \<lambda>h. calm_client_go, e_list_pods = \<lambda>h l f. Inr [calm_pod],
     e_get_pod = \<lambda>h ns n. Inr calm_pod, e_create_token = \<lambda>h ns sa aud ex. Inr ''jwt'',
     e_read_file = \<lambda>h p. Inr ''sa-jwt'', e_fs = \<lambda>h op. None, e_uuid = \<lambda>h. ''uuid'',
     e_rand = \<lambda>h. Inr (replicate 32 (of_nat (length h))), e_now = \<lambda>h. 1000000000 * int (length h),
     e_limiter = \<lambda>h. None\<rparr>"

end
