(* ===== verification/Config.thy ===== *)
theory Config
  imports Effects Complex_Main
begin

text \<open>
  Package \<^verbatim>\<open>pkg/config\<close>: the configuration record, its defaults, loading, validation, and the
  duration parser of Go's standard library that validation relies on. The YAML decoder and the
  environment-variable decoder are third-party code and enter \<open>NewConfig\<close> as arguments.
\<close>

section \<open>The configuration record\<close>

type_synonym Mode = string

definition ModeInjector :: Mode where "ModeInjector = ''injector''"
definition ModeRenewer :: Mode where "ModeRenewer = ''renewer''"
definition ModeRevoker :: Mode where "ModeRevoker = ''revoker''"
definition ModeNRI :: Mode where "ModeNRI = ''nri''"
definition ModeAll :: Mode where "ModeAll = ''all''"

lemmas mode_defs = ModeInjector_def ModeRenewer_def ModeRevoker_def ModeNRI_def ModeAll_def

record NRIPrewarmerConfig =
  pwc_Enabled :: bool
  pwc_MaxConcurrent :: int

text \<open>A \<^verbatim>\<open>time.Duration\<close> is a signed count of nanoseconds.\<close>

record NRIConfig =
  nri_Enabled :: bool
  nri_SocketPath :: string
  nri_CachePath :: string
  nri_PluginName :: string
  nri_PluginIndex :: string
  nri_PodLabel :: string
  nri_FetchTimeout :: int
  nri_Prewarmer :: NRIPrewarmerConfig

record Config =
  CertFile :: string
  KeyFile :: string
  VaultAddress :: string
  VaultAuthPath :: string
  LogLevel :: string
  KubeRole :: string
  KubeRoleNri :: string
  TokenTTL :: string
  VaultSecretName :: string
  VaultSecretPrefix :: string
  cfg_Mode :: Mode
  Sentry :: bool
  SentryDsn :: string
  SentryEnvironment :: string
  SentrySampleRate :: rat
  SyncTTLSecond :: int
  InjectorLabel :: string
  DefaultEngine :: string
  VaultRateLimit :: int
  UseProjectedSA :: bool
  TokenRequestAudiences :: "string list"
  TokenRequestExpirationSeconds :: int
  NRI :: NRIConfig

definition default_config :: Config where
  "default_config =
    \<lparr>CertFile = '''', KeyFile = '''', VaultAddress = '''', VaultAuthPath = '''',
     LogLevel = ''info'', KubeRole = '''', KubeRoleNri = '''', TokenTTL = ''768h'',
     VaultSecretName = '''', VaultSecretPrefix = '''', cfg_Mode = ModeAll,
     Sentry = False, SentryDsn = '''', SentryEnvironment = ''production'',
     SentrySampleRate = 1, SyncTTLSecond = 300, InjectorLabel = ''vault-db-injector'',
     DefaultEngine = ''databases'', VaultRateLimit = 30, UseProjectedSA = False,
     TokenRequestAudiences = [], TokenRequestExpirationSeconds = 600,
     NRI = \<lparr>nri_Enabled = False, nri_SocketPath = ''/var/run/nri/nri.sock'',
            nri_CachePath = ''/run/vault-db-injector/nri/cache.json'',
            nri_PluginName = ''vault-db-injector'', nri_PluginIndex = ''10'',
            nri_PodLabel = ''vault-db-injector'', nri_FetchTimeout = 1500000000,
            nri_Prewarmer = \<lparr>pwc_Enabled = True, pwc_MaxConcurrent = 50\<rparr>\<rparr>\<rparr>"

section \<open>Durations\<close>

text \<open>
  \<^verbatim>\<open>time.ParseDuration\<close>, following the standard library: an optional sign, then one or more
  numbers with a unit. Sums above \<open>2 ^ 63\<close> nanoseconds are errors. The fraction of a number is
  computed exactly; Go computes it in \<^verbatim>\<open>float64\<close>, which may differ in the last nanosecond.
\<close>

definition is_digit :: "char \<Rightarrow> bool" where
  "is_digit c = (CHR ''0'' \<le> c \<and> c \<le> CHR ''9'')"

definition digit_val :: "char \<Rightarrow> int" where
  "digit_val c = of_char c - 48"

fun leadingInt :: "int \<Rightarrow> string \<Rightarrow> (int \<times> string) option" where
  "leadingInt x [] = Some (x, [])"
| "leadingInt x (c # cs) =
     (if \<not> is_digit c then Some (x, c # cs)
      else if 2 ^ 63 div 10 < x then None
      else if 2 ^ 63 < x * 10 + digit_val c then None
      else leadingInt (x * 10 + digit_val c) cs)"

text \<open>
  \<open>leadingFraction\<close> returns the digits as a number together with its scale; digits after an
  overflow are consumed and ignored.
\<close>

fun leadingFraction :: "int \<Rightarrow> int \<Rightarrow> bool \<Rightarrow> string \<Rightarrow> int \<times> int \<times> string" where
  "leadingFraction x scale overflow [] = (x, scale, [])"
| "leadingFraction x scale overflow (c # cs) =
     (if \<not> is_digit c then (x, scale, c # cs)
      else if overflow then leadingFraction x scale True cs
      else if (2 ^ 63 - 1) div 10 < x then leadingFraction x scale True cs
      else if 2 ^ 63 < x * 10 + digit_val c then leadingFraction x scale True cs
      else leadingFraction (x * 10 + digit_val c) (scale * 10) False cs)"

text \<open>Both spellings of micro are two bytes in UTF-8: \<^verbatim>\<open>C2 B5\<close> and \<^verbatim>\<open>CE BC\<close> before the \<^verbatim>\<open>s\<close>.\<close>

definition unitMap :: "(string \<times> int) list" where
  "unitMap = [(''ns'', 1), (''us'', 1000), ([CHR 0xC2, CHR 0xB5, CHR ''s''], 1000),
     ([CHR 0xCE, CHR 0xBC, CHR ''s''], 1000), (''ms'', 1000000), (''s'', 1000000000),
     (''m'', 60000000000), (''h'', 3600000000000)]"

text \<open>One number with its unit; the rest of the string is strictly shorter.\<close>

definition parse_component :: "string \<Rightarrow> (int \<times> string) option" where
  "parse_component s =
     (if s = [] \<or> \<not> (hd s = CHR ''.'' \<or> is_digit (hd s)) then None
      else (case leadingInt 0 s of
              None \<Rightarrow> None
            | Some (v, s1) \<Rightarrow>
                let pre = (length s1 \<noteq> length s);
                    dot = (s1 \<noteq> [] \<and> hd s1 = CHR ''.'');
                    (f, scale, s2) = (if dot then leadingFraction 0 1 False (tl s1) else (0, 1, s1));
                    post = (dot \<and> length s2 \<noteq> length (tl s1));
                    u = takeWhile (\<lambda>c. \<not> (c = CHR ''.'' \<or> is_digit c)) s2;
                    s3 = dropWhile (\<lambda>c. \<not> (c = CHR ''.'' \<or> is_digit c)) s2
                in if \<not> pre \<and> \<not> post then None
                   else if u = [] then None
                   else (case map_of unitMap u of
                           None \<Rightarrow> None
                         | Some unit \<Rightarrow>
                             if 2 ^ 63 div unit < v then None
                             else let w = v * unit + (if 0 < f then f * unit div scale else 0)
                                  in if 2 ^ 63 < w then None else Some (w, s3))))"

lemma leadingInt_length: "leadingInt x s = Some (v, t) \<Longrightarrow> length t \<le> length s"
  by (induction x s rule: leadingInt.induct) (auto split: if_splits)

lemma leadingFraction_length: "leadingFraction x sc ov s = (v, sc', t) \<Longrightarrow> length t \<le> length s"
  by (induction x sc ov s rule: leadingFraction.induct) (auto split: if_splits)

lemma parse_component_length: "parse_component s = Some (v, t) \<Longrightarrow> length t < length s"
proof -
  assume *: "parse_component s = Some (v, t)"
  then obtain x s1 where 1: "leadingInt 0 s = Some (x, s1)"
    by (auto simp: parse_component_def split: if_splits option.splits)
  let ?dot = "s1 \<noteq> [] \<and> hd s1 = CHR ''.''"
  obtain f sc s2 where 2: "(if ?dot then leadingFraction 0 1 False (tl s1) else (0, 1, s1)) = (f, sc, s2)"
    by (metis prod_cases3)
  have "length s2 \<le> length s"
    using 2 leadingInt_length [OF 1] leadingFraction_length [of 0 1 False "tl s1" f sc s2]
    by (auto split: if_splits)
  moreover have "t = dropWhile (\<lambda>c. \<not> (c = CHR ''.'' \<or> is_digit c)) s2"
    and "takeWhile (\<lambda>c. \<not> (c = CHR ''.'' \<or> is_digit c)) s2 \<noteq> []"
    using * 1 2
    by (auto simp: parse_component_def Let_def split: if_splits option.splits prod.splits)
  ultimately show ?thesis
    by (metis (no_types, lifting) append_is_Nil_conv le_neq_implies_less length_append
        length_greater_0_conv less_add_same_cancel2 order_less_le_trans takeWhile_dropWhile_id)
qed

function parse_components :: "int \<Rightarrow> string \<Rightarrow> int option" where
  "parse_components d s =
     (if s = [] then Some d
      else (case parse_component s of
              None \<Rightarrow> None
            | Some (v, t) \<Rightarrow> if 2 ^ 63 < d + v then None else parse_components (d + v) t))"
  by pat_completeness auto
termination
  by (relation "measure (\<lambda>(d, s). length s)") (auto dest: parse_component_length)

declare parse_components.simps [simp del]

definition ParseDuration :: "string \<Rightarrow> int res" where
  "ParseDuration orig =
     (let signed = (orig \<noteq> [] \<and> (hd orig = CHR ''-'' \<or> hd orig = CHR ''+''));
          neg = (orig \<noteq> [] \<and> hd orig = CHR ''-'');
          s = (if signed then tl orig else orig);
          invalid = Err (Newf ''time: invalid duration %s'' [orig])
      in if s = ''0'' then Ok 0
         else if s = [] then invalid
         else (case parse_components 0 s of
                 None \<Rightarrow> invalid
               | Some d \<Rightarrow> if neg then Ok (- d)
                            else if 2 ^ 63 - 1 < d then invalid
                            else Ok d))"

definition validDuration :: "string \<Rightarrow> bool" where
  "validDuration s = (case ParseDuration s of Ok d \<Rightarrow> True | _ \<Rightarrow> False)"

text \<open>
  \<^verbatim>\<open>int(d.Seconds())\<close> truncates towards zero. (\<^verbatim>\<open>Seconds\<close> is a \<^verbatim>\<open>float64\<close>: exact for durations of
  whole milliseconds below a million hours, which is what configurations hold.)
\<close>

definition TokenTTLSeconds :: "Config \<Rightarrow> int res" where
  "TokenTTLSeconds cfg =
     (case ParseDuration (TokenTTL cfg) of
        Ok d \<Rightarrow> Ok (sgn d * (\<bar>d\<bar> div 1000000000))
      | Err e \<Rightarrow> Err (Wrap e (Sprintf ''invalid tokenTTL %q'' [TokenTTL cfg]))
      | Panic \<Rightarrow> Panic)"

section \<open>Validation and loading\<close>

definition validate_checks :: "Config \<Rightarrow> (bool \<times> string) list" where
  "validate_checks cfg =
    [(cfg_Mode cfg \<noteq> ModeAll \<and> cfg_Mode cfg \<noteq> ModeInjector \<and> cfg_Mode cfg \<noteq> ModeRenewer \<and>
      cfg_Mode cfg \<noteq> ModeRevoker \<and> cfg_Mode cfg \<noteq> ModeNRI,
      ''Wrong Mode : should be injector/renewer/revoker/nri/all''),
     ((cfg_Mode cfg = ModeAll \<or> cfg_Mode cfg = ModeInjector) \<and> CertFile cfg = '''',
      ''no certFile specified''),
     ((cfg_Mode cfg = ModeAll \<or> cfg_Mode cfg = ModeInjector) \<and> KeyFile cfg = '''',
      ''no keyFile specified''),
     (VaultAddress cfg = '''', ''no vaultAddress specified''),
     (VaultAuthPath cfg = '''', ''no vaultAuthPath specified''),
     (KubeRole cfg = '''', ''no kubeRole specified''),
     (VaultSecretName cfg = '''', ''no vaultSecretName specified''),
     (VaultSecretPrefix cfg = '''', ''no vaultSecretPrefix specified''),
     (Sentry cfg \<and> SentryDsn cfg = '''', ''no sentryDsn specified''),
     (UseProjectedSA cfg \<and> length (TokenRequestAudiences cfg) = 0,
      ''tokenRequestAudiences must be set when useProjectedSA is true''),
     (UseProjectedSA cfg \<and> TokenRequestExpirationSeconds cfg \<le> 0,
      ''tokenRequestExpirationSeconds must be > 0 when useProjectedSA is enabled''),
     (TokenTTL cfg \<noteq> '''' \<and> \<not> validDuration (TokenTTL cfg),
      ''tokenTTL must be a valid Go duration'')]"

fun first_bad :: "(bool \<times> string) list \<Rightarrow> goerr option" where
  "first_bad [] = None"
| "first_bad ((bad, msg) # cs) =
     (if bad then Some (Newf ''invalid config: %s'' [msg]) else first_bad cs)"

definition Validate :: "Config \<Rightarrow> goerr option" where
  "Validate cfg = first_bad (validate_checks cfg)"

definition os_ReadFile :: "env \<Rightarrow> string \<Rightarrow> string res io" where
  "os_ReadFile E path = do {
     r \<leftarrow> perform (\<lambda>h. e_read_file E h path) (ReadFile path);
     ret (of_sum r) }"

definition NewConfig ::
  "env \<Rightarrow> (string \<Rightarrow> Config \<Rightarrow> goerr + Config) \<Rightarrow> (Config \<Rightarrow> goerr + Config) \<Rightarrow> string
   \<Rightarrow> Config res io" where
  "NewConfig E yaml_Unmarshal envconfig_Process configFile =
     check (if configFile \<noteq> ''''
            then check (os_ReadFile E configFile)
                   (\<lambda>data. ret (of_sum (yaml_Unmarshal data default_config)))
            else ret (Ok default_config))
       (\<lambda>cfg. check (ret (wrap_err ''error processing environment variables for prefix INJECTOR_''
                            (of_sum (envconfig_Process cfg))))
         (\<lambda>cfg. case Validate cfg of
                  Some e \<Rightarrow> ret (Err e)
                | None \<Rightarrow> ret (Ok cfg)))"

datatype log_level = DebugLevel | InfoLevel | WarnLevel | ErrorLevel | FatalLevel | PanicLevel | TraceLevel

text \<open>Both results of \<^verbatim>\<open>GetLogLevel\<close>: the level is set on the error path too.\<close>

definition GetLogLevel :: "string \<Rightarrow> log_level \<times> goerr option" where
  "GetLogLevel level =
     (case map_of [(''debug'', DebugLevel), (''info'', InfoLevel), (''warn'', WarnLevel)] level of
        None \<Rightarrow> (InfoLevel, Some (Newf ''unsupported log level: %s'' [level]))
      | Some l \<Rightarrow> (l, None))"

definition GetHAEnvs :: "(string \<Rightarrow> string) \<Rightarrow> (string \<times> string) res" where
  "GetHAEnvs getenv =
     (let podName = getenv ''POD_NAME''; podNamespace = getenv ''POD_NAMESPACE''
      in if podName = '''' \<or> podNamespace = ''''
         then Err (Newf ''environment variables POD_NAME or POD_NAMESPACE are not set'' [])
         else Ok (podName, podNamespace))"

section \<open>Lemmas\<close>

lemma first_bad_None_iff: "first_bad cs = None \<longleftrightarrow> (\<forall>(bad, msg) \<in> set cs. \<not> bad)"
  by (induction cs rule: first_bad.induct) auto

lemma Validate_None_iff: "Validate cfg = None \<longleftrightarrow> (\<forall>(bad, msg) \<in> set (validate_checks cfg). \<not> bad)"
  by (simp add: Validate_def first_bad_None_iff)

lemma digit_val_nonneg: "is_digit c \<Longrightarrow> 0 \<le> digit_val c"
  by (cases c) (auto simp: is_digit_def digit_val_def)

lemma leadingInt_nonneg: "leadingInt x s = Some (v, t) \<Longrightarrow> 0 \<le> x \<Longrightarrow> 0 \<le> v"
  by (induction x s rule: leadingInt.induct) (auto split: if_splits dest: digit_val_nonneg)

lemma leadingFraction_nonneg:
  "leadingFraction x sc ov s = (v, sc', t) \<Longrightarrow> 0 \<le> x \<Longrightarrow> 0 \<le> v"
  by (induction x sc ov s rule: leadingFraction.induct) (auto split: if_splits dest: digit_val_nonneg)

lemma leadingFraction_scale:
  "leadingFraction x sc ov s = (v, sc', t) \<Longrightarrow> 0 < sc \<Longrightarrow> 0 < sc'"
  by (induction x sc ov s rule: leadingFraction.induct) (auto split: if_splits)

lemma unitMap_pos: "map_of unitMap u = Some n \<Longrightarrow> 0 < n"
  by (auto simp: unitMap_def split: if_splits)

lemma parse_component_nonneg:
  assumes "parse_component s = Some (w, t)"
  shows "0 \<le> w"
proof -
  from assms obtain x s1 where 1: "leadingInt 0 s = Some (x, s1)"
    by (auto simp: parse_component_def split: if_splits option.splits)
  let ?dot = "s1 \<noteq> [] \<and> hd s1 = CHR ''.''"
  obtain f sc s2 where 2: "(if ?dot then leadingFraction 0 1 False (tl s1) else (0, 1, s1)) = (f, sc, s2)"
    by (metis prod_cases3)
  have "0 \<le> x" "0 \<le> f" "0 < sc"
    using leadingInt_nonneg [OF 1] 2 leadingFraction_nonneg [of 0 1 False "tl s1" f sc s2]
      leadingFraction_scale [of 0 1 False "tl s1" f sc s2]
    by (auto split: if_splits)
  then show ?thesis
    using assms 1 2
    by (auto simp: parse_component_def Let_def pos_imp_zdiv_nonneg_iff
        split: if_splits option.splits prod.splits dest!: unitMap_pos)
qed

lemma parse_components_bound: "parse_components d s = Some r \<Longrightarrow> d \<le> 2 ^ 63 \<Longrightarrow> d \<le> r \<and> r \<le> 2 ^ 63"
proof (induction d s rule: parse_components.induct)
  case (1 d s)
  show ?case
  proof (cases "s = []")
    case True
    with "1.prems" show ?thesis
      by (subst (asm) (1) parse_components.simps) simp
  next
    case False
    with "1.prems" obtain v t where 2: "parse_component s = Some (v, t)" "\<not> 2 ^ 63 < d + v"
      "parse_components (d + v) t = Some r"
      by (subst (asm) (1) parse_components.simps) (auto split: if_splits option.splits prod.splits)
    with "1.IH" [OF False 2(1) refl 2(2)] parse_component_nonneg [OF 2(1)] show ?thesis
      by simp
  qed
qed

lemma ParseDuration_no_panic: "ParseDuration s \<noteq> Panic"
  by (auto simp: ParseDuration_def Let_def split: option.splits)

lemma ParseDuration_bounds:
  assumes "ParseDuration s = Ok d"
  shows "- (2 ^ 63) \<le> d \<and> d < 2 ^ 63"
  using assms parse_components_bound [of 0]
  by (fastforce simp: ParseDuration_def Let_def split: if_splits option.splits)

lemma ParseDuration_Nil: "ParseDuration [] = Err (Newf ''time: invalid duration %s'' [''''])"
  by (simp add: ParseDuration_def)

end
