(* ===== verification/Annotations.thy ===== *)
theory Annotations
  imports Config
begin

text \<open>
  File \<^verbatim>\<open>pkg/k8s/parse_annotations.go\<close>: from the annotations of a pod to its database
  configurations. The webhook and the NRI plugin run this parser in different processes on the
  same pod and pair its result with a list of UUIDs by position, so the result must not depend
  on the order in which Go visits the annotation map. The parser is compared with a declarative
  reading, \<open>spec_configs\<close>, in which no order occurs.
\<close>

section \<open>The parser\<close>

definition ANNOTATION_VAULT_DB_PATH :: string where
  "ANNOTATION_VAULT_DB_PATH = ''db-creds-injector.numberly.io/cluster''"

definition ANNOTATION_ROLE :: string where
  "ANNOTATION_ROLE = ''db-creds-injector.numberly.io/role''"

definition ANNOTATION_VAULT_POD_UUID :: string where
  "ANNOTATION_VAULT_POD_UUID = ''db-creds-injector.numberly.io/uuid''"

definition DbModeClassic :: string where "DbModeClassic = ''classic''"
definition DbModeURI :: string where "DbModeURI = ''uri''"

definition annotation_prefix :: string where
  "annotation_prefix = ''db-creds-injector.numberly.io/''"

definition revoke_ttl_prefix :: string where
  "revoke_ttl_prefix = ''db-creds-injector.numberly.io/revoke-ttl''"

record DbConfiguration =
  DbURIEnvKey :: string
  DbUserEnvKey :: string
  DbPasswordEnvKey :: string
  DbName :: string
  db_Mode :: string
  Template :: string
  Role :: string

record PodDbConfig =
  VaultDbPath :: string
  DbConfigurations :: "DbConfiguration list"

definition new_db_configuration :: "string \<Rightarrow> string \<Rightarrow> DbConfiguration" where
  "new_db_configuration dbName role =
    \<lparr>DbURIEnvKey = '''', DbUserEnvKey = '''', DbPasswordEnvKey = '''', DbName = dbName,
     db_Mode = '''', Template = '''', Role = role\<rparr>"

text \<open>The switch over the configuration type; an unknown type only logs.\<close>

definition assign_config :: "string \<Rightarrow> string \<Rightarrow> DbConfiguration \<Rightarrow> DbConfiguration" where
  "assign_config configType value dbc =
     (if configType = ''env-key-uri'' then dbc\<lparr>DbURIEnvKey := value\<rparr>
      else if configType = ''template'' then dbc\<lparr>Template := value\<rparr>
      else if configType = ''mode'' then dbc\<lparr>db_Mode := ToLower value\<rparr>
      else if configType = ''env-key-dbuser'' then dbc\<lparr>DbUserEnvKey := value\<rparr>
      else if configType = ''env-key-dbpassword'' then dbc\<lparr>DbPasswordEnvKey := value\<rparr>
      else if configType = ''role'' then dbc\<lparr>Role := value\<rparr>
      else dbc)"

text \<open>Find the configuration of \<open>dbName\<close> or append a new one, then assign the value.\<close>

fun upsert_config :: "string \<Rightarrow> string \<Rightarrow> string \<Rightarrow> string \<Rightarrow> DbConfiguration list \<Rightarrow> DbConfiguration list" where
  "upsert_config role dbName configType value [] =
     [assign_config configType value (new_db_configuration dbName role)]"
| "upsert_config role dbName configType value (c # cs) =
     (if DbName c = dbName then assign_config configType value c # cs
      else c # upsert_config role dbName configType value cs)"

text \<open>The database name and configuration type of an annotation key, if it has both.\<close>

definition config_key :: "string \<Rightarrow> (string \<times> string) option" where
  "config_key key =
     (if \<not> HasPrefix key annotation_prefix then None
      else case SplitN2 key CHR ''/'' of
             [a, rest] \<Rightarrow> (case SplitN2 rest CHR ''.'' of [name, ty] \<Rightarrow> Some (name, ty) | _ \<Rightarrow> None)
           | _ \<Rightarrow> None)"

text \<open>The loop over the annotations, in the order \<open>range\<close> visits them.\<close>

fun scan_annotations ::
  "string \<Rightarrow> (string \<times> string) list \<Rightarrow> DbConfiguration list \<Rightarrow> DbConfiguration list res" where
  "scan_annotations role [] dbConfigurations = Ok dbConfigurations"
| "scan_annotations role ((key, value) # rest) dbConfigurations =
     (if HasPrefix key revoke_ttl_prefix then Err V1AnnotationDetected
      else (case config_key key of
              None \<Rightarrow> scan_annotations role rest dbConfigurations
            | Some (dbName, configType) \<Rightarrow>
                scan_annotations role rest
                  (upsert_config role dbName configType value dbConfigurations)))"

definition GetPodDbConfig :: "Config \<Rightarrow> (string \<times> string) list \<Rightarrow> PodDbConfig res" where
  "GetPodDbConfig cfg annotations =
     (let path = lookup_str annotations ANNOTATION_VAULT_DB_PATH;
          vaultDbPath = (if path = '''' then DefaultEngine cfg else path)
      in case scan_annotations (lookup_str annotations ANNOTATION_ROLE) annotations [] of
           Ok dbConfigurations \<Rightarrow>
             Ok \<lparr>VaultDbPath = vaultDbPath,
                 DbConfigurations = sort_key DbName dbConfigurations\<rparr>
         | Err e \<Rightarrow> Err e
         | Panic \<Rightarrow> Panic)"

section \<open>The declarative reading\<close>

text \<open>
  A pod configures the databases whose names occur in a \<open>name.type\<close> key; every field is one
  annotation, looked up by its full key.
\<close>

definition field_key :: "string \<Rightarrow> string \<Rightarrow> string" where
  "field_key dbName ty = annotation_prefix @ dbName @ ''.'' @ ty"

definition spec_config :: "(string \<times> string) list \<Rightarrow> string \<Rightarrow> DbConfiguration" where
  "spec_config an dbName =
    \<lparr>DbURIEnvKey = lookup_str an (field_key dbName ''env-key-uri''),
     DbUserEnvKey = lookup_str an (field_key dbName ''env-key-dbuser''),
     DbPasswordEnvKey = lookup_str an (field_key dbName ''env-key-dbpassword''),
     DbName = dbName,
     db_Mode = ToLower (lookup_str an (field_key dbName ''mode'')),
     Template = lookup_str an (field_key dbName ''template''),
     Role = (case map_of an (field_key dbName ''role'') of
               Some r \<Rightarrow> r | None \<Rightarrow> lookup_str an ANNOTATION_ROLE)\<rparr>"

definition db_names :: "(string \<times> string) list \<Rightarrow> string set" where
  "db_names an = {name. \<exists>key ty. key \<in> fst ` set an \<and> config_key key = Some (name, ty)}"

definition v1_annotated :: "(string \<times> string) list \<Rightarrow> bool" where
  "v1_annotated an \<longleftrightarrow> (\<exists>key \<in> fst ` set an. HasPrefix key revoke_ttl_prefix)"

lemma v1_annotated_Cons [simp]:
  "v1_annotated ((k, v) # an) \<longleftrightarrow> HasPrefix k revoke_ttl_prefix \<or> v1_annotated an"
  by (auto simp: v1_annotated_def)

lemma v1_annotated_Nil [simp]: "\<not> v1_annotated []"
  by (simp add: v1_annotated_def)

definition spec_configs :: "(string \<times> string) list \<Rightarrow> DbConfiguration list" where
  "spec_configs an = map (spec_config an) (sorted_list_of_set (db_names an))"

section \<open>The parser computes the declarative reading\<close>

lemma config_key_append_prefix:
  "config_key (annotation_prefix @ rest) =
     (case SplitN2 rest CHR ''.'' of [name, ty] \<Rightarrow> Some (name, ty) | _ \<Rightarrow> None)"
proof -
  define host where "host = ''db-creds-injector.numberly.io''"
  have pre: "annotation_prefix = host @ [CHR ''/'']"
    by (simp add: annotation_prefix_def host_def)
  have no: "CHR ''/'' \<notin> set host"
    by (simp add: host_def)
  have "SplitN2 (annotation_prefix @ rest) CHR ''/'' = [host, rest]"
    using SplitN2_append [OF no, of rest] by (simp add: pre)
  then show ?thesis
    by (simp add: config_key_def HasPrefix_def)
qed

lemma config_key_Some_iff:
  "config_key key = Some (name, ty) \<longleftrightarrow> key = field_key name ty \<and> CHR ''.'' \<notin> set name"
proof
  assume *: "config_key key = Some (name, ty)"
  then obtain rest where key: "key = annotation_prefix @ rest"
    by (metis HasPrefix_def config_key_def option.distinct(1) prefix_def)
  with * have "SplitN2 rest CHR ''.'' = [name, ty]"
    by (auto simp: config_key_append_prefix split: list.splits)
  then show "key = field_key name ty \<and> CHR ''.'' \<notin> set name"
    by (simp add: key field_key_def SplitN2_pair_iff)
next
  assume "key = field_key name ty \<and> CHR ''.'' \<notin> set name"
  then show "config_key key = Some (name, ty)"
    by (simp add: field_key_def config_key_append_prefix SplitN2_append)
qed

lemma config_key_field_key: "CHR ''.'' \<notin> set name \<Longrightarrow> config_key (field_key name ty) = Some (name, ty)"
  by (simp add: config_key_Some_iff)

lemma field_key_inj:
  assumes "CHR ''.'' \<notin> set a" "CHR ''.'' \<notin> set b" "field_key a s = field_key b t"
  shows "a = b \<and> s = t"
  using assms config_key_field_key by (metis option.inject prod.inject)

lemma DbName_assign_config [simp]: "DbName (assign_config ty v c) = DbName c"
  by (simp add: assign_config_def)

lemma DbName_new [simp]: "DbName (new_db_configuration name role) = name"
  by (simp add: new_db_configuration_def)

lemma names_upsert_config:
  "DbName ` set (upsert_config role name ty v cs) = insert name (DbName ` set cs)"
  by (induction cs) auto

lemma distinct_upsert_config:
  "distinct (map DbName cs) \<Longrightarrow> distinct (map DbName (upsert_config role name ty v cs))"
proof (induction cs)
  case (Cons c cs)
  then show ?case
    using names_upsert_config [of role name ty v cs] by (auto simp: image_iff)
qed simp

lemma upsert_config_member:
  assumes "distinct (map DbName cs)" "c \<in> set (upsert_config role name ty v cs)"
  shows "(DbName c \<noteq> name \<and> c \<in> set cs) \<or>
         (\<exists>b. c = assign_config ty v b \<and> DbName b = name \<and>
              (b \<in> set cs \<or> (b = new_db_configuration name role \<and> name \<notin> DbName ` set cs)))"
  using assms
proof (induction cs)
  case (Cons d cs)
  then show ?case
    by (cases "DbName d = name") (auto simp: image_iff)
qed simp

text \<open>
  The invariant of the loop: after the annotations \<open>done\<close>, the list holds exactly the database
  names of \<open>done\<close>, each once, with the fields that \<open>done\<close> determines. The default role comes from
  the whole map, so it is a separate argument.
\<close>

definition partial_config :: "string \<Rightarrow> (string \<times> string) list \<Rightarrow> string \<Rightarrow> DbConfiguration" where
  "partial_config role an dbName =
     (spec_config an dbName)\<lparr>Role := (case map_of an (field_key dbName ''role'') of
                                         Some r \<Rightarrow> r | None \<Rightarrow> role)\<rparr>"

definition scan_inv :: "string \<Rightarrow> (string \<times> string) list \<Rightarrow> DbConfiguration list \<Rightarrow> bool" where
  "scan_inv role an cs \<longleftrightarrow> distinct (map DbName cs) \<and> DbName ` set cs = db_names an \<and>
     (\<forall>c \<in> set cs. c = partial_config role an (DbName c))"

lemma scan_inv_Nil: "scan_inv role [] []"
  by (simp add: scan_inv_def db_names_def)

lemma lookup_str_snoc:
  "k \<notin> fst ` set an \<Longrightarrow> lookup_str (an @ [(k, v)]) k' = (if k' = k then v else lookup_str an k')"
  by (auto simp: lookup_str_def map_add_def split: option.splits)
    (metis domI dom_map_of_conv_image_fst)

lemma map_of_snoc:
  "k \<notin> fst ` set an \<Longrightarrow> map_of (an @ [(k, v)]) k' = (if k' = k then Some v else map_of an k')"
  by (auto simp: map_add_def split: option.splits) (metis domI dom_map_of_conv_image_fst)+

lemma db_names_no_dot: "name \<in> db_names an \<Longrightarrow> CHR ''.'' \<notin> set name"
  by (auto simp: db_names_def config_key_Some_iff)

lemma partial_config_other_key:
  assumes "k \<notin> fst ` set an" "\<And>ty. config_key k \<noteq> Some (name, ty)" "CHR ''.'' \<notin> set name"
  shows "partial_config role (an @ [(k, v)]) name = partial_config role an name"
proof -
  from assms(2,3) have "field_key name ty \<noteq> k" for ty
    using config_key_field_key by blast
  then show ?thesis
    using assms(1)
    by (simp add: partial_config_def spec_config_def lookup_str_snoc map_of_snoc del: map_of_append)
qed

lemma partial_config_same_name:
  assumes "k \<notin> fst ` set an" "config_key k = Some (name, ty)"
  shows "partial_config role (an @ [(k, v)]) name = assign_config ty v (partial_config role an name)"
proof -
  from assms(2) have k: "k = field_key name ty" "CHR ''.'' \<notin> set name"
    by (simp_all add: config_key_Some_iff)
  then have eq: "field_key name t = k \<longleftrightarrow> t = ty" for t
    using field_key_inj by blast
  show ?thesis
    using assms(1)
    by (simp add: partial_config_def spec_config_def lookup_str_snoc map_of_snoc eq
        assign_config_def del: map_of_append)
qed

lemma partial_config_fresh:
  assumes "name \<notin> db_names an" "CHR ''.'' \<notin> set name"
  shows "partial_config role an name = new_db_configuration name role"
proof -
  have "map_of an (field_key name ty) = None" for ty
  proof (rule ccontr)
    assume "map_of an (field_key name ty) \<noteq> None"
    then have "field_key name ty \<in> fst ` set an"
      by (metis domIff dom_map_of_conv_image_fst)
    with config_key_field_key [OF assms(2)] assms(1) show False
      unfolding db_names_def by blast
  qed
  then show ?thesis
    by (simp add: partial_config_def spec_config_def new_db_configuration_def lookup_str_def)
qed

lemma db_names_snoc_Some:
  "config_key k = Some (name, ty) \<Longrightarrow> db_names (an @ [(k, v)]) = insert name (db_names an)"
  by (auto simp: db_names_def)

lemma db_names_snoc_None: "config_key k = None \<Longrightarrow> db_names (an @ [(k, v)]) = db_names an"
  by (auto simp: db_names_def)

lemma scan_inv_skip:
  assumes "scan_inv role an cs" "k \<notin> fst ` set an" "config_key k = None"
  shows "scan_inv role (an @ [(k, v)]) cs"
  using assms db_names_no_dot
  by (fastforce simp: scan_inv_def db_names_snoc_None partial_config_other_key)

lemma scan_inv_upsert:
  assumes inv: "scan_inv role an cs" and k: "k \<notin> fst ` set an" "config_key k = Some (name, ty)"
  shows "scan_inv role (an @ [(k, v)]) (upsert_config role name ty v cs)"
proof -
  let ?cs = "upsert_config role name ty v cs" and ?an = "an @ [(k, v)]"
  from inv have d: "distinct (map DbName cs)" and names: "DbName ` set cs = db_names an"
    and cs: "\<And>c. c \<in> set cs \<Longrightarrow> c = partial_config role an (DbName c)"
    by (auto simp: scan_inv_def)
  have nodot: "CHR ''.'' \<notin> set name"
    using k(2) by (simp add: config_key_Some_iff)
  have "c = partial_config role ?an (DbName c)" if "c \<in> set ?cs" for c
  proof (cases "DbName c = name")
    case True
    with upsert_config_member [OF d that] obtain b where c: "c = assign_config ty v b"
      and "DbName b = name"
      and "b \<in> set cs \<or> (b = new_db_configuration name role \<and> name \<notin> DbName ` set cs)"
      by blast
    then have "b = partial_config role an name"
      using cs [of b] partial_config_fresh [OF _ nodot] names by auto
    with c True show ?thesis
      by (simp add: partial_config_same_name [OF k])
  next
    case False
    with upsert_config_member [OF d that] have c: "c \<in> set cs"
      by auto
    then have "CHR ''.'' \<notin> set (DbName c)"
      using names db_names_no_dot by blast
    with False k have "partial_config role ?an (DbName c) = partial_config role an (DbName c)"
      by (intro partial_config_other_key) auto
    with cs [OF c] show ?thesis
      by simp
  qed
  then show ?thesis
    using d names
    by (simp add: scan_inv_def distinct_upsert_config names_upsert_config db_names_snoc_Some [OF k(2)])
qed

lemma scan_annotations_inv:
  assumes "scan_inv role an cs" "distinct (map fst (an @ rest))" "\<not> v1_annotated rest"
  shows "\<exists>cs'. scan_annotations role rest cs = Ok cs' \<and> scan_inv role (an @ rest) cs'"
  using assms
proof (induction role rest cs arbitrary: an rule: scan_annotations.induct)
  case (2 role key v rest cs)
  have fresh: "key \<notin> fst ` set an"
    using "2.prems"(2) by auto
  have nov1: "\<not> HasPrefix key revoke_ttl_prefix" "\<not> v1_annotated rest"
    using "2.prems"(3) by auto
  show ?case
  proof (cases "config_key key")
    case None
    then show ?thesis
      using "2.IH"(1) [OF nov1(1) None scan_inv_skip [OF "2.prems"(1) fresh None]] "2.prems"(2) nov1
      by simp
  next
    case (Some nt)
    then obtain name ty where nt: "config_key key = Some (name, ty)"
      by (cases nt) auto
    then show ?thesis
      using "2.IH"(2) [OF nov1(1) nt refl scan_inv_upsert [OF "2.prems"(1) fresh nt]] "2.prems"(2) nov1
      by simp
  qed
qed simp

lemma scan_annotations_v1:
  "v1_annotated rest \<Longrightarrow> scan_annotations role rest cs = Err V1AnnotationDetected"
  by (induction role rest cs rule: scan_annotations.induct)
    (auto split: option.splits)

lemma partial_config_default_role:
  "partial_config (lookup_str an ANNOTATION_ROLE) an name = spec_config an name"
  by (simp add: partial_config_def spec_config_def)

lemma GetPodDbConfig_v1: "v1_annotated an \<Longrightarrow> GetPodDbConfig cfg an = Err V1AnnotationDetected"
  by (simp add: GetPodDbConfig_def scan_annotations_v1)

lemma GetPodDbConfig_spec:
  assumes "distinct (map fst an)" "\<not> v1_annotated an"
  shows "GetPodDbConfig cfg an =
    Ok \<lparr>VaultDbPath = (if lookup_str an ANNOTATION_VAULT_DB_PATH = '''' then DefaultEngine cfg
                        else lookup_str an ANNOTATION_VAULT_DB_PATH),
        DbConfigurations = spec_configs an\<rparr>"
proof -
  let ?role = "lookup_str an ANNOTATION_ROLE"
  obtain cs where cs: "scan_annotations ?role an [] = Ok cs" and inv: "scan_inv ?role an cs"
    using scan_annotations_inv [OF scan_inv_Nil, of an ?role] assms by auto
  have "sort_key DbName cs = map (spec_config an) (sorted_list_of_set (DbName ` set cs))"
  proof (rule sort_key_map_sorted_list_of_set)
    show "spec_config an (DbName c) = c" if "c \<in> set cs" for c
      using inv that by (metis partial_config_default_role scan_inv_def)
  qed (use inv in \<open>simp add: scan_inv_def\<close>)
  with cs inv show ?thesis
    by (simp add: GetPodDbConfig_def Let_def scan_inv_def spec_configs_def)
qed

lemma finite_db_names [simp]: "finite (db_names an)"
proof -
  have "db_names an \<subseteq> (\<lambda>k. fst (the (config_key k))) ` fst ` set an"
    by (force simp: db_names_def)
  then show ?thesis
    by (rule finite_subset) simp
qed

lemma db_names_mset_eq: "mset xs = mset ys \<Longrightarrow> db_names xs = db_names ys"
  by (simp add: db_names_def) (metis mset_eq_setD)

lemma v1_annotated_mset_eq: "mset xs = mset ys \<Longrightarrow> v1_annotated xs = v1_annotated ys"
  by (simp add: v1_annotated_def) (metis mset_eq_setD)

lemma DbName_spec_config [simp]: "DbName (spec_config an name) = name"
  by (simp add: spec_config_def)

lemma map_DbName_spec_configs: "map DbName (spec_configs an) = sorted_list_of_set (db_names an)"
  by (simp add: spec_configs_def comp_def)

lemma GetPodDbConfig_no_panic: "GetPodDbConfig cfg an \<noteq> Panic"
proof -
  have "scan_annotations role xs cs \<noteq> Panic" for role xs cs
    by (induction role xs cs rule: scan_annotations.induct) (auto split: option.splits)
  then show ?thesis
    by (auto simp: GetPodDbConfig_def Let_def split: res.splits)
qed

section \<open>Parsing\<close>

lemma spec_configs_mset_eq:
  assumes "map_of xs = map_of ys" "mset xs = mset ys"
  shows "spec_configs xs = spec_configs ys"
proof -
  have "spec_config xs = spec_config ys"
    by (rule ext) (simp add: spec_config_def lookup_str_def assms(1) split: option.split)
  then show ?thesis
    by (simp add: spec_configs_def db_names_mset_eq [OF assms(2)])
qed

text \<open>
  C8. The parser is the declarative reading: whatever the order in which Go ranges over the
  annotations, the result is an error exactly when a key of the first version occurs, and otherwise
  the configurations of the databases that are named, sorted by name, every field looked up under
  its own key. The webhook and the agent, which parse the same pod independently and pair the
  configurations with UUIDs by position, therefore agree.
\<close>

theorem GetPodDbConfig_declarative:
  assumes "distinct (map fst an)" "mset an' = mset an"
  shows "GetPodDbConfig cfg an' =
    (if v1_annotated an then Err V1AnnotationDetected
     else Ok \<lparr>VaultDbPath = (if lookup_str an ANNOTATION_VAULT_DB_PATH = '''' then DefaultEngine cfg
                            else lookup_str an ANNOTATION_VAULT_DB_PATH),
              DbConfigurations = spec_configs an\<rparr>)"
proof -
  have "mset (map fst an') = mset (map fst an)"
    using assms(2) by simp
  then have d: "distinct (map fst an')"
    using assms(1) mset_eq_imp_distinct_iff by blast
  have m: "map_of an' = map_of an"
    by (rule map_of_mset_eq [OF d assms(2)])
  have "v1_annotated an' = v1_annotated an"
    by (rule v1_annotated_mset_eq [OF assms(2)])
  then show ?thesis
    using GetPodDbConfig_spec [OF d, of cfg] spec_configs_mset_eq [OF m assms(2)] m
    by (simp add: GetPodDbConfig_v1 lookup_str_def)
qed

definition demo_annotations :: "(string \<times> string) list" where
  "demo_annotations =
    [(''db-creds-injector.numberly.io/role'', ''ro''),
     (''db-creds-injector.numberly.io/pg.env-key-dbuser'', ''USER''),
     (''db-creds-injector.numberly.io/app.role'', ''rw'')]"

lemma GetPodDbConfig_declarative_witness:
  "GetPodDbConfig default_config (rev demo_annotations) =
     Ok \<lparr>VaultDbPath = ''databases'', DbConfigurations = spec_configs demo_annotations\<rparr>"
proof -
  have "distinct (map fst demo_annotations)" "\<not> v1_annotated demo_annotations"
    "lookup_str demo_annotations ANNOTATION_VAULT_DB_PATH = ''''" "DefaultEngine default_config = ''databases''"
    by code_simp+
  then show ?thesis
    using GetPodDbConfig_declarative [of demo_annotations "rev demo_annotations" default_config] by simp
qed

end
