(* ===== verification/Kube.thy ===== *)
theory Kube
  imports Annotations
begin

text \<open>
  Package \<^verbatim>\<open>pkg/k8s\<close> without the annotation parser: listing the pods that carry injected
  credentials, obtaining the ServiceAccount token for a Vault login, and classifying the errors
  of the token request.
\<close>

section \<open>Pods\<close>

record PodInfo =
  PodNameUUIDs :: "string list"
  pi_Namespace :: string
  ServiceAccountName :: string
  pi_PodName :: string
  pi_NodeName :: string

text \<open>The UUIDs a pod is known by: its own UID, then those of a non-empty UUID annotation.\<close>

definition pod_uuids :: "pod \<Rightarrow> string list" where
  "pod_uuids p =
     pod_uid p #
     (case map_of (pod_annotations p) ANNOTATION_VAULT_POD_UUID of
        None \<Rightarrow> []
      | Some v \<Rightarrow> if v \<noteq> '''' then Split v CHR '','' else [])"

definition pod_info :: "pod \<Rightarrow> PodInfo" where
  "pod_info p =
    \<lparr>PodNameUUIDs = pod_uuids p, pi_Namespace = pod_namespace p,
     ServiceAccountName = pod_service_account p, pi_PodName = pod_name p,
     pi_NodeName = pod_node_name p\<rparr>"

definition GetAllPodAndNamespace :: "env \<Rightarrow> Config \<Rightarrow> PodInfo list res io" where
  "GetAllPodAndNamespace E cfg = do {
     let selector = InjectorLabel cfg @ ''=true'';
     r \<leftarrow> perform (\<lambda>h. e_list_pods E h selector '''') (ListPods selector '''');
     case r of
       Inl err \<Rightarrow> do {
         _ \<leftarrow> metric (Inc GetAllPodErrorCount []);
         ret (Err err) }
     | Inr pods \<Rightarrow>
         if pods = [] then do {
           _ \<leftarrow> metric (Inc GetAllPodErrorCount []);
           ret (Err (Newf ''no pods found in the cluster'' [])) }
         else do {
           _ \<leftarrow> metric (Inc GetAllPodSuccessCount []);
           ret (Ok (map pod_info pods)) } }"

section \<open>ServiceAccount tokens\<close>

definition tokenFilePath :: string where
  "tokenFilePath = ''/var/run/secrets/kubernetes.io/serviceaccount/token''"

definition GetServiceAccountToken :: "env \<Rightarrow> string res io" where
  "GetServiceAccountToken E = do {
     r \<leftarrow> perform (\<lambda>h. e_read_file E h tokenFilePath) (ReadFile tokenFilePath);
     case r of
       Inl err \<Rightarrow> ret (Err (Wrap err ''failed to read service account token''))
     | Inr token \<Rightarrow> ret (Ok token) }"

text \<open>
  The configuration of a clientset: the one of the cluster, else the file below the home directory.
  \<open>GetKubernetesClient\<close> builds a new clientset at every call.
\<close>

definition kubeconfig_path :: "client_go \<Rightarrow> string" where
  "kubeconfig_path G =
     (if cg_HomeDir G = '''' then '''' else path_Join [cg_HomeDir G, ''.kube'', ''config''])"

definition build_clientset :: "client_go \<Rightarrow> goerr option" where
  "build_clientset G =
     (let config = (case cg_InClusterConfig G of
                      Inr c \<Rightarrow> Inr c
                    | Inl err \<Rightarrow> cg_BuildConfigFromFlags G '''' (kubeconfig_path G))
      in case config of
           Inl err \<Rightarrow> Some err
         | Inr c \<Rightarrow> cg_NewForConfig G c)"

definition GetKubernetesClient :: "env \<Rightarrow> unit res io" where
  "GetKubernetesClient E = do {
     r \<leftarrow> perform (\<lambda>h. build_clientset (e_client_go E h)) KubeClient;
     ret (of_opt r) }"

text \<open>Inside a cluster the home directory plays no part.\<close>

lemma build_clientset_in_cluster:
  "cg_InClusterConfig G = Inr c \<Longrightarrow> build_clientset G = cg_NewForConfig G c"
  by (simp add: build_clientset_def)

text \<open>The adapter's method: an empty audience list is omitted from the request.\<close>

definition adapter_RequestSAToken ::
  "env \<Rightarrow> string \<Rightarrow> string \<Rightarrow> string list \<Rightarrow> int \<Rightarrow> string res io" where
  "adapter_RequestSAToken E namespace saName audiences expirationSeconds = do {
     let aud = (if audiences = [] then None else Some audiences);
     r \<leftarrow> perform (\<lambda>h. e_create_token E h namespace saName aud expirationSeconds)
           (CreateToken namespace saName aud expirationSeconds);
     case r of
       Inl err \<Rightarrow> ret (Err (Wrap err (Sprintf ''TokenRequest for %s/%s'' [namespace, saName])))
     | Inr token \<Rightarrow>
         if token = ''''
         then ret (Err (Newf ''TokenRequest for %s/%s returned empty token'' [namespace, saName]))
         else ret (Ok token) }"

text \<open>\<^verbatim>\<open>Client.RequestSAToken\<close> first builds a clientset.\<close>

definition RequestSAToken ::
  "env \<Rightarrow> string \<Rightarrow> string \<Rightarrow> string list \<Rightarrow> int \<Rightarrow> string res io" where
  "RequestSAToken E namespace saName audiences expirationSeconds =
     check (GetKubernetesClient E)
       (\<lambda>_. adapter_RequestSAToken E namespace saName audiences expirationSeconds)"

definition VaultLoginToken :: "env \<Rightarrow> pod \<Rightarrow> bool \<Rightarrow> string list \<Rightarrow> int \<Rightarrow> string res io" where
  "VaultLoginToken E p useProjectedSA audiences expirationSeconds =
     (if \<not> useProjectedSA then GetServiceAccountToken E
      else let saName = (if pod_service_account p = '''' then ''default'' else pod_service_account p)
           in RequestSAToken E (pod_namespace p) saName audiences expirationSeconds)"

text \<open>\<^verbatim>\<open>apierrors.IsForbidden\<close> and its siblings look for a status error along the wrapping chain.\<close>

fun kube_reason_of :: "goerr \<Rightarrow> kube_reason option" where
  "kube_reason_of (KubeStatus r txt) = Some r"
| "kube_reason_of (Wrap e p) = kube_reason_of e"
| "kube_reason_of _ = None"

definition ClassifyTokenRequestError :: "goerr option \<Rightarrow> string" where
  "ClassifyTokenRequestError err =
     (case err of
        None \<Rightarrow> ''''
      | Some e \<Rightarrow>
          if kube_reason_of e = Some Forbidden then ''rbac_denied''
          else if kube_reason_of e = Some NotFound then ''sa_not_found''
          else if kube_reason_of e = Some Unauthorized then ''unauthorized''
          else ''other'')"

section \<open>Lemmas\<close>

text \<open>No operation of this package talks to Vault.\<close>

definition kube_event :: "event \<Rightarrow> bool" where
  "kube_event e = (case e of
      KubeClient _ \<Rightarrow> True | ListPods _ _ _ \<Rightarrow> True | GetPod _ _ _ \<Rightarrow> True
    | CreateToken _ _ _ _ _ \<Rightarrow> True | ReadFile _ _ \<Rightarrow> True | Metric _ \<Rightarrow> True | _ \<Rightarrow> False)"

lemma kube_event_simps [simp]:
  "kube_event (KubeClient r)" "kube_event (ListPods l f rp)" "kube_event (GetPod ns n rg)"
  "kube_event (CreateToken ns sa aud ex rt)" "kube_event (ReadFile p rf)" "kube_event (Metric op)"
  by (simp_all add: kube_event_def)

lemma only_kube_GetAllPodAndNamespace: "only {e. kube_event e} (GetAllPodAndNamespace E cfg)"
  unfolding GetAllPodAndNamespace_def Let_def
  by (auto split: sum.splits)

lemma only_kube_GetServiceAccountToken: "only {e. kube_event e} (GetServiceAccountToken E)"
  unfolding GetServiceAccountToken_def
  by (auto split: sum.splits)

lemma only_kube_RequestSAToken: "only {e. kube_event e} (RequestSAToken E ns sa aud ex)"
  unfolding RequestSAToken_def adapter_RequestSAToken_def GetKubernetesClient_def Let_def
  by (auto split: sum.splits)

lemma only_kube_VaultLoginToken: "only {e. kube_event e} (VaultLoginToken E p b aud ex)"
  by (simp add: VaultLoginToken_def Let_def only_kube_GetServiceAccountToken only_kube_RequestSAToken)

text \<open>In projected mode the login JWT is the non-empty answer of one token request for the pod's account.\<close>

lemma emits_VaultLoginToken_projected:
  "emits (VaultLoginToken E p True aud ex)
     (\<lambda>r es. \<forall>tok. r = Ok tok \<longrightarrow> tok \<noteq> '''' \<and>
        CreateToken (pod_namespace p)
          (if pod_service_account p = '''' then ''default'' else pod_service_account p)
          (if aud = [] then None else Some aud) ex (Inr tok) \<in> set es)"
  unfolding VaultLoginToken_def RequestSAToken_def adapter_RequestSAToken_def GetKubernetesClient_def
    Let_def if_True if_False simp_thms
  by (intro emits_intro) (auto split: sum.splits res.splits intro!: emits_intro)

lemma calls_GetAllPodAndNamespace [intro!]:
  "{C_list_pods, C_metric} \<subseteq> K \<Longrightarrow> calls K (GetAllPodAndNamespace E cfg)"
  unfolding GetAllPodAndNamespace_def Let_def
  by (auto split: sum.splits)

lemma calls_GetServiceAccountToken [intro!]:
  "{C_read_file} \<subseteq> K \<Longrightarrow> calls K (GetServiceAccountToken E)"
  unfolding GetServiceAccountToken_def
  by (auto split: sum.splits)

lemma calls_GetKubernetesClient [intro!]:
  "{C_kube_client} \<subseteq> K \<Longrightarrow> calls K (GetKubernetesClient E)"
  unfolding GetKubernetesClient_def
  by auto

lemma calls_VaultLoginToken [intro!]:
  "{C_kube_client, C_create_token, C_read_file} \<subseteq> K \<Longrightarrow> calls K (VaultLoginToken E p b aud ex)"
  unfolding VaultLoginToken_def RequestSAToken_def adapter_RequestSAToken_def Let_def
  by (auto split: sum.splits)

end
