(* ===== verification/Connector.thy ===== *)
theory Connector
  imports Kube
begin

text \<open>
  Files \<^verbatim>\<open>vault.go\<close>, \<^verbatim>\<open>auth.go\<close> and \<^verbatim>\<open>classify.go\<close> of \<^verbatim>\<open>pkg/vault\<close>: the connector, its logins, the
  role check of legacy mode. A connector is a pointer in
  the source; an operation that writes to it returns the new connector beside its result. A
  method that uses the Vault client panics when no login has set it.
\<close>

section \<open>The connector\<close>

record connector =
  address :: string
  authPath :: string
  dbRole :: string
  k8sSaToken :: string
  K8sSaVaultToken :: string
  vaultToken :: string
  authRole :: string
  dbMountPath :: string
  client :: "vclient option"
  RenewalInterval :: int
  conn_RateLimit :: int

definition NewConnector ::
  "string \<Rightarrow> string \<Rightarrow> string \<Rightarrow> string \<Rightarrow> string \<Rightarrow> string \<Rightarrow> int \<Rightarrow> connector" where
  "NewConnector addr auth_path auth_role db_mount_path db_role token rate =
    \<lparr>address = addr, authPath = auth_path, dbRole = db_role, k8sSaToken = token,
     K8sSaVaultToken = '''', vaultToken = '''', authRole = auth_role,
     dbMountPath = db_mount_path, client = None, RenewalInterval = 0, conn_RateLimit = rate\<rparr>"

definition Clone :: "connector \<Rightarrow> connector" where
  "Clone c =
    \<lparr>address = address c, authPath = authPath c, dbRole = dbRole c, k8sSaToken = k8sSaToken c,
     K8sSaVaultToken = '''', vaultToken = '''', authRole = authRole c,
     dbMountPath = dbMountPath c, client = None, RenewalInterval = 0,
     conn_RateLimit = conn_RateLimit c\<rparr>"

definition GetToken :: "connector \<Rightarrow> string" where
  "GetToken c = vaultToken c"

definition SetToken :: "connector \<Rightarrow> string \<Rightarrow> connector res" where
  "SetToken c token =
     (case client c of
        None \<Rightarrow> Panic
      | Some cl \<Rightarrow> Ok (c\<lparr>vaultToken := token, client := Some (cl\<lparr>cl_token := token\<rparr>)\<rparr>))"

definition with_client :: "connector \<Rightarrow> (vclient \<Rightarrow> 'a res io) \<Rightarrow> 'a res io" where
  "with_client c k = (case client c of None \<Rightarrow> ret Panic | Some cl \<Rightarrow> k cl)"

section \<open>Logging in\<close>

text \<open>\<^verbatim>\<open>ClassifyLoginError\<close>: a metric label from the text of the error.\<close>

definition ClassifyLoginError :: "goerr option \<Rightarrow> string" where
  "ClassifyLoginError err =
     (case err of
        None \<Rightarrow> ''''
      | Some e \<Rightarrow>
          let msg = ToLower (err_msg e)
          in if Contains msg ''audience'' then ''audience_mismatch''
             else if Contains msg ''service account name not authorized'' \<or>
                     Contains msg ''bound_service_account'' then ''sa_not_bound''
             else if Contains msg ''role'' \<and> Contains msg ''could not be found'' then ''role_not_found''
             else if Contains msg ''sealed'' then ''vault_sealed''
             else if Contains msg ''permission denied'' then ''permission_denied''
             else ''other'')"

text \<open>\<^verbatim>\<open>Login\<close> sets the client and the token on success and leaves the connector as it is otherwise.\<close>

definition NewClient :: "env \<Rightarrow> string \<Rightarrow> unit res io" where
  "NewClient E addr = do {
     r \<leftarrow> perform (\<lambda>h. e_new_client E h addr) (NewVaultClient addr);
     ret (of_opt r) }"

definition Login :: "env \<Rightarrow> connector \<Rightarrow> connector res io" where
  "Login E c =
     check (NewClient E (address c))
       (\<lambda>_. check (do {
          r \<leftarrow> perform (\<lambda>h. e_k8s_auth E h (authRole c) (k8sSaToken c) (authPath c))
                (NewKubernetesAuth (authRole c) (k8sSaToken c) (authPath c));
          ret (of_opt r) })
       (\<lambda>_. check (do {
          r \<leftarrow> perform
                (\<lambda>h. e_login E h (address c) (authPath c) (authRole c) (k8sSaToken c))
                (AuthLogin (address c) (authPath c) (authRole c) (k8sSaToken c));
          ret (of_sum r) })
       (\<lambda>token. ret (Ok (c\<lparr>client := Some \<lparr>cl_address = address c, cl_token = token\<rparr>,
                           vaultToken := token\<rparr>)))))"

definition LoginAsInjectorSA :: "env \<Rightarrow> Config \<Rightarrow> string \<Rightarrow> string \<Rightarrow> string res io" where
  "LoginAsInjectorSA E cfg k8s_sa_token kube_role =
     (if k8s_sa_token = '''' then ret (Err (Newf ''LoginAsInjectorSA: empty k8s SA token'' []))
      else let role = (if kube_role = '''' then KubeRole cfg else kube_role);
               conn = NewConnector (VaultAddress cfg) (VaultAuthPath cfg) role '''' ''''
                        k8s_sa_token (VaultRateLimit cfg)
           in do {
             r \<leftarrow> Login E conn;
             ret (case r of
                    Ok conn' \<Rightarrow> Ok (GetToken conn')
                  | Err e \<Rightarrow> Err (Wrap e ''vault login as injector SA'')
                  | Panic \<Rightarrow> Panic) })"

definition ConnectToVault :: "env \<Rightarrow> Config \<Rightarrow> string \<Rightarrow> connector res io" where
  "ConnectToVault E cfg saToken = do {
     let conn = NewConnector (VaultAddress cfg) (VaultAuthPath cfg) (KubeRole cfg)
                  ''random'' ''random'' saToken (VaultRateLimit cfg);
     r \<leftarrow> Login E conn;
     case r of
       Err e \<Rightarrow> do {
         _ \<leftarrow> metric (Inc ConnectVaultError []);
         _ \<leftarrow> metric (Inc VaultLoginErrors [ClassifyLoginError (Some e), ''legacy'']);
         ret (Err (Wrap e ''cannot authenticate vault role'')) }
     | Panic \<Rightarrow> ret Panic
     | Ok c \<Rightarrow> do {
         let c' = c\<lparr>K8sSaVaultToken := (case client c of None \<Rightarrow> '''' | Some cl \<Rightarrow> cl_token cl)\<rparr>;
         _ \<leftarrow> metric (Inc ConnectVault []);
         ret (Ok c') } }"

text \<open>\<^verbatim>\<open>ConnectAndRenew\<close> also starts the renewal goroutine, which is \<open>renewal_tick\<close> of theory Tokens.\<close>

definition ConnectAndRenew :: "env \<Rightarrow> Config \<Rightarrow> string \<Rightarrow> connector res io" where
  "ConnectAndRenew E cfg saToken =
     check (ConnectToVault E cfg saToken)
       (\<lambda>c. ret (Ok (c\<lparr>RenewalInterval := 600 * 1000000000\<rparr>)))"

definition CheckHealth :: "env \<Rightarrow> connector \<Rightarrow> unit res io" where
  "CheckHealth E c = do {
     r \<leftarrow> NewClient E (address c);
     case r of
       Err e \<Rightarrow> ret (Err (Wrap e ''failed to create Vault client''))
     | Panic \<Rightarrow> ret Panic
     | Ok _ \<Rightarrow> do {
         h \<leftarrow> perform (\<lambda>h. e_health E h (address c)) (SysHealth (address c));
         case h of
           Inl e \<Rightarrow> ret (Err (Wrap e ''failed to check Vault health''))
         | Inr (initialized, sealed) \<Rightarrow>
             if \<not> initialized then ret (Err (Newf ''vault is not initialized'' []))
             else if sealed then ret (Err (Newf ''vault is sealed'' []))
             else ret (Ok ()) } }"

definition CheckVaultConnectivity :: "env \<Rightarrow> string \<Rightarrow> unit res io" where
  "CheckVaultConnectivity E addr = CheckHealth E (NewConnector addr '''' '''' '''' '''' '''' 0)"

section \<open>The role check of legacy mode\<close>

fun show_nat :: "nat \<Rightarrow> string" where
  "show_nat n = (if n < 10 then [char_of (48 + n)] else show_nat (n div 10) @ [char_of (48 + n mod 10)])"

declare show_nat.simps [simp del]

definition show_int :: "int \<Rightarrow> string" where
  "show_int i = (if i < 0 then ''-'' @ show_nat (nat (- i)) else show_nat (nat i))"

text \<open>
  \<^verbatim>\<open>sliceToStrings\<close>: the text of one element, or an error for a type outside the switch. \<open>go_type\<close>
  is the type's name under \<^verbatim>\<open>%T\<close>.
\<close>

fun any_to_string :: "any \<Rightarrow> string option" where
  "any_to_string (AStr s) = Some s"
| "any_to_string (AInt i) = Some (show_int i)"
| "any_to_string (AInt32 i) = Some (show_int i)"
| "any_to_string (AInt64 i) = Some (show_int i)"
| "any_to_string (AFloat32 txt) = Some txt"
| "any_to_string (AFloat64 txt i) = Some txt"
| "any_to_string (ABool b) = Some (if b then ''true'' else ''false'')"
| "any_to_string _ = None"

fun go_type :: "any \<Rightarrow> string" where
  "go_type ANil = ''<nil>''"
| "go_type (AStr s) = ''string''"
| "go_type (ABool b) = ''bool''"
| "go_type (AInt i) = ''int''"
| "go_type (AInt32 i) = ''int32''"
| "go_type (AInt64 i) = ''int64''"
| "go_type (AFloat32 txt) = ''float32''"
| "go_type (AFloat64 txt i) = ''float64''"
| "go_type (AJsonNumber txt) = ''json.Number''"
| "go_type (ASlice as) = ''[]interface {}''"
| "go_type (AMap m) = ''map[string]interface {}''"

text \<open>A slice of strings under \<^verbatim>\<open>%s\<close>.\<close>

definition show_slice :: "string list \<Rightarrow> string" where
  "show_slice ss = ''['' @ Join ss '' '' @ '']''"

fun sliceToStrings :: "any list \<Rightarrow> string list res" where
  "sliceToStrings [] = Ok []"
| "sliceToStrings (a # as) =
     (case any_to_string a of
        None \<Rightarrow> Err (Newf ''unexpected type %T in slice element'' [go_type a])
      | Some s \<Rightarrow> (case sliceToStrings as of
                    Ok ss \<Rightarrow> Ok (s # ss) | Err e \<Rightarrow> Err e | Panic \<Rightarrow> Panic))"

text \<open>One of the three string lists of a role.\<close>

definition role_list :: "secret \<Rightarrow> string \<Rightarrow> string \<Rightarrow> string list res" where
  "role_list role field db_role =
     (case map_of (sec_data role) field of
        Some (ASlice raw) \<Rightarrow>
          wrap_err (Sprintf ''invalid %s in role %s'' [field, db_role]) (sliceToStrings raw)
      | _ \<Rightarrow> Err (Newf ''unexpected type for %s in role %s'' [field, db_role]))"

definition deny :: "string \<Rightarrow> string \<Rightarrow> string \<Rightarrow> string \<Rightarrow> string \<Rightarrow> bool res io" where
  "deny sa namespace db_role cause msg = do {
     _ \<leftarrow> metric (Inc ServiceAccountDenied [sa, namespace, db_role, cause]);
     ret (Err (Newf msg [])) }"

definition CanIGetRoles ::
  "env \<Rightarrow> connector \<Rightarrow> string \<Rightarrow> string \<Rightarrow> string \<Rightarrow> string \<Rightarrow> bool res io" where
  "CanIGetRoles E c serviceAccountName namespace vaultAuthPath db_role =
     with_client c (\<lambda>cl. do {
       let rolePath = Sprintf ''auth/%s/role/%s'' [vaultAuthPath, db_role];
       r \<leftarrow> perform (\<lambda>h. e_read E h cl rolePath) (LogicalRead cl rolePath);
       case r of
         Inl err \<Rightarrow> ret (Err err)
       | Inr None \<Rightarrow> ret (Err (Newf (Sprintf ''role %s not found in Vault'' [db_role]) []))
       | Inr (Some role) \<Rightarrow>
           check (ret (role_list role ''bound_service_account_names'' db_role)) (\<lambda>boundNames.
           check (ret (role_list role ''bound_service_account_namespaces'' db_role)) (\<lambda>boundNamespaces.
           check (ret (role_list role ''token_policies'' db_role)) (\<lambda>tokenPolicies.
             if db_role \<notin> set tokenPolicies
             then deny serviceAccountName namespace db_role ''RoleNotInAssumeRole''
                    (Sprintf ''serviceAccount not allowed, the Role is not in the AssumeRole, %s =/= %s''
                       [serviceAccountName, db_role])
             else if serviceAccountName \<notin> set boundNames
             then deny serviceAccountName namespace db_role ''ServiceAccountNameNotInRole''
                    (Sprintf ''serviceAccount not allowed, the serviceAccount is not in the bound_service_account_names in the Vault Kubernetes Auth Dedicated Backend, %s =/= %s''
                       [serviceAccountName, show_slice boundNames])
             else if namespace \<notin> set boundNamespaces
             then deny serviceAccountName namespace db_role ''NamespaceNotInRole''
                    (Sprintf ''serviceAccount not allowed, the namespace is not in the bound_service_account_namespaces in the Vault Kubernetes Auth Dedicated Backend, %s =/= %s''
                       [namespace, show_slice boundNamespaces])
             else do {
               _ \<leftarrow> metric (Inc ServiceAccountAuthorized []);
               ret (Ok True) }))) })"

lemma with_client_None [simp]: "client c = None \<Longrightarrow> with_client c k = ret Panic"
  by (simp add: with_client_def)

lemma with_client_Some [simp]: "client c = Some cl \<Longrightarrow> with_client c k = k cl"
  by (simp add: with_client_def)

lemma calls_with_client [intro!]: "(\<And>cl. calls K (k cl)) \<Longrightarrow> calls K (with_client c k)"
  by (simp add: with_client_def split: option.splits)

lemma emits_with_client [emits_intro]:
  "(client c = None \<Longrightarrow> P Panic []) \<Longrightarrow> (\<And>cl. client c = Some cl \<Longrightarrow> emits (k cl) P) \<Longrightarrow>
   emits (with_client c k) P"
  by (cases "client c") (auto simp: with_client_def intro: emits_return)

lemma only_with_client [intro!]: "(\<And>cl. only S (k cl)) \<Longrightarrow> only S (with_client c k)"
  by (simp add: with_client_def split: option.splits)

section \<open>Calls\<close>

lemma calls_NewClient [intro!]: "{C_new_client} \<subseteq> K \<Longrightarrow> calls K (NewClient E a)"
  unfolding NewClient_def
  by auto

lemma calls_Login [intro!]: "{C_new_client, C_k8s_auth, C_login} \<subseteq> K \<Longrightarrow> calls K (Login E c)"
  unfolding Login_def
  by auto

lemma calls_LoginAsInjectorSA [intro!]:
  "{C_new_client, C_k8s_auth, C_login} \<subseteq> K \<Longrightarrow> calls K (LoginAsInjectorSA E cfg tok role)"
  unfolding LoginAsInjectorSA_def Let_def
  by auto

lemma calls_ConnectToVault [intro!]:
  "{C_new_client, C_k8s_auth, C_login, C_metric} \<subseteq> K \<Longrightarrow> calls K (ConnectToVault E cfg tok)"
  unfolding ConnectToVault_def Let_def
  by (auto split: res.splits)

lemma calls_deny [intro!]: "{C_metric} \<subseteq> K \<Longrightarrow> calls K (deny sa ns role cause msg)"
  unfolding deny_def
  by auto

lemma calls_CanIGetRoles [intro!]:
  "{C_read, C_metric} \<subseteq> K \<Longrightarrow> calls K (CanIGetRoles E c sa ns path role)"
  unfolding CanIGetRoles_def Let_def
  by (auto split: sum.splits option.splits)

section \<open>What a login establishes\<close>

text \<open>
  A successful login leaves a client that carries the token which Vault's answer holds; nothing
  else of the connector changes.
\<close>

lemma emits_Login:
  "emits (Login E c) (\<lambda>r es. (\<forall>c'. r = Ok c' \<longrightarrow>
     (\<exists>tok. AuthLogin (address c) (authPath c) (authRole c) (k8sSaToken c) (Inr tok) \<in> set es \<and>
        c' = c\<lparr>client := Some \<lparr>cl_address = address c, cl_token = tok\<rparr>, vaultToken := tok\<rparr>)) \<and>
     (\<forall>a p role jwt tok. AuthLogin a p role jwt (Inr tok) \<in> set es \<longrightarrow>
        a = address c \<and> p = authPath c \<and> role = authRole c \<and> jwt = k8sSaToken c \<and>
        r = Ok (c\<lparr>client := Some \<lparr>cl_address = address c, cl_token = tok\<rparr>, vaultToken := tok\<rparr>)))"
  unfolding Login_def NewClient_def
  by (intro emits_intro) (auto split: res.splits option.splits sum.splits intro!: emits_intro)

end
