(* ===== verification/KeyInfo.thy ===== *)
theory KeyInfo
  imports Connector
begin

text \<open>
  The KV bookkeeping half of \<^verbatim>\<open>pkg/vault/handle_token.go\<close>: the record kept for every issued
  credential, its encoding as a KV map, and the operations that write, delete, read and list
  these entries. The encoding is an instance of the locale \<open>kv_codec\<close>.
\<close>

section \<open>Entries and their encoding\<close>

record KeyInfo =
  PodNameUID :: string
  LeaseID :: string
  TokenID :: string
  ki_Namespace :: string
  ki_PodName :: string
  ki_NodeName :: string
  ki_ServiceAccount :: string

definition NewKeyInfo ::
  "string \<Rightarrow> string \<Rightarrow> string \<Rightarrow> string \<Rightarrow> string \<Rightarrow> string \<Rightarrow> string \<Rightarrow> KeyInfo" where
  "NewKeyInfo podUuid leaseID tokenID namespace serviceAccount podName nodeName =
    \<lparr>PodNameUID = podUuid, LeaseID = leaseID, TokenID = tokenID, ki_Namespace = namespace,
     ki_PodName = podName, ki_NodeName = nodeName, ki_ServiceAccount = serviceAccount\<rparr>"

definition kvKeyLeaseID :: string where "kvKeyLeaseID = ''LeaseId''"
definition kvKeyTokenID :: string where "kvKeyTokenID = ''TokenId''"
definition kvKeyNamespace :: string where "kvKeyNamespace = ''Namespace''"
definition kvKeyServiceAccountName :: string where "kvKeyServiceAccountName = ''ServiceAccountName''"
definition kvKeyPodName :: string where "kvKeyPodName = ''PodName''"
definition kvKeyNodeName :: string where "kvKeyNodeName = ''NodeName''"

lemmas kv_key_defs = kvKeyLeaseID_def kvKeyTokenID_def kvKeyNamespace_def
  kvKeyServiceAccountName_def kvKeyPodName_def kvKeyNodeName_def

text \<open>The map literal of \<^verbatim>\<open>StoreData\<close>.\<close>

definition store_map :: "KeyInfo \<Rightarrow> (string \<times> string) list" where
  "store_map ki =
    [(kvKeyLeaseID, LeaseID ki), (kvKeyTokenID, TokenID ki), (kvKeyNamespace, ki_Namespace ki),
     (kvKeyServiceAccountName, ki_ServiceAccount ki), (kvKeyPodName, ki_PodName ki),
     (kvKeyNodeName, ki_NodeName ki)]"

definition safeString :: "any option \<Rightarrow> string" where
  "safeString v = (case v of Some (AStr s) \<Rightarrow> s | _ \<Rightarrow> '''')"

definition keyInfoFromMap :: "string \<Rightarrow> (string \<times> any) list \<Rightarrow> KeyInfo" where
  "keyInfoFromMap uuid m =
     NewKeyInfo uuid (safeString (map_of m kvKeyLeaseID)) (safeString (map_of m kvKeyTokenID))
       (safeString (map_of m kvKeyNamespace)) (safeString (map_of m kvKeyServiceAccountName))
       (safeString (map_of m kvKeyPodName)) (safeString (map_of m kvKeyNodeName))"

text \<open>A map of strings as the KV engine returns it.\<close>

definition to_any :: "(string \<times> string) list \<Rightarrow> (string \<times> any) list" where
  "to_any m = map (\<lambda>(k, v). (k, AStr v)) m"

locale kv_codec =
  fixes encode :: "'a \<Rightarrow> (string \<times> string) list"
    and decode :: "string \<Rightarrow> (string \<times> any) list \<Rightarrow> 'a"
    and key :: "'a \<Rightarrow> string"
  assumes decode_encode: "decode (key x) (to_any (encode x)) = x"
    and key_decode: "key (decode k m) = k"
begin

lemma encode_inj: "key x = key y \<Longrightarrow> encode x = encode y \<Longrightarrow> x = y"
  by (metis decode_encode)

lemma decode_other_key: "decode k (to_any (encode x)) = x \<Longrightarrow> k = key x"
  by (metis key_decode)

end

interpretation key_info: kv_codec store_map keyInfoFromMap PodNameUID
  by unfold_locales
    (simp_all add: store_map_def keyInfoFromMap_def NewKeyInfo_def to_any_def safeString_def
      kv_key_defs)

section \<open>Writing and deleting\<close>

definition kv_full_path :: "string \<Rightarrow> string \<Rightarrow> string" where
  "kv_full_path pfx uuid = Sprintf ''%s/%s'' [pfx, uuid]"

definition StoreData ::
  "env \<Rightarrow> connector \<Rightarrow> KeyInfo \<Rightarrow> string \<Rightarrow> string \<Rightarrow> string \<Rightarrow> string \<Rightarrow> unit res io" where
  "StoreData E c vaultInformation secretName uuid namespace pfx =
     with_client c (\<lambda>cl. do {
       let data = store_map vaultInformation;
       let fullPath = kv_full_path pfx (PodNameUID vaultInformation);
       r \<leftarrow> perform (\<lambda>h. e_kv_put E h cl secretName fullPath data) (KvPut cl secretName fullPath data);
       case r of
         Some err \<Rightarrow> do {
           _ \<leftarrow> metric (Inc DataErrorDeletedCount [uuid, namespace]);
           ret (Err err) }
       | None \<Rightarrow> do {
           _ \<leftarrow> metric (Inc DataStoredCount []);
           ret (Ok ()) } })"

text \<open>
  \<^verbatim>\<open>StoreDataAsync\<close> returns at once; what it leaves behind is a goroutine, recorded as
  \<open>SpawnStoreData\<close> with everything the goroutine reads. \<open>store_data_goroutine\<close> is its body, run
  at any later time; \<open>c\<close> is the connector as the goroutine finds it.
\<close>

definition StoreDataAsync ::
  "connector \<Rightarrow> KeyInfo \<Rightarrow> string \<Rightarrow> string \<Rightarrow> unit io" where
  "StoreDataAsync c vaultInformation secretName pfx =
     emit (SpawnStoreData (address c) (K8sSaVaultToken c) secretName
             (kv_full_path pfx (PodNameUID vaultInformation)) (store_map vaultInformation))"

definition store_data_goroutine ::
  "env \<Rightarrow> connector \<Rightarrow> KeyInfo \<Rightarrow> string \<Rightarrow> string \<Rightarrow> string \<Rightarrow> string \<Rightarrow> unit io" where
  "store_data_goroutine E c vaultInformation secretName uuid namespace pfx =
     (if K8sSaVaultToken c = ''''
      then metric (Inc DataErrorStoredCount [uuid, namespace])
      else do {
        r \<leftarrow> NewClient E (address c);
        case r of
          Ok _ \<Rightarrow> do {
            let asyncConn = (NewConnector (address c) '''' '''' '''' '''' '''' 0)
                  \<lparr>client := Some \<lparr>cl_address = address c, cl_token = K8sSaVaultToken c\<rparr>,
                   vaultToken := K8sSaVaultToken c\<rparr>;
            _ \<leftarrow> StoreData E asyncConn vaultInformation secretName uuid namespace pfx;
            ret () }
        | _ \<Rightarrow> metric (Inc DataErrorStoredCount [uuid, namespace]) })"

definition isNotFound :: "goerr \<Rightarrow> bool" where
  "isNotFound err = (case as_response_error err of Some (code, errs) \<Rightarrow> code = 404 | None \<Rightarrow> False)"

definition DeleteData ::
  "env \<Rightarrow> connector \<Rightarrow> string \<Rightarrow> string \<Rightarrow> string \<Rightarrow> string \<Rightarrow> unit res io" where
  "DeleteData E c secretName uuid namespace pfx =
     with_client c (\<lambda>cl. do {
       let fullPath = kv_full_path pfx uuid;
       r \<leftarrow> perform (\<lambda>h. e_kv_delete E h cl secretName fullPath) (KvDelete cl secretName fullPath);
       if (case r of Some err \<Rightarrow> \<not> isNotFound err | None \<Rightarrow> False)
       then do {
         _ \<leftarrow> metric (Inc DataErrorDeletedCount [uuid, namespace]);
         ret (Err (Wrap (the r) (Sprintf ''kv.Delete failed for path %s'' [fullPath]))) }
       else do {
         r2 \<leftarrow> perform (\<lambda>h. e_kv_delete_metadata E h cl secretName fullPath)
                (KvDeleteMetadata cl secretName fullPath);
         if (case r2 of Some err \<Rightarrow> \<not> isNotFound err | None \<Rightarrow> False)
         then do {
           _ \<leftarrow> metric (Inc DataErrorDeletedCount [uuid, namespace]);
           ret (Err (Wrap (the r2) (Sprintf ''kv.DeleteMetadata failed for path %s'' [fullPath]))) }
         else do {
           _ \<leftarrow> metric (Inc DataDeletedCount [uuid, namespace]);
           ret (Ok ()) } } })"

section \<open>Reading and listing\<close>

text \<open>The map under \<^verbatim>\<open>"data"\<close> of a KV read: absent, ill-typed, or present.\<close>

datatype data_field = NoData | BadFormat | DataMap "(string \<times> any) list"

definition data_field_of :: "secret option \<Rightarrow> data_field" where
  "data_field_of s =
     (case s of
        None \<Rightarrow> NoData
      | Some sec \<Rightarrow>
          (case map_of (sec_data sec) ''data'' of
             None \<Rightarrow> NoData
           | Some ANil \<Rightarrow> NoData
           | Some (AMap m) \<Rightarrow> DataMap m
           | Some _ \<Rightarrow> BadFormat))"

definition GetKeyInfo ::
  "env \<Rightarrow> connector \<Rightarrow> string \<Rightarrow> string \<Rightarrow> string \<Rightarrow> KeyInfo res io" where
  "GetKeyInfo E c uuid path pfx =
     with_client c (\<lambda>cl. do {
       let dataPath = Sprintf ''%s/data/%s/%s'' [path, pfx, uuid];
       r \<leftarrow> perform (\<lambda>h. e_read E h cl dataPath) (LogicalRead cl dataPath);
       case r of
         Inl err \<Rightarrow> ret (Err err)
       | Inr podSecret \<Rightarrow>
           (case data_field_of podSecret of
              NoData \<Rightarrow> ret (Err (Wrap KeyNotFound (Sprintf ''no vault data found for uuid %s'' [uuid])))
            | BadFormat \<Rightarrow> ret (Err (Newf ''invalid data format for uuid %s'' [uuid]))
            | DataMap m \<Rightarrow> ret (Ok (keyInfoFromMap uuid m))) })"

text \<open>What one goroutine of \<^verbatim>\<open>ListKeyInfo\<close> sends: an entry, nothing, or an error.\<close>

datatype key_outcome = Found KeyInfo | Skipped | Failed goerr

definition read_key :: "env \<Rightarrow> vclient \<Rightarrow> string \<Rightarrow> string \<Rightarrow> any \<Rightarrow> key_outcome io" where
  "read_key E cl path pfx k = do {
     w \<leftarrow> perform (e_limiter E) LimiterWait;
     case w of
       Some err \<Rightarrow> ret (Failed (Wrap err ''rate limiter error''))
     | None \<Rightarrow>
         (case k of
            AStr kStr \<Rightarrow> do {
              let podName = TrimSuffix kStr ''/'';
              let dataPath = Sprintf ''%s/data/%s/%s'' [path, pfx, podName];
              r \<leftarrow> perform (\<lambda>h. e_read E h cl dataPath) (LogicalRead cl dataPath);
              case r of
                Inl err \<Rightarrow> ret (Failed (Wrap err (Sprintf ''failed to read data for %s'' [podName])))
              | Inr podSecret \<Rightarrow>
                  (case data_field_of podSecret of
                     NoData \<Rightarrow> ret Skipped
                   | BadFormat \<Rightarrow> ret (Failed (Newf ''invalid data format for %s'' [podName]))
                   | DataMap m \<Rightarrow> ret (Found (keyInfoFromMap podName m))) }
          | _ \<Rightarrow> ret (Failed (Newf ''unexpected type %T for key in vault list response'' [go_type k]))) }"

fun read_keys :: "env \<Rightarrow> vclient \<Rightarrow> string \<Rightarrow> string \<Rightarrow> any list \<Rightarrow> key_outcome list io" where
  "read_keys E cl path pfx [] = ret []"
| "read_keys E cl path pfx (k # ks) = do {
     o1 \<leftarrow> read_key E cl path pfx k;
     os \<leftarrow> read_keys E cl path pfx ks;
     ret (o1 # os) }"

definition found_infos :: "key_outcome list \<Rightarrow> KeyInfo list" where
  "found_infos os = concat (map (\<lambda>out. case out of Found ki \<Rightarrow> [ki] | _ \<Rightarrow> []) os)"

definition failed_errs :: "key_outcome list \<Rightarrow> goerr list" where
  "failed_errs os = concat (map (\<lambda>out. case out of Failed e \<Rightarrow> [e] | _ \<Rightarrow> []) os)"

text \<open>
  \<^verbatim>\<open>ListKeyInfo\<close> runs one goroutine per key. \<open>sched\<close> is the order in which they get to run, so the
  order of the result is not the order of the listing. Both results are returned: on failures of
  single keys the entries that could be read come with an error.
\<close>

definition ListKeyInfo ::
  "env \<Rightarrow> (any list \<Rightarrow> any list) \<Rightarrow> connector \<Rightarrow> string \<Rightarrow> string
   \<Rightarrow> (KeyInfo list \<times> goerr option) res io" where
  "ListKeyInfo E sched c path pfx =
     with_client c (\<lambda>cl. do {
       let kvPath = Sprintf ''%s/metadata/%s'' [path, pfx];
       r \<leftarrow> perform (\<lambda>h. e_list E h cl kvPath) (LogicalList cl kvPath);
       case r of
         Inl err \<Rightarrow> ret (Ok ([], Some err))
       | Inr None \<Rightarrow> ret (Ok ([], None))
       | Inr (Some sec) \<Rightarrow>
           (case map_of (sec_data sec) ''keys'' of
              None \<Rightarrow> ret (Ok ([], None))
            | Some ANil \<Rightarrow> ret (Ok ([], None))
            | Some (ASlice keys) \<Rightarrow> do {
                os \<leftarrow> read_keys E cl path pfx (sched keys);
                let errs = failed_errs os;
                ret (Ok (found_infos os, if errs = [] then None else Some (JoinErr errs))) }
            | Some _ \<Rightarrow> ret (Ok ([], Some
                (Newf ''unexpected type for keys in vault list response at path %s'' [kvPath])))) })"

section \<open>Lemmas\<close>

lemma keyInfoFromMap_PodNameUID [simp]: "PodNameUID (keyInfoFromMap uuid m) = uuid"
  by (simp add: keyInfoFromMap_def NewKeyInfo_def)

lemma found_infos_simps [simp]:
  "found_infos [] = []"
  "found_infos (Found ki # os) = ki # found_infos os"
  "found_infos (Skipped # os) = found_infos os"
  "found_infos (Failed e # os) = found_infos os"
  by (simp_all add: found_infos_def)

lemma failed_errs_simps [simp]:
  "failed_errs [] = []"
  "failed_errs (Found ki # os) = failed_errs os"
  "failed_errs (Skipped # os) = failed_errs os"
  "failed_errs (Failed e # os) = e # failed_errs os"
  by (simp_all add: failed_errs_def)

lemma set_found_infos: "ki \<in> set (found_infos os) \<longleftrightarrow> Found ki \<in> set os"
  by (induction os) (auto simp: found_infos_def split: key_outcome.splits)

lemma set_failed_errs: "e \<in> set (failed_errs os) \<longleftrightarrow> Failed e \<in> set os"
  by (induction os) (auto simp: failed_errs_def split: key_outcome.splits)

section \<open>Calls\<close>

lemma calls_StoreData [intro!]:
  "{C_kv_put, C_metric} \<subseteq> K \<Longrightarrow> calls K (StoreData E c ki s u n pfx)"
  unfolding StoreData_def Let_def
  by (auto split: option.splits)

lemma calls_StoreDataAsync [intro!]:
  "{C_spawn_store} \<subseteq> K \<Longrightarrow> calls K (StoreDataAsync c ki s pfx)"
  unfolding StoreDataAsync_def
  by auto

lemma calls_DeleteData [intro!]:
  "{C_kv_delete, C_kv_delete_metadata, C_metric} \<subseteq> K \<Longrightarrow> calls K (DeleteData E c s u n pfx)"
  unfolding DeleteData_def Let_def
  by (auto split: option.splits)

lemma calls_GetKeyInfo [intro!]: "{C_read} \<subseteq> K \<Longrightarrow> calls K (GetKeyInfo E c u path pfx)"
  unfolding GetKeyInfo_def Let_def
  by (auto split: sum.splits data_field.splits)

lemma calls_read_key [intro!]: "{C_limiter, C_read} \<subseteq> K \<Longrightarrow> calls K (read_key E cl path pfx k)"
  unfolding read_key_def Let_def
  by (auto split: sum.splits option.splits data_field.splits any.splits)

lemma calls_read_keys [intro!]: "{C_limiter, C_read} \<subseteq> K \<Longrightarrow> calls K (read_keys E cl path pfx ks)"
  by (induction ks) auto

lemma calls_ListKeyInfo [intro!]:
  "{C_list, C_limiter, C_read} \<subseteq> K \<Longrightarrow> calls K (ListKeyInfo E sched c path pfx)"
  unfolding ListKeyInfo_def Let_def
  by (auto split: sum.splits option.splits any.splits)

end
