(* ===== verification/Credentials.thy ===== *)
theory Credentials
  imports KeyInfo
begin

text \<open>
  The issue of database credentials in \<^verbatim>\<open>pkg/vault/vault.go\<close>, with the two token operations that go
  with it: the period check of projected mode and the revocation of a token by itself
  (\<^verbatim>\<open>handle_token.go\<close>). \<open>GetDbCredentials\<close> also returns the connector, whose token it replaces in
  legacy mode.
\<close>

section \<open>Issuing credentials\<close>

record DbCreds =
  Username :: string
  Password :: string
  DbLeaseID :: string
  AuthLeaseID :: string
  DbTokenID :: string
  PodUUID :: string

record DbCredentialsRequest =
  req_TTL :: string
  req_PodNameUID :: string
  req_Namespace :: string
  req_SecretName :: string
  req_Prefix :: string
  req_ServiceAccount :: string
  SkipOrphanCreation :: bool

text \<open>A response without an \<^verbatim>\<open>Auth\<close> block makes \<^verbatim>\<open>secret.Auth.ClientToken\<close> a nil dereference.\<close>

definition CreateOrphanToken :: "env \<Rightarrow> connector \<Rightarrow> string \<Rightarrow> string list \<Rightarrow> string res io" where
  "CreateOrphanToken E c ttl policies =
     with_client c (\<lambda>cl. do {
       r \<leftarrow> perform (\<lambda>h. e_create_orphan E h cl ttl ''injector-orphan-token'' policies)
             (CreateOrphan cl ttl ''injector-orphan-token'' policies);
       case r of
         Inl err \<Rightarrow> do {
           _ \<leftarrow> metric (Inc OrphanErrorTicketCreatedCount []);
           ret (Err (Wrap err ''failed to create orphan token'')) }
       | Inr sec \<Rightarrow> do {
           _ \<leftarrow> metric (Inc OrphanTicketCreatedCount []);
           ret (case sec_client_token sec of None \<Rightarrow> Panic | Some t \<Rightarrow> Ok t) } })"

text \<open>The first half of \<^verbatim>\<open>GetDbCredentials\<close>: the token that will own the lease.\<close>

definition acquire_token ::
  "env \<Rightarrow> connector \<Rightarrow> DbCredentialsRequest \<Rightarrow> (string res \<times> connector) io" where
  "acquire_token E c req =
     (if SkipOrphanCreation req then ret (Ok (vaultToken c), c)
      else do {
        let policies = [dbRole c];
        r \<leftarrow> CreateOrphanToken E c (req_TTL req) policies;
        case r of
          Ok orphanToken \<Rightarrow>
            (case SetToken c orphanToken of
               Ok c' \<Rightarrow> ret (Ok orphanToken, c')
             | _ \<Rightarrow> ret (Panic, c))
        | _ \<Rightarrow> ret (r, c) })"

text \<open>
  The second half: read the credentials under the connector's token and start the bookkeeping.
  \<^verbatim>\<open>Logical().Read\<close> answers a 404 with a nil secret and no error; \<^verbatim>\<open>secret.Data\<close> then dereferences
  nil.
\<close>

definition read_credentials ::
  "env \<Rightarrow> connector \<Rightarrow> string \<Rightarrow> DbCredentialsRequest \<Rightarrow> DbCreds res io" where
  "read_credentials E c tokenID req =
     with_client c (\<lambda>cl. do {
       let path = Sprintf ''/%s/creds/%s'' [dbMountPath c, dbRole c];
       r \<leftarrow> perform (\<lambda>h. e_read E h cl path) (LogicalRead cl path);
       case r of
         Inl err \<Rightarrow> ret (Err err)
       | Inr None \<Rightarrow> ret Panic
       | Inr (Some sec) \<Rightarrow>
           (case (map_of (sec_data sec) ''username'', map_of (sec_data sec) ''password'') of
              (None, _) \<Rightarrow> ret (Err (Newf ''cannot get username from vault creds response'' []))
            | (_, None) \<Rightarrow> ret (Err (Newf ''cannot get password from vault creds response'' []))
            | (Some (AStr u), Some (AStr p)) \<Rightarrow> do {
                let creds = \<lparr>Username = u, Password = p, DbLeaseID = sec_lease_id sec,
                             AuthLeaseID = '''', DbTokenID = tokenID, PodUUID = ''''\<rparr>;
                let vaultInformation = NewKeyInfo (req_PodNameUID req) (DbLeaseID creds)
                      (DbTokenID creds) (req_Namespace req) (req_ServiceAccount req) '''' '''';
                _ \<leftarrow> StoreDataAsync c vaultInformation (req_SecretName req) (req_Prefix req);
                ret (Ok creds) }
            | (Some (AStr u), Some _) \<Rightarrow>
                ret (Err (Newf ''vault returned non-string %s'' [''password'']))
            | (Some _, Some _) \<Rightarrow>
                ret (Err (Newf ''vault returned non-string %s'' [''username'']))) })"

definition GetDbCredentials ::
  "env \<Rightarrow> connector \<Rightarrow> DbCredentialsRequest \<Rightarrow> (DbCreds res \<times> connector) io" where
  "GetDbCredentials E c req = do {
     t \<leftarrow> acquire_token E c req;
     case t of
       (Ok tokenID, c') \<Rightarrow> do {
         r \<leftarrow> read_credentials E c' tokenID req;
         ret (r, c') }
     | (Err err, c') \<Rightarrow> ret (Err err, c')
     | (Panic, c') \<Rightarrow> ret (Panic, c') }"

section \<open>The period of a token\<close>

text \<open>
  \<^verbatim>\<open>json.Number.Int64\<close> with its error dropped, which is \<^verbatim>\<open>strconv.ParseInt\<close> in base ten: zero for
  anything that is not a number, the nearest bound for a number out of range.
\<close>

fun ParseUint :: "int \<Rightarrow> string \<Rightarrow> int option" where
  "ParseUint n [] = Some n"
| "ParseUint n (c # cs) =
     (if \<not> is_digit c then None
      else if 2 ^ 64 - 1 < n * 10 + digit_val c then Some (2 ^ 64 - 1)
      else ParseUint (n * 10 + digit_val c) cs)"

definition number_Int64 :: "string \<Rightarrow> int" where
  "number_Int64 s =
     (let neg = (s \<noteq> [] \<and> hd s = CHR ''-'');
          ds = (if s \<noteq> [] \<and> (hd s = CHR ''-'' \<or> hd s = CHR ''+'') then tl s else s)
      in if ds = [] then 0
         else (case ParseUint 0 ds of
                 None \<Rightarrow> 0
               | Some un \<Rightarrow> if \<not> neg \<and> 2 ^ 63 \<le> un then 2 ^ 63 - 1
                            else if neg \<and> 2 ^ 63 < un then - (2 ^ 63)
                            else if neg then - un else un))"

definition VerifyTokenPeriod :: "env \<Rightarrow> connector \<Rightarrow> int res io" where
  "VerifyTokenPeriod E c =
     with_client c (\<lambda>cl. do {
       r \<leftarrow> perform (\<lambda>h. e_lookup_self E h cl) (TokenLookupSelf cl);
       case r of
         Inl err \<Rightarrow> ret (Err err)
       | Inr None \<Rightarrow> ret (Ok 0)
       | Inr (Some sec) \<Rightarrow>
           ret (Ok (case map_of (sec_data sec) ''period'' of
                      Some (AJsonNumber v) \<Rightarrow> number_Int64 v
                    | Some (AFloat64 txt i) \<Rightarrow> i
                    | Some (AInt64 i) \<Rightarrow> i
                    | _ \<Rightarrow> 0)) })"

section \<open>Revoking a token by itself\<close>

text \<open>A fresh client carries the token, so the connector's own token is never the one revoked.\<close>

definition RevokeSelfToken :: "env \<Rightarrow> connector \<Rightarrow> string \<Rightarrow> unit res io" where
  "RevokeSelfToken E c tokenID =
     (if tokenID = '''' then ret (Ok ())
      else do {
        n \<leftarrow> NewClient E (address c);
        case n of
          Err err \<Rightarrow> ret (Err (Wrap err ''RevokeSelfToken: build client''))
        | Panic \<Rightarrow> ret Panic
        | Ok _ \<Rightarrow> do {
            let cli = \<lparr>cl_address = address c, cl_token = tokenID\<rparr>;
            let abbrev = (if 8 < length tokenID then take 8 tokenID else tokenID);
            r \<leftarrow> perform (\<lambda>h. e_revoke_self E h cli) (RevokeSelf cli);
            case r of
              Some err \<Rightarrow> do {
                _ \<leftarrow> metric (Inc RevokeTokenErrorCount ['''', '''']);
                ret (Err (Wrap err (Sprintf ''RevokeSelfToken: revoke %s'' [abbrev]))) }
            | None \<Rightarrow> do {
                _ \<leftarrow> metric (Inc RevokeTokenCount ['''']);
                ret (Ok ()) } } })"

section \<open>Calls\<close>

lemma calls_CreateOrphanToken [intro!]:
  "{C_create_orphan, C_metric} \<subseteq> K \<Longrightarrow> calls K (CreateOrphanToken E c ttl policies)"
  unfolding CreateOrphanToken_def
  by (auto split: sum.splits)

lemma calls_acquire_token [intro!]:
  "{C_create_orphan, C_metric} \<subseteq> K \<Longrightarrow> calls K (acquire_token E c req)"
  unfolding acquire_token_def Let_def
  by (auto split: res.splits)

lemma calls_read_credentials [intro!]:
  "{C_read, C_spawn_store} \<subseteq> K \<Longrightarrow> calls K (read_credentials E c tok req)"
  unfolding read_credentials_def Let_def
  by (auto split: sum.splits option.splits any.splits)

lemma calls_GetDbCredentials [intro!]:
  "{C_create_orphan, C_metric, C_read, C_spawn_store} \<subseteq> K \<Longrightarrow> calls K (GetDbCredentials E c req)"
  unfolding GetDbCredentials_def
  by (auto split: res.splits prod.splits)

lemma calls_VerifyTokenPeriod [intro!]: "{C_lookup_self} \<subseteq> K \<Longrightarrow> calls K (VerifyTokenPeriod E c)"
  unfolding VerifyTokenPeriod_def
  by (auto split: sum.splits option.splits)

lemma calls_RevokeSelfToken [intro!]:
  "{C_new_client, C_revoke_self, C_metric} \<subseteq> K \<Longrightarrow> calls K (RevokeSelfToken E c tok)"
  unfolding RevokeSelfToken_def Let_def
  by (auto split: res.splits option.splits)

end
