(* ===== verification/Tokens.thy ===== *)
theory Tokens
  imports Credentials
begin

text \<open>
  The token and lease operations of \<^verbatim>\<open>pkg/vault/handle_token.go\<close>: renewing, revoking, the deletion
  of everything kept for a vanished pod, the renewer's synchronisation cycle and its own token's
  renewal. The goroutines of a cycle share no mutable state but the success flag, so a cycle is
  given twice: \<open>SyncAndCleanupTokens\<close> runs them one after the other in an order \<open>sched\<close>, and
  \<open>sync_concurrent\<close> lets their events interleave in any way.
\<close>

section \<open>Single tokens and leases\<close>

definition isLeaseUnrecoverable :: "goerr option \<Rightarrow> bool" where
  "isLeaseUnrecoverable err =
     (case err of
        None \<Rightarrow> False
      | Some e \<Rightarrow>
          (case as_response_error e of
             None \<Rightarrow> False
           | Some (code, errs) \<Rightarrow>
               if code \<noteq> 400 then False
               else let body = Join errs [CHR 0x0A]
                    in Contains body ''invalid lease'' \<or> Contains body ''could not find role''))"

definition RevokeOrphanToken ::
  "env \<Rightarrow> connector \<Rightarrow> string \<Rightarrow> string \<Rightarrow> string \<Rightarrow> unit res io" where
  "RevokeOrphanToken E c tokenID uuid namespace =
     with_client c (\<lambda>cl. do {
       r \<leftarrow> perform (\<lambda>h. e_revoke_orphan E h cl tokenID) (RevokeOrphan cl tokenID);
       case r of
         Some err \<Rightarrow>
           if Contains (err_msg err) ''token to revoke not found'' then ret (Ok ())
           else do {
             _ \<leftarrow> metric (Inc RevokeTokenErrorCount [uuid, namespace]);
             ret (Err err) }
       | None \<Rightarrow> do {
           _ \<leftarrow> metric (Inc RevokeTokenCount [namespace]);
           _ \<leftarrow> metric (DeleteLabelValues TokenExpirationInTime [uuid, namespace]);
           ret (Ok ()) } })"

text \<open>The clock is read in nanoseconds; \<^verbatim>\<open>Unix\<close> rounds down to seconds.\<close>

definition RenewToken ::
  "env \<Rightarrow> connector \<Rightarrow> string \<Rightarrow> string \<Rightarrow> string \<Rightarrow> int \<Rightarrow> unit res io" where
  "RenewToken E c tokenID uuid namespace renewIncrementSeconds =
     with_client c (\<lambda>cl. do {
       r \<leftarrow> perform (\<lambda>h. e_token_renew E h cl tokenID renewIncrementSeconds)
             (TokenRenew cl tokenID renewIncrementSeconds);
       case r of
         Inl err \<Rightarrow>
           if Contains (err_msg err) ''token not found'' then ret (Ok ())
           else do {
             _ \<leftarrow> metric (Inc RenewTokenErrorCount [uuid, namespace]);
             ret (Err err) }
       | Inr tokenRenew \<Rightarrow> do {
           _ \<leftarrow> metric (Inc RenewTokenCount [uuid, namespace]);
           case sec_token_ttl tokenRenew of
             Inl err \<Rightarrow> ret (Ok ())
           | Inr tokenDuration \<Rightarrow> do {
               currentTime \<leftarrow> perform (e_now E) TimeNow;
               let expirationEpoch = (currentTime + tokenDuration) div 1000000000;
               _ \<leftarrow> metric (Set TokenExpirationInTime [uuid, namespace] expirationEpoch);
               ret (Ok ()) } } })"

definition RenewSelfToken :: "env \<Rightarrow> connector \<Rightarrow> unit res io" where
  "RenewSelfToken E c =
     with_client c (\<lambda>cl. do {
       r \<leftarrow> perform (\<lambda>h. e_token_renew_self E h cl (60 * 60 * 24)) (TokenRenewSelf cl (60 * 60 * 24));
       ret (of_opt r) })"

definition RenewLease ::
  "env \<Rightarrow> connector \<Rightarrow> string \<Rightarrow> int \<Rightarrow> string \<Rightarrow> string \<Rightarrow> unit res io" where
  "RenewLease E c leaseID leaseTTL uuid namespace =
     with_client c (\<lambda>cl. do {
       r \<leftarrow> perform (\<lambda>h. e_sys_renew E h cl leaseID leaseTTL) (SysRenew cl leaseID leaseTTL);
       case r of
         Inl err \<Rightarrow>
           if Contains (err_msg err) ''lease not found'' then ret (Ok ())
           else do {
             _ \<leftarrow> metric (Inc RenewLeaseErrorCount [uuid, namespace]);
             ret (Err err) }
       | Inr answer \<Rightarrow> do {
           _ \<leftarrow> metric (Inc RenewLeaseCount [uuid, namespace]);
           case answer of
             None \<Rightarrow> ret Panic
           | Some sec \<Rightarrow> do {
               let leaseDuration = wrap64 (sec_lease_duration sec * 1000000000);
               currentTime \<leftarrow> perform (e_now E) TimeNow;
               let expirationEpoch = (currentTime + leaseDuration) div 1000000000;
               _ \<leftarrow> metric (Set LeaseExpirationInTime [uuid, namespace] expirationEpoch);
               ret (Ok ()) } } })"

section \<open>A vanished pod\<close>

definition HandlePodDeletionToken ::
  "env \<Rightarrow> connector \<Rightarrow> KeyInfo \<Rightarrow> string \<Rightarrow> string \<Rightarrow> unit res io" where
  "HandlePodDeletionToken E c keysInformation secretName pfx =
     check (RevokeOrphanToken E c (TokenID keysInformation) (PodNameUID keysInformation)
              (ki_Namespace keysInformation)) (\<lambda>_.
     check (DeleteData E c secretName (PodNameUID keysInformation) (ki_Namespace keysInformation) pfx)
       (\<lambda>_. do {
         _ \<leftarrow> metric (DeleteLabelValues LeaseExpirationInTime
               [PodNameUID keysInformation, ki_Namespace keysInformation]);
         _ \<leftarrow> metric (DeleteLabelValues TokenExpirationInTime
               [PodNameUID keysInformation, ki_Namespace keysInformation]);
         ret (Ok ()) }))"

section \<open>The synchronisation cycle\<close>

text \<open>The lookup table: a later pod overwrites the entry of an earlier one.\<close>

definition pod_info_map :: "PodInfo list \<Rightarrow> (string \<times> PodInfo) list" where
  "pod_info_map pods =
     rev (concat (map (\<lambda>pinfo. map (\<lambda>uuid. (uuid, pinfo)) (PodNameUUIDs pinfo)) pods))"

text \<open>
  The body of the goroutine of one entry, from the rate limiter on. The result is \<open>Ok False\<close>
  where the source stores \<^verbatim>\<open>false\<close> in the shared flag.
\<close>

definition purge_unrecoverable ::
  "env \<Rightarrow> connector \<Rightarrow> KeyInfo \<Rightarrow> string \<Rightarrow> string \<Rightarrow> bool res io" where
  "purge_unrecoverable E c ki secretName pfx = do {
     rev_r \<leftarrow> RevokeOrphanToken E c (TokenID ki) (PodNameUID ki) (ki_Namespace ki);
     case rev_r of
       Panic \<Rightarrow> ret Panic
     | _ \<Rightarrow> do {
         del_r \<leftarrow> DeleteData E c secretName (PodNameUID ki) (ki_Namespace ki) pfx;
         case del_r of
           Panic \<Rightarrow> ret Panic
         | Err _ \<Rightarrow> ret (Ok False)
         | Ok _ \<Rightarrow> do {
             _ \<leftarrow> metrics_all (FlushPodSeries (PodNameUID ki) (ki_Namespace ki));
             _ \<leftarrow> metric (DeleteLabelValues DataDeletedCount [PodNameUID ki, ki_Namespace ki]);
             ret (Ok True) } } }"

definition sync_live ::
  "env \<Rightarrow> connector \<Rightarrow> PodInfo \<Rightarrow> KeyInfo \<Rightarrow> string \<Rightarrow> string \<Rightarrow> int \<Rightarrow> bool res io" where
  "sync_live E c pinfo ki secretName pfx increment = do {
     t \<leftarrow> RenewToken E c (TokenID ki) (PodNameUID ki) (ki_Namespace ki) increment;
     case t of
       Panic \<Rightarrow> ret Panic
     | Err _ \<Rightarrow> ret (Ok False)
     | Ok _ \<Rightarrow> do {
         l \<leftarrow> RenewLease E c (LeaseID ki) (86400 * 5) (PodNameUID ki) (ki_Namespace ki);
         case l of
           Panic \<Rightarrow> ret Panic
         | Err err \<Rightarrow>
             if isLeaseUnrecoverable (Some err) then purge_unrecoverable E c ki secretName pfx
             else ret (Ok False)
         | Ok _ \<Rightarrow>
             if ki_ServiceAccount ki = '''' \<or> ki_NodeName ki = '''' \<or> ki_PodName ki = '''' then do {
               let fullyKiInfo = NewKeyInfo (PodNameUID ki) (LeaseID ki) (TokenID ki)
                     (ki_Namespace ki) (ServiceAccountName pinfo) (pi_PodName pinfo) (pi_NodeName pinfo);
               s \<leftarrow> StoreData E c fullyKiInfo secretName (PodNameUID ki) (ki_Namespace ki) pfx;
               case s of Panic \<Rightarrow> ret Panic | _ \<Rightarrow> ret (Ok True) }
             else ret (Ok True) } }"

definition sync_one ::
  "env \<Rightarrow> connector \<Rightarrow> PodInfo list \<Rightarrow> string \<Rightarrow> string \<Rightarrow> int \<Rightarrow> KeyInfo \<Rightarrow> bool res io" where
  "sync_one E c pods secretName pfx increment ki = do {
     w \<leftarrow> perform (e_limiter E) LimiterWait;
     case w of
       Some err \<Rightarrow> ret (Ok False)
     | None \<Rightarrow>
         (case map_of (pod_info_map pods) (PodNameUID ki) of
            Some pinfo \<Rightarrow> sync_live E c pinfo ki secretName pfx increment
          | None \<Rightarrow> do {
              _ \<leftarrow> metrics_all (FlushPodSeries (PodNameUID ki) (ki_Namespace ki));
              ret (Ok True) }) }"

fun sync_all ::
  "env \<Rightarrow> connector \<Rightarrow> PodInfo list \<Rightarrow> string \<Rightarrow> string \<Rightarrow> int \<Rightarrow> KeyInfo list \<Rightarrow> bool res io" where
  "sync_all E c pods secretName pfx increment [] = ret (Ok True)"
| "sync_all E c pods secretName pfx increment (ki # kis) =
     check (sync_one E c pods secretName pfx increment ki) (\<lambda>b1.
     check (sync_all E c pods secretName pfx increment kis) (\<lambda>b2.
     ret (Ok (b1 \<and> b2))))"

definition SyncAndCleanupTokens ::
  "env \<Rightarrow> (KeyInfo list \<Rightarrow> KeyInfo list) \<Rightarrow> connector \<Rightarrow> Config \<Rightarrow> KeyInfo list
   \<Rightarrow> string \<Rightarrow> string \<Rightarrow> int \<Rightarrow> bool res io" where
  "SyncAndCleanupTokens E sched c cfg keysInformations secretName pfx increment = do {
     r \<leftarrow> GetAllPodAndNamespace E cfg;
     case r of
       Ok pods \<Rightarrow> sync_all E c pods secretName pfx increment (sched keysInformations)
     | _ \<Rightarrow> ret (Ok False) }"

text \<open>
  The concurrent reading. What a goroutine sees of the world may depend on everything that the
  others do, so each one runs in a world of its own choice; the trace of the cycle is any
  interleaving of theirs, and the flag is the conjunction of their results.
\<close>

definition goroutine_trace :: "(env \<Rightarrow> 'a io) \<Rightarrow> 'a \<Rightarrow> event list \<Rightarrow> bool" where
  "goroutine_trace m a es \<longleftrightarrow> (\<exists>E h. run_state (m E) h = (a, h @ es))"

inductive sync_concurrent ::
  "connector \<Rightarrow> PodInfo list \<Rightarrow> string \<Rightarrow> string \<Rightarrow> int \<Rightarrow> KeyInfo list \<Rightarrow> bool \<Rightarrow> event list \<Rightarrow> bool"
  for c pods secretName pfx increment kis where
  sync_concurrentI:
  "length tss = length kis \<Longrightarrow> length bs = length kis \<Longrightarrow>
   (\<And>i. i < length kis \<Longrightarrow>
      goroutine_trace (\<lambda>E. sync_one E c pods secretName pfx increment (kis ! i)) (Ok (bs ! i)) (tss ! i)) \<Longrightarrow>
   interleaves tss ts \<Longrightarrow>
   sync_concurrent c pods secretName pfx increment kis (list_all id bs) ts"

inductive_cases sync_concurrentE: "sync_concurrent c pods secretName pfx increment kis b ts"

section \<open>The renewal of the login token\<close>

text \<open>
  One tick of \<^verbatim>\<open>StartTokenRenewal\<close>. When the token cannot be renewed and a new login succeeds, the
  old token is revoked by itself; its failure is only logged.
\<close>

definition renewal_tick :: "env \<Rightarrow> Config \<Rightarrow> connector \<Rightarrow> connector res io" where
  "renewal_tick E cfg c = do {
     r \<leftarrow> RenewSelfToken E c;
     case r of
       Panic \<Rightarrow> ret Panic
     | Ok _ \<Rightarrow> ret (Ok c)
     | Err _ \<Rightarrow> do {
         let oldToken = K8sSaVaultToken c;
         n \<leftarrow> ConnectToVault E cfg (k8sSaToken c);
         case n of
           Panic \<Rightarrow> ret Panic
         | Err _ \<Rightarrow> ret (Ok c)
         | Ok newConn \<Rightarrow>
             (case SetToken (c\<lparr>K8sSaVaultToken := K8sSaVaultToken newConn\<rparr>)
                     (K8sSaVaultToken newConn) of
                Ok c' \<Rightarrow>
                  if oldToken \<noteq> '''' \<and> oldToken \<noteq> K8sSaVaultToken newConn then do {
                    rv \<leftarrow> RevokeSelfToken E c' oldToken;
                    case rv of Panic \<Rightarrow> ret Panic | _ \<Rightarrow> ret (Ok c') }
                  else ret (Ok c')
              | _ \<Rightarrow> ret Panic) } }"

fun renewal_ticks :: "nat \<Rightarrow> env \<Rightarrow> Config \<Rightarrow> connector \<Rightarrow> connector res io" where
  "renewal_ticks 0 E cfg c = ret (Ok c)"
| "renewal_ticks (Suc n) E cfg c =
     check (renewal_tick E cfg c) (renewal_ticks n E cfg)"

section \<open>Calls\<close>

lemma calls_RevokeOrphanToken [intro!]:
  "{C_revoke_orphan, C_metric} \<subseteq> K \<Longrightarrow> calls K (RevokeOrphanToken E c tok u n)"
  unfolding RevokeOrphanToken_def
  by (auto split: option.splits)

lemma calls_RenewToken [intro!]:
  "{C_token_renew, C_now, C_metric} \<subseteq> K \<Longrightarrow> calls K (RenewToken E c tok u n inc)"
  unfolding RenewToken_def Let_def
  by (auto split: sum.splits)

lemma calls_RenewSelfToken [intro!]: "{C_token_renew_self} \<subseteq> K \<Longrightarrow> calls K (RenewSelfToken E c)"
  unfolding RenewSelfToken_def
  by auto

lemma calls_RenewLease [intro!]:
  "{C_sys_renew, C_now, C_metric} \<subseteq> K \<Longrightarrow> calls K (RenewLease E c l ttl u n)"
  unfolding RenewLease_def Let_def
  by (auto split: sum.splits option.splits)

lemma calls_HandlePodDeletionToken [intro!]:
  "{C_revoke_orphan, C_kv_delete, C_kv_delete_metadata, C_metric} \<subseteq> K \<Longrightarrow>
   calls K (HandlePodDeletionToken E c ki s pfx)"
  unfolding HandlePodDeletionToken_def
  by auto

lemma calls_purge_unrecoverable [intro!]:
  "{C_revoke_orphan, C_kv_delete, C_kv_delete_metadata, C_metric} \<subseteq> K \<Longrightarrow>
   calls K (purge_unrecoverable E c ki s pfx)"
  unfolding purge_unrecoverable_def
  by (auto split: res.splits)

lemma calls_renewal_tick [intro!]:
  "{C_token_renew_self, C_new_client, C_k8s_auth, C_login, C_revoke_self, C_metric} \<subseteq> K \<Longrightarrow>
   calls K (renewal_tick E cfg c)"
  unfolding renewal_tick_def Let_def
  by (auto split: res.splits)

section \<open>What the operations emit\<close>

definition revoked_or_gone :: "goerr option \<Rightarrow> bool" where
  "revoked_or_gone r =
     (case r of None \<Rightarrow> True | Some err \<Rightarrow> Contains (err_msg err) ''token to revoke not found'')"

definition deleted_or_gone :: "goerr option \<Rightarrow> bool" where
  "deleted_or_gone r = (case r of None \<Rightarrow> True | Some err \<Rightarrow> isNotFound err)"

lemma revoked_or_gone_simps [simp]:
  "revoked_or_gone None"
  "revoked_or_gone (Some err) = Contains (err_msg err) ''token to revoke not found''"
  by (simp_all add: revoked_or_gone_def)

lemma deleted_or_gone_simps [simp]:
  "deleted_or_gone None" "deleted_or_gone (Some err) = isNotFound err"
  by (simp_all add: deleted_or_gone_def)

lemma emits_RevokeOrphanToken:
  "emits (RevokeOrphanToken E c tok u n) (\<lambda>r es.
     (\<forall>e \<in> set es. call_of e \<in> {C_revoke_orphan, C_metric}) \<and>
     (\<forall>cl t rr. RevokeOrphan cl t rr \<in> set es \<longrightarrow> t = tok) \<and>
     (r = Ok () \<longrightarrow> (\<exists>cl rr. client c = Some cl \<and> RevokeOrphan cl tok rr \<in> set es \<and> revoked_or_gone rr)))"
  unfolding RevokeOrphanToken_def
  by (intro emits_intro) (auto split: option.splits intro!: emits_intro)

lemma emits_DeleteData:
  "emits (DeleteData E c s u n pfx) (\<lambda>r es.
     (\<forall>e \<in> set es. call_of e \<in> {C_kv_delete, C_kv_delete_metadata, C_metric}) \<and>
     (r = Ok () \<longleftrightarrow> (\<exists>cl d m. client c = Some cl \<and> deleted_or_gone d \<and> deleted_or_gone m \<and>
        es = [KvDelete cl s (kv_full_path pfx u) d, KvDeleteMetadata cl s (kv_full_path pfx u) m,
              Metric (Inc DataDeletedCount [u, n])])) \<and>
     (\<forall>cl s' path d. KvDelete cl s' path d \<in> set es \<longrightarrow> s' = s \<and> path = kv_full_path pfx u))"
  unfolding DeleteData_def Let_def
  by (intro emits_intro) (auto split: option.splits intro!: emits_intro)

lemma emits_DeleteData_after:
  "emits (DeleteData E c s u n pfx) (\<lambda>r es.
     (\<forall>e \<in> set es. call_of e \<in> {C_kv_delete, C_kv_delete_metadata, C_metric}) \<and>
     (r = Ok () \<longrightarrow> (\<exists>cl d m. client c = Some cl \<and> deleted_or_gone d \<and> deleted_or_gone m \<and>
        KvDelete cl s (kv_full_path pfx u) d \<in> set es \<and>
        KvDeleteMetadata cl s (kv_full_path pfx u) m \<in> set es)))"
  by (rule emits_conseq [OF emits_DeleteData]) auto

text \<open>A removed entry: its token is revoked or gone, and so are both parts of it in the KV engine.\<close>

definition entry_removed :: "string \<Rightarrow> string \<Rightarrow> KeyInfo \<Rightarrow> event list \<Rightarrow> bool" where
  "entry_removed s pfx ki es \<longleftrightarrow> (\<exists>cl rr d m. revoked_or_gone rr \<and> deleted_or_gone d \<and> deleted_or_gone m \<and>
     {RevokeOrphan cl (TokenID ki) rr, KvDelete cl s (kv_full_path pfx (PodNameUID ki)) d,
      KvDeleteMetadata cl s (kv_full_path pfx (PodNameUID ki)) m} \<subseteq> set es)"

lemma entry_removed_mono: "entry_removed s pfx ki es \<Longrightarrow> set es \<subseteq> set ts \<Longrightarrow> entry_removed s pfx ki ts"
  unfolding entry_removed_def by (meson subset_trans)

lemma emits_HandlePodDeletionToken_removed:
  "emits (HandlePodDeletionToken E c ki s pfx) (\<lambda>r es. r = Ok () \<longrightarrow> entry_removed s pfx ki es)"
  unfolding HandlePodDeletionToken_def entry_removed_def
  apply (rule emits_check, rule emits_conseq [OF emits_RevokeOrphanToken])
  apply (split res.split, intro conjI allI impI)
    apply (rule emits_check, rule emits_conseq [OF emits_DeleteData_after])
    apply (split res.split, intro conjI allI impI)
      apply (intro emits_intro)
      apply (auto; blast)
  by simp_all

text \<open>
  C1. A vanished pod: the KV entry is touched only after Vault has revoked the entry's token or
  said that it is gone, and the operation succeeds only if the token is revoked and both parts
  of the entry are deleted (or were already). So no token loses its bookkeeping while it lives.
\<close>

theorem HandlePodDeletionToken_order:
  "emits (HandlePodDeletionToken E c ki s pfx) (\<lambda>r es.
     preceded (\<lambda>e. \<exists>cl rr. e = RevokeOrphan cl (TokenID ki) rr \<and> revoked_or_gone rr)
       (\<lambda>e. call_of e \<in> {C_kv_delete, C_kv_delete_metadata}) es \<and>
     (r = Ok () \<longrightarrow> entry_removed s pfx ki es))"
proof (rule emits_conj [OF _ emits_HandlePodDeletionToken_removed])
  let ?P = "\<lambda>e. \<exists>cl rr. e = RevokeOrphan cl (TokenID ki) rr \<and> revoked_or_gone rr"
  let ?Q = "\<lambda>e. call_of e \<in> {C_kv_delete, C_kv_delete_metadata}"
  show "emits (HandlePodDeletionToken E c ki s pfx) (\<lambda>r es. preceded ?P ?Q es)"
    unfolding HandlePodDeletionToken_def
    apply (rule emits_check, rule emits_conseq [OF emits_RevokeOrphanToken])
    apply (split res.split, intro conjI allI impI)
    subgoal
      by (rule emits_any) (auto intro!: preceded_guard)
    by (rule preceded_none; auto)+
qed

text \<open>
  Answers that settle a renewal: success, or the message that Vault gives for something the
  revoker has removed in the meantime.
\<close>

definition token_ok :: "goerr + secret \<Rightarrow> bool" where
  "token_ok a = (case a of Inr _ \<Rightarrow> True | Inl err \<Rightarrow> Contains (err_msg err) ''token not found'')"

definition lease_ok :: "goerr + secret option \<Rightarrow> bool" where
  "lease_ok b = (case b of Inr _ \<Rightarrow> True | Inl err \<Rightarrow> Contains (err_msg err) ''lease not found'')"

lemma token_lease_ok_simps [simp]:
  "token_ok (Inr x)" "token_ok (Inl err) = Contains (err_msg err) ''token not found''"
  "lease_ok (Inr y)" "lease_ok (Inl err) = Contains (err_msg err) ''lease not found''"
  by (simp_all add: token_ok_def lease_ok_def)

lemma emits_RenewToken:
  "emits (RenewToken E c tok u n inc) (\<lambda>r es.
     (\<forall>e \<in> set es. call_of e \<in> {C_token_renew, C_now, C_metric}) \<and>
     (r = Ok () \<longrightarrow> (\<exists>cl a. token_ok a \<and> TokenRenew cl tok inc a \<in> set es)))"
  unfolding RenewToken_def Let_def
  by (intro emits_intro) (auto split: sum.splits intro!: emits_intro)

lemma emits_RenewLease:
  "emits (RenewLease E c l ttl u n) (\<lambda>r es.
     (\<forall>e \<in> set es. call_of e \<in> {C_sys_renew, C_now, C_metric}) \<and>
     (r = Ok () \<longrightarrow> (\<exists>cl b. lease_ok b \<and> SysRenew cl l ttl b \<in> set es)) \<and>
     (\<forall>err. r = Err err \<longrightarrow> (\<exists>cl. SysRenew cl l ttl (Inl err) \<in> set es)))"
  unfolding RenewLease_def Let_def
  by (intro emits_intro) (auto split: sum.splits option.splits intro!: emits_intro)

text \<open>What justifies that the renewer removes something.\<close>

definition unrecoverable_answer :: "KeyInfo \<Rightarrow> event \<Rightarrow> bool" where
  "unrecoverable_answer ki e \<longleftrightarrow> (\<exists>cl err. e = SysRenew cl (LeaseID ki) (86400 * 5) (Inl err) \<and>
     isLeaseUnrecoverable (Some err))"

definition removal :: "event \<Rightarrow> bool" where
  "removal e \<longleftrightarrow> call_of e \<in> {C_revoke_orphan, C_revoke_self, C_kv_delete, C_kv_delete_metadata}"

text \<open>The arguments of the removals in the goroutine of one entry.\<close>

definition removes_only :: "KeyInfo \<Rightarrow> string \<Rightarrow> string \<Rightarrow> event \<Rightarrow> bool" where
  "removes_only ki s pfx e =
     (case e of
        RevokeOrphan cl tok rr \<Rightarrow> tok = TokenID ki
      | KvDelete cl s' path d \<Rightarrow> s' = s \<and> path = kv_full_path pfx (PodNameUID ki)
      | KvDeleteMetadata cl s' path d \<Rightarrow> s' = s \<and> path = kv_full_path pfx (PodNameUID ki)
      | RevokeSelf cl rr \<Rightarrow> False
      | _ \<Rightarrow> True)"

lemma removes_only_simps [simp]:
  "removes_only ki s pfx (RevokeOrphan cl tok rr) = (tok = TokenID ki)"
  "removes_only ki s pfx (KvDelete cl s' path d) = (s' = s \<and> path = kv_full_path pfx (PodNameUID ki))"
  "removes_only ki s pfx (KvDeleteMetadata cl s' path d) = (s' = s \<and> path = kv_full_path pfx (PodNameUID ki))"
  "removes_only ki s pfx (Metric op)" "removes_only ki s pfx (TokenRenew cl tok inc a)"
  "removes_only ki s pfx (SysRenew cl l ttl b)" "removes_only ki s pfx (LimiterWait w)"
  "removes_only ki s pfx (TimeNow t)" "removes_only ki s pfx (KvPut cl s' path data r)"
  "\<not> removes_only ki s pfx (RevokeSelf cl r)"
  by (simp_all add: removes_only_def)

lemma only_removes_sync_one: "only {e. removes_only ki s pfx e} (sync_one E c pods s pfx inc ki)"
  unfolding sync_one_def sync_live_def purge_unrecoverable_def RenewToken_def RenewLease_def
    RevokeOrphanToken_def DeleteData_def StoreData_def Let_def
  by (auto split: option.splits res.splits sum.splits)

lemma calls_sync_live [intro!]:
  "{C_token_renew, C_sys_renew, C_now, C_revoke_orphan, C_kv_delete, C_kv_delete_metadata,
    C_kv_put, C_metric} \<subseteq> K \<Longrightarrow> calls K (sync_live E c pinfo ki s pfx inc)"
  unfolding sync_live_def
  by (auto simp: Let_def split: option.splits res.splits)

lemma calls_sync_one [intro!]:
  "{C_limiter, C_token_renew, C_sys_renew, C_now, C_revoke_orphan, C_kv_delete,
    C_kv_delete_metadata, C_kv_put, C_metric} \<subseteq> K \<Longrightarrow> calls K (sync_one E c pods s pfx inc ki)"
  unfolding sync_one_def
  by (auto split: option.splits)

lemma calls_sync_all [intro!]:
  "{C_limiter, C_token_renew, C_sys_renew, C_now, C_revoke_orphan, C_kv_delete,
    C_kv_delete_metadata, C_kv_put, C_metric} \<subseteq> K \<Longrightarrow> calls K (sync_all E c pods s pfx inc kis)"
  by (induction kis) auto

lemma calls_SyncAndCleanupTokens [intro!]:
  "{C_list_pods, C_limiter, C_token_renew, C_sys_renew, C_now, C_revoke_orphan, C_kv_delete,
    C_kv_delete_metadata, C_kv_put, C_metric} \<subseteq> K \<Longrightarrow>
   calls K (SyncAndCleanupTokens E sched c cfg kis s pfx inc)"
  unfolding SyncAndCleanupTokens_def
  by (auto split: res.splits)

lemma preceded_sync_live:
  "emits (sync_live E c pinfo ki s pfx inc) (\<lambda>r es. preceded (unrecoverable_answer ki) removal es)"
  unfolding sync_live_def Let_def
  apply (rule emits_bind, rule emits_conseq [OF emits_RenewToken])
  apply (split res.split, intro conjI allI impI)
    apply (rule emits_bind, rule emits_conseq [OF emits_RenewLease])
    apply (split res.split, intro conjI allI impI)
  subgoal for _ t _ _ l
    by (rule emits_calls [where K = "{C_kv_put, C_metric}"])
      (auto split: res.splits simp: removal_def preceded_append intro!: preceded_none)
  subgoal
    by (auto simp: removal_def unrecoverable_answer_def preceded_append
        intro!: preceded_none emits_any emits_intro)
  by (intro emits_intro, rule preceded_none, auto simp: removal_def)+

text \<open>
  A purged entry: a revocation of its token was sent, whatever came back, and both parts of it in the
  KV engine are deleted or were gone.
\<close>

definition purged :: "KeyInfo \<Rightarrow> string \<Rightarrow> string \<Rightarrow> event list \<Rightarrow> bool" where
  "purged ki s pfx es \<longleftrightarrow> (\<exists>cl rr d m. deleted_or_gone d \<and> deleted_or_gone m \<and>
     {RevokeOrphan cl (TokenID ki) rr, KvDelete cl s (kv_full_path pfx (PodNameUID ki)) d,
      KvDeleteMetadata cl s (kv_full_path pfx (PodNameUID ki)) m} \<subseteq> set es)"

text \<open>
  What a successful cycle has done for a live entry: its token is renewed or gone, and its lease is
  renewed, gone, or unrecoverable, in which case the entry is purged.
\<close>

definition settled :: "KeyInfo \<Rightarrow> string \<Rightarrow> string \<Rightarrow> int \<Rightarrow> event list \<Rightarrow> bool" where
  "settled ki s pfx inc es \<longleftrightarrow>
     (\<exists>cl a. token_ok a \<and> TokenRenew cl (TokenID ki) inc a \<in> set es) \<and>
     ((\<exists>cl b. lease_ok b \<and> SysRenew cl (LeaseID ki) (86400 * 5) b \<in> set es) \<or>
      (\<exists>e. unrecoverable_answer ki e \<and> e \<in> set es) \<and> purged ki s pfx es)"

lemma purged_mono: "purged ki s pfx es \<Longrightarrow> set es \<subseteq> set ts \<Longrightarrow> purged ki s pfx ts"
  unfolding purged_def by (meson subset_trans)

lemma emits_RevokeOrphan_sent:
  "emits (RevokeOrphanToken E c tok u n) (\<lambda>r es. \<forall>cl. client c = Some cl \<longrightarrow> (\<exists>rr. RevokeOrphan cl tok rr \<in> set es))"
  unfolding RevokeOrphanToken_def
  by (intro emits_intro) (auto split: option.splits intro!: emits_intro)

lemma emits_purge_ok:
  "emits (purge_unrecoverable E c ki s pfx) (\<lambda>r es. r = Ok True \<longrightarrow> purged ki s pfx es)"
proof -
  have rest: "emits (do {
      del_r \<leftarrow> DeleteData E c s (PodNameUID ki) (ki_Namespace ki) pfx;
      case del_r of Panic \<Rightarrow> ret Panic | Err _ \<Rightarrow> ret (Ok False)
      | Ok _ \<Rightarrow> do {
          _ \<leftarrow> metrics_all (FlushPodSeries (PodNameUID ki) (ki_Namespace ki));
          _ \<leftarrow> metric (DeleteLabelValues DataDeletedCount [PodNameUID ki, ki_Namespace ki]);
          ret (Ok True) } }) (\<lambda>r es'. r = Ok True \<longrightarrow> purged ki s pfx (es @ es'))"
    if "\<forall>cl. client c = Some cl \<longrightarrow> (\<exists>rr. RevokeOrphan cl (TokenID ki) rr \<in> set es)" for es
    apply (rule emits_bind, rule emits_conseq [OF emits_DeleteData_after])
    apply (split res.split, intro conjI allI impI)
      apply (rule emits_any, (auto)[1])
    subgoal
      using that by (auto simp: purged_def) blast
     apply (intro emits_intro, simp)+
    done
  show ?thesis
    unfolding purge_unrecoverable_def
    apply (rule emits_bind, rule emits_conseq [OF emits_RevokeOrphan_sent])
    apply (split res.split, intro conjI allI impI)
      apply (rule rest, assumption)+
    apply (rule emits_return, simp)
    done
qed

lemma settled_sync_live:
  "emits (sync_live E c pinfo ki s pfx inc) (\<lambda>r es. r = Ok True \<longrightarrow> settled ki s pfx inc es)"
  unfolding sync_live_def Let_def
  apply (rule emits_bind, rule emits_conseq [OF emits_RenewToken])
  apply (split res.split, intro conjI allI impI)
    apply (rule emits_bind, rule emits_conseq [OF emits_RenewLease])
    apply (split res.split, intro conjI allI impI)
      apply (rule emits_any, (auto split: res.splits)[1])
      apply (auto simp: settled_def)[1]
     apply (split if_split, intro conjI impI)
      apply (rule emits_conseq [OF emits_purge_ok])
      apply (auto simp: settled_def unrecoverable_answer_def elim: purged_mono)[1]
     apply (intro emits_intro, simp)
    apply (intro emits_intro, simp)
   apply (intro emits_intro, simp)
  apply (intro emits_intro, simp)
  done

text \<open>The UUIDs of the pods that exist.\<close>

definition all_uuids :: "PodInfo list \<Rightarrow> string set" where
  "all_uuids pods = (\<Union>pinfo \<in> set pods. set (PodNameUUIDs pinfo))"

lemma map_of_pod_info_map: "map_of (pod_info_map pods) u \<noteq> None \<longleftrightarrow> u \<in> all_uuids pods"
proof -
  have "map_of (pod_info_map pods) u \<noteq> None \<longleftrightarrow> u \<in> fst ` set (pod_info_map pods)"
    by (simp add: map_of_eq_None_iff)
  also have "\<dots> \<longleftrightarrow> u \<in> all_uuids pods"
    by (force simp: pod_info_map_def all_uuids_def)
  finally show ?thesis .
qed

lemma preceded_sync_one:
  "emits (sync_one E c pods s pfx inc ki) (\<lambda>r es.
     preceded (\<lambda>e. PodNameUID ki \<in> all_uuids pods \<and> unrecoverable_answer ki e) removal es)"
  unfolding sync_one_def
  apply (intro emits_intro)
  apply (split option.split, intro conjI allI impI)
   apply (split option.split, intro conjI allI impI)
    apply (intro emits_intro)
    apply (auto simp: removal_def FlushPodSeries_def)[1]
  subgoal for w pinfo
    using map_of_pod_info_map [of pods "PodNameUID ki"]
    by (auto intro!: emits_conseq [OF preceded_sync_live] simp: removal_def)
  apply (intro emits_intro, simp add: removal_def)
  done

lemma settled_mono: "settled ki s pfx inc es \<Longrightarrow> set es \<subseteq> set ts \<Longrightarrow> settled ki s pfx inc ts"
  unfolding settled_def by (meson subsetD purged_mono)

lemma settled_sync_one:
  "emits (sync_one E c pods s pfx inc ki) (\<lambda>r es.
     r = Ok True \<and> PodNameUID ki \<in> all_uuids pods \<longrightarrow> settled ki s pfx inc es)"
  unfolding sync_one_def
  apply (intro emits_intro)
  apply (split option.split, intro conjI allI impI)
   apply (split option.split, intro conjI allI impI)
    apply (intro emits_intro)
  subgoal
    using map_of_pod_info_map [of pods "PodNameUID ki"] by auto
  subgoal
    by (rule emits_conseq [OF settled_sync_live]) (auto intro: settled_mono)
  apply (intro emits_intro, simp)
  done

lemma goroutine_trace_emits:
  "goroutine_trace m a es \<Longrightarrow> (\<And>E. emits (m E) P) \<Longrightarrow> P a es"
  unfolding goroutine_trace_def emits_def by (metis fst_conv same_append_eq snd_conv)

text \<open>The event of a concurrent cycle comes from one of its goroutines, whose trace it contains.\<close>

lemma sync_concurrent_parts:
  assumes "sync_concurrent c pods s pfx inc kis b ts"
  obtains tss bs where "length tss = length kis" "length bs = length kis" "b = list_all id bs"
    "\<And>i. i < length kis \<Longrightarrow>
      goroutine_trace (\<lambda>E. sync_one E c pods s pfx inc (kis ! i)) (Ok (bs ! i)) (tss ! i)"
    "\<And>i. i < length kis \<Longrightarrow> set (tss ! i) \<subseteq> set ts"
    "\<And>e. e \<in> set ts \<Longrightarrow> \<exists>i < length kis. e \<in> set (tss ! i)"
  using assms
proof (induction rule: sync_concurrent.induct)
  case (sync_concurrentI tss bs ts)
  have ts: "set ts = (\<Union>xs \<in> set tss. set xs)"
    by (rule interleaves_set [OF sync_concurrentI.hyps(4)])
  show ?case
  proof (rule sync_concurrentI.prems [of tss bs])
    show "set (tss ! i) \<subseteq> set ts" if "i < length kis" for i
      using that sync_concurrentI.hyps(1) ts by auto
    show "\<exists>i < length kis. e \<in> set (tss ! i)" if "e \<in> set ts" for e
      using that sync_concurrentI.hyps(1) ts by (metis UN_E in_set_conv_nth)
  qed (use sync_concurrentI.hyps in \<open>auto simp: id_def\<close>)
qed

text \<open>
  C2. However the goroutines of a renewer cycle interleave: whatever the cycle removes (a token
  in Vault, a KV entry) belongs to one of the listed entries whose pod still exists, and Vault
  has declared that entry's lease unrecoverable during this cycle. The renewer never revokes
  for a pod that is gone; that stays the revoker's job.
\<close>

theorem sync_removals_justified:
  assumes "sync_concurrent c pods s pfx inc kis b ts" and "e \<in> set ts" and "removal e"
  shows "\<exists>ki \<in> set kis. PodNameUID ki \<in> all_uuids pods \<and> removes_only ki s pfx e \<and>
           (\<exists>a \<in> set ts. unrecoverable_answer ki a)"
proof -
  obtain i r es where i: "i < length kis" "e \<in> set es" "set es \<subseteq> set ts"
    and g: "goroutine_trace (\<lambda>E. sync_one E c pods s pfx inc (kis ! i)) (Ok r) es"
    using sync_concurrent_parts [OF assms(1)] assms(2) by metis
  let ?ki = "kis ! i"
  have "preceded (\<lambda>e. PodNameUID ?ki \<in> all_uuids pods \<and> unrecoverable_answer ?ki e) removal es"
    using goroutine_trace_emits [OF g preceded_sync_one] by simp
  moreover obtain us vs where "es = us @ e # vs"
    using i(2) by (auto simp: in_set_conv_decomp)
  ultimately obtain a where "a \<in> set es" "PodNameUID ?ki \<in> all_uuids pods" "unrecoverable_answer ?ki a"
    using assms(3) unfolding preceded_iff by (metis UnCI set_append)
  moreover have "\<forall>e \<in> set es. removes_only ?ki s pfx e"
    using goroutine_trace_emits [OF g only_removes_sync_one [unfolded only_def]] by auto
  ultimately show ?thesis
    using i by (meson nth_mem subsetD)
qed

text \<open>
  C3. When a cycle reports success, every listed entry whose pod exists is settled: its token has been
  renewed by the configured increment or Vault said that there is no such token, and its lease has
  been renewed by five days, or Vault said that there is no such lease, or it declared the lease
  unrecoverable; then a revocation of the token was sent and both parts of the entry are deleted (or
  were gone).
\<close>

theorem sync_success_settles:
  assumes "sync_concurrent c pods s pfx inc kis True ts" and "ki \<in> set kis"
    and "PodNameUID ki \<in> all_uuids pods"
  shows "settled ki s pfx inc ts"
proof -
  obtain i where i: "i < length kis" "ki = kis ! i"
    using assms(2) by (auto simp: in_set_conv_nth)
  obtain r es where g: "goroutine_trace (\<lambda>E. sync_one E c pods s pfx inc (kis ! i)) (Ok r) es"
    and "set es \<subseteq> set ts" "r"
    using sync_concurrent_parts [OF assms(1)] i(1) by (metis (full_types) id_apply list_all_length)
  with goroutine_trace_emits [OF g settled_sync_one] assms(3) i(2) show ?thesis
    by (auto intro: settled_mono)
qed

section \<open>The login token\<close>

definition logged_in :: "string \<Rightarrow> event list \<Rightarrow> bool" where
  "logged_in tok es \<longleftrightarrow> (\<exists>a p role jwt. AuthLogin a p role jwt (Inr tok) \<in> set es)"

lemma logged_in_append [simp]: "logged_in tok (xs @ ys) \<longleftrightarrow> logged_in tok xs \<or> logged_in tok ys"
  by (auto simp: logged_in_def)

text \<open>\<open>retired\<close>: a revocation of the token was sent, or no client could be built to send it.\<close>

definition retired :: "string \<Rightarrow> event list \<Rightarrow> bool" where
  "retired tok es \<longleftrightarrow> (\<exists>cl rr. RevokeSelf cl rr \<in> set es \<and> cl_token cl = tok) \<or>
     (\<exists>a err. NewVaultClient a (Some err) \<in> set es)"

lemma retired_append [simp]: "retired tok (xs @ ys) \<longleftrightarrow> retired tok xs \<or> retired tok ys"
  by (auto simp: retired_def)

lemma emits_RevokeSelfToken:
  "emits (RevokeSelfToken E c tok) (\<lambda>r es. r \<noteq> Panic \<and> (tok = '''' \<or> retired tok es) \<and>
     (\<forall>e \<in> set es. \<forall>cl rr. e = RevokeSelf cl rr \<longrightarrow> cl_token cl = tok \<and> tok \<noteq> ''''))"
proof (cases "tok = ''''")
  case False
  show ?thesis
    unfolding RevokeSelfToken_def NewClient_def retired_def Let_def if_not_P [OF False]
    by (intro emits_intro) (auto simp: False split: res.splits option.splits intro!: emits_intro)
qed (simp add: RevokeSelfToken_def emits_return)

lemma emits_Login_token:
  "emits (Login E c) (\<lambda>r es. \<forall>c'. r = Ok c' \<longrightarrow> logged_in (vaultToken c') es \<and>
     (\<exists>cl. client c' = Some cl \<and> cl_token cl = vaultToken c'))"
  unfolding Login_def NewClient_def
  by (intro emits_intro)
    (auto simp: logged_in_def split: res.splits option.splits sum.splits intro!: emits_intro)

lemma emits_ConnectToVault:
  "emits (ConnectToVault E cfg tok) (\<lambda>r es.
     (\<forall>e \<in> set es. call_of e \<in> {C_new_client, C_k8s_auth, C_login, C_metric}) \<and>
     (\<forall>c. r = Ok c \<longrightarrow> (\<exists>cl. client c = Some cl \<and> cl_token cl = vaultToken c \<and>
        K8sSaVaultToken c = vaultToken c \<and>
        logged_in (vaultToken c) es)))"
proof (rule emits_conj)
  show "emits (ConnectToVault E cfg tok) (\<lambda>r es.
     \<forall>e \<in> set es. call_of e \<in> {C_new_client, C_k8s_auth, C_login, C_metric})"
    by (rule emits_calls [where K = "{C_new_client, C_k8s_auth, C_login, C_metric}"]) auto
  show "emits (ConnectToVault E cfg tok) (\<lambda>r es.
     \<forall>c. r = Ok c \<longrightarrow> (\<exists>cl. client c = Some cl \<and> cl_token cl = vaultToken c \<and>
        K8sSaVaultToken c = vaultToken c \<and>
        logged_in (vaultToken c) es))"
    unfolding ConnectToVault_def Let_def
    apply (rule emits_bind, rule emits_conseq [OF emits_Login_token])
    apply (split res.split, intro conjI allI impI)
      apply (intro emits_intro, auto)[1]
     apply (intro emits_intro, simp)
    apply (intro emits_intro, simp)
    done
qed

definition conn_ok :: "connector \<Rightarrow> bool" where
  "conn_ok c \<longleftrightarrow> (\<exists>cl. client c = Some cl \<and> cl_token cl = vaultToken c) \<and>
     K8sSaVaultToken c = vaultToken c"

lemma SetToken_adopt:
  "SetToken (c\<lparr>K8sSaVaultToken := t\<rparr>) t = Ok c' \<Longrightarrow> conn_ok c' \<and> K8sSaVaultToken c' = t"
  by (auto simp: SetToken_def conn_ok_def split: option.splits)

text \<open>
  C9. A tick of the login token's renewal keeps the connector consistent: its client, its token
  and its bookkeeping token agree. It changes the token only to the answer of a new login, the
  old token is then retired, and the token in use is never the one revoked.
\<close>

theorem renewal_tick_keeps_token:
  "emits (renewal_tick E cfg c) (\<lambda>r es. \<forall>c'. r = Ok c' \<longrightarrow>
     (conn_ok c \<longrightarrow> conn_ok c') \<and>
     (K8sSaVaultToken c' \<noteq> K8sSaVaultToken c \<longrightarrow>
        logged_in (K8sSaVaultToken c') es \<and>
        (K8sSaVaultToken c = '''' \<or> retired (K8sSaVaultToken c) es)) \<and>
     (\<forall>cl rr. RevokeSelf cl rr \<in> set es \<longrightarrow>
        cl_token cl = K8sSaVaultToken c \<and> cl_token cl \<noteq> K8sSaVaultToken c'))"
  unfolding renewal_tick_def Let_def
  apply (rule emits_bind)
  apply (rule emits_calls [where K = "{C_token_renew_self}"], blast)
  apply (split res.split, intro conjI allI impI)
    apply (intro emits_intro, auto)[1]
   apply (rule emits_bind, rule emits_conseq [OF emits_ConnectToVault])
   apply (split res.split, intro conjI allI impI)
     apply (split res.split, intro conjI allI impI)
       apply (split if_split, intro conjI impI)
        apply (rule emits_bind, rule emits_conseq [OF emits_RevokeSelfToken])
        apply (split res.split, intro conjI allI impI)
          apply (intro emits_intro, drule SetToken_adopt, (auto)[1])
         apply (intro emits_intro, drule SetToken_adopt, (auto)[1])
        apply simp
       apply (intro emits_intro, drule SetToken_adopt, (auto)[1])
      apply (intro emits_intro, auto)[1]
     apply (intro emits_intro, auto)[1]
    apply (intro emits_intro, auto)[1]
   apply (intro emits_intro, auto)[1]
  apply (intro emits_intro, auto)[1]
  done

section \<open>Unrecoverable leases\<close>

text \<open>
  A lease counts as unrecoverable exactly when the error holds a Vault response with status
  400 one of whose messages has one of the two texts. Joining the messages by newlines, as the
  code does, neither hides nor invents a match, and no other status ever matches.
\<close>

lemma isLeaseUnrecoverable_iff:
  "isLeaseUnrecoverable err \<longleftrightarrow>
     (\<exists>e errs msg. err = Some e \<and> as_response_error e = Some (400, errs) \<and> msg \<in> set errs \<and>
        (Contains msg ''invalid lease'' \<or> Contains msg ''could not find role''))"
  by (auto simp: isLeaseUnrecoverable_def Contains_Join Let_def split: option.splits if_splits)

section \<open>Examples\<close>

definition demo_connector :: connector where
  "demo_connector =
     (NewConnector ''http://vault'' ''k8s'' ''renewer'' ''databases'' ''ro'' ''jwt'' 30)
       \<lparr>client := Some \<lparr>cl_address = ''http://vault'', cl_token = ''own''\<rparr>, vaultToken := ''own'',
        K8sSaVaultToken := ''own''\<rparr>"

definition demo_info :: KeyInfo where
  "demo_info = NewKeyInfo ''u1'' ''l1'' ''t1'' ''ns'' ''app'' ''p1'' ''node''"

text \<open>The database role has been deleted in Vault.\<close>

definition role_gone_env :: env where
  "role_gone_env = calm_env\<lparr>e_sys_renew := \<lambda>h cl l i.
     Inl (ResponseError 400 [''could not find role ro''] ''Code: 400'')\<rparr>"

lemma interleaves_single: "interleaves [ts] ts"
  by (induction ts) (auto intro: interleaves.intros)

lemma sync_concurrent_single:
  assumes "run_state (sync_one E c pods s pfx inc ki) [] = (Ok b, ts)"
  shows "sync_concurrent c pods s pfx inc [ki] b ts"
proof -
  have "goroutine_trace (\<lambda>E. sync_one E c pods s pfx inc ki) (Ok b) ts"
    using assms unfolding goroutine_trace_def by (intro exI [of _ E] exI [of _ "[]"]) simp
  then show ?thesis
    using sync_concurrentI [of "[ts]" "[ki]" "[b]" c pods s pfx inc ts]
    by (simp add: interleaves_single)
qed

definition demo_trace :: "event list" where
  "demo_trace =
     snd (run_state (sync_one role_gone_env demo_connector [pod_info calm_pod] ''kv'' ''creds'' 60 demo_info) [])"

lemma demo_sync:
  "sync_concurrent demo_connector [pod_info calm_pod] ''kv'' ''creds'' 60 [demo_info] True demo_trace"
  by (rule sync_concurrent_single [of role_gone_env]) code_simp

lemma HandlePodDeletionToken_order_witness:
  "\<exists>cl rr d m. revoked_or_gone rr \<and> deleted_or_gone d \<and> deleted_or_gone m \<and>
     {RevokeOrphan cl ''t1'' rr, KvDelete cl ''kv'' ''creds/u1'' d, KvDeleteMetadata cl ''kv'' ''creds/u1'' m}
     \<subseteq> set (snd (run_state (HandlePodDeletionToken calm_env demo_connector demo_info ''kv'' ''creds'') []))"
proof -
  have 1: "fst (run_state (HandlePodDeletionToken calm_env demo_connector demo_info ''kv'' ''creds'') []) = Ok ()"
    by code_simp
  have 2: "kv_full_path ''creds'' (PodNameUID demo_info) = ''creds/u1''" "TokenID demo_info = ''t1''"
    by code_simp+
  show ?thesis
    using emits_run [OF HandlePodDeletionToken_order
        [of calm_env demo_connector demo_info "''kv''" "''creds''"]] 1 unfolding entry_removed_def 2 by blast
qed

lemma sync_removals_justified_witness:
  "\<exists>ki \<in> set [demo_info]. PodNameUID ki \<in> all_uuids [pod_info calm_pod] \<and>
     removes_only ki ''kv'' ''creds'' (KvDelete \<lparr>cl_address = ''http://vault'', cl_token = ''own''\<rparr> ''kv'' ''creds/u1'' None) \<and>
     (\<exists>a \<in> set demo_trace. unrecoverable_answer ki a)"
proof (rule sync_removals_justified [OF demo_sync])
  show "KvDelete \<lparr>cl_address = ''http://vault'', cl_token = ''own''\<rparr> ''kv'' ''creds/u1'' None \<in> set demo_trace"
    by code_simp
  show "removal (KvDelete \<lparr>cl_address = ''http://vault'', cl_token = ''own''\<rparr> ''kv'' ''creds/u1'' None)"
    by (simp add: removal_def)
qed

lemma sync_success_settles_witness: "settled demo_info ''kv'' ''creds'' 60 demo_trace"
proof (rule sync_success_settles [OF demo_sync])
  have "PodNameUID demo_info \<in> set (PodNameUUIDs (pod_info calm_pod))"
    by code_simp
  then show "PodNameUID demo_info \<in> all_uuids [pod_info calm_pod]"
    by (simp add: all_uuids_def)
qed simp

text \<open>The login token cannot be renewed any more; a new login gets another one.\<close>

definition expired_env :: env where
  "expired_env = calm_env\<lparr>e_token_renew_self := \<lambda>h cl i. Some (Newf ''permission denied'' [])\<rparr>"

lemma renewal_tick_keeps_token_witness:
  "retired ''own'' (snd (run_state (renewal_tick expired_env default_config demo_connector) []))"
proof -
  obtain c' where c': "fst (run_state (renewal_tick expired_env default_config demo_connector) []) = Ok c'"
    "K8sSaVaultToken c' = ''tok-''"
  proof -
    have "case fst (run_state (renewal_tick expired_env default_config demo_connector) []) of
        Ok c' \<Rightarrow> K8sSaVaultToken c' = ''tok-'' | _ \<Rightarrow> False"
      by code_simp
    then show thesis
      using that by (auto split: res.splits)
  qed
  moreover have "K8sSaVaultToken demo_connector = ''own''"
    by code_simp
  ultimately show ?thesis
    using emits_run [OF renewal_tick_keeps_token [of expired_env default_config demo_connector]] by auto
qed

end
