(* ===== verification/Renewer.thy ===== *)
theory Renewer
  imports Tokens "HOL-Library.AList"
begin

text \<open>
  Package \<^verbatim>\<open>pkg/renewer\<close>: the job that keeps issued tokens and leases alive. \<open>RenewTokenJob\<close> runs
  over the list of things that wake it up: its own ticker, the ticker of the goroutine that
  renews the login token, and the stop channel.
\<close>

section \<open>Metric series of vanished pods\<close>

text \<open>The tracked map (UUID to namespace) is an association list in the order \<^verbatim>\<open>range\<close> visits it.\<close>

definition next_tracked :: "KeyInfo list \<Rightarrow> (string \<times> string) list" where
  "next_tracked current =
     fold (\<lambda>ki m. AList.update (PodNameUID ki) (ki_Namespace ki) m) current []"

definition flushVanished ::
  "(string \<times> string) list \<Rightarrow> KeyInfo list \<Rightarrow> metric_op list \<times> (string \<times> string) list" where
  "flushVanished prev current =
     (let nxt = next_tracked current
      in (concat (map (\<lambda>(uuid, namespace).
             if map_of nxt uuid = None then FlushPodSeries uuid namespace else []) prev), nxt))"

section \<open>One synchronisation\<close>

definition syncToken ::
  "env \<Rightarrow> (any list \<Rightarrow> any list) \<Rightarrow> (KeyInfo list \<Rightarrow> KeyInfo list) \<Rightarrow> Config \<Rightarrow> connector
   \<Rightarrow> (string \<times> string) list \<Rightarrow> (bool res \<times> (string \<times> string) list) io" where
  "syncToken E lsched sched cfg vaultConn tracked = do {
     l \<leftarrow> ListKeyInfo E lsched vaultConn (VaultSecretName cfg) (VaultSecretPrefix cfg);
     case l of
       Panic \<Rightarrow> ret (Panic, tracked)
     | Err err \<Rightarrow> ret (Err err, tracked)
     | Ok (keyInfos, err) \<Rightarrow> do {
         tracked' \<leftarrow> (case err of
             Some e \<Rightarrow> do {
               _ \<leftarrow> metric (Inc SynchronizationErrorCount []);
               ret tracked }
           | None \<Rightarrow> do {
               _ \<leftarrow> metrics_all (fst (flushVanished tracked keyInfos));
               ret (snd (flushVanished tracked keyInfos)) });
         if keyInfos = [] then ret (Ok False, tracked')
         else (case TokenTTLSeconds cfg of
             Ok renewIncrementSeconds \<Rightarrow> do {
               r \<leftarrow> SyncAndCleanupTokens E sched vaultConn cfg keyInfos (VaultSecretName cfg)
                     (VaultSecretPrefix cfg) renewIncrementSeconds;
               case r of
                 Ok True \<Rightarrow> ret (Ok True, tracked')
               | Ok False \<Rightarrow> do {
                   _ \<leftarrow> metric (Inc SynchronizationErrorCount []);
                   ret (Ok False, tracked') }
               | _ \<Rightarrow> ret (Panic, tracked') }
           | _ \<Rightarrow> do {
               _ \<leftarrow> metric (Inc SynchronizationErrorCount []);
               ret (Ok False, tracked') }) } }"

text \<open>The body of the ticker case. Durations are observed in nanoseconds.\<close>

definition sync_tick ::
  "env \<Rightarrow> (any list \<Rightarrow> any list) \<Rightarrow> (KeyInfo list \<Rightarrow> KeyInfo list) \<Rightarrow> Config \<Rightarrow> connector
   \<Rightarrow> (string \<times> string) list \<Rightarrow> (string \<times> string) list res io" where
  "sync_tick E lsched sched cfg vaultConn tracked = do {
     startTime \<leftarrow> perform (e_now E) TimeNow;
     r \<leftarrow> syncToken E lsched sched cfg vaultConn tracked;
     case r of
       (Panic, _) \<Rightarrow> ret Panic
     | (res, tracked') \<Rightarrow> do {
         _ \<leftarrow> (if res = Ok True then do {
                 now \<leftarrow> perform (e_now E) TimeNow;
                 metric (Set LastTokenSynchronizationSuccess [] (now div 1000000000)) }
               else ret ());
         _ \<leftarrow> metric (Inc SynchronizationCount []);
         endTime \<leftarrow> perform (e_now E) TimeNow;
         _ \<leftarrow> metric (Observe LastSynchronizationDuration (endTime - startTime));
         ret (Ok tracked') } }"

section \<open>The job\<close>

datatype renewer_wakeup = SyncTick | RenewTick | StopSignal

fun renewer_loop ::
  "env \<Rightarrow> (any list \<Rightarrow> any list) \<Rightarrow> (KeyInfo list \<Rightarrow> KeyInfo list) \<Rightarrow> Config
   \<Rightarrow> renewer_wakeup list \<Rightarrow> connector \<Rightarrow> (string \<times> string) list \<Rightarrow> connector res io" where
  "renewer_loop E lsched sched cfg [] c tracked = ret (Ok c)"
| "renewer_loop E lsched sched cfg (SyncTick # ws) c tracked =
     check (sync_tick E lsched sched cfg c tracked) (renewer_loop E lsched sched cfg ws c)"
| "renewer_loop E lsched sched cfg (RenewTick # ws) c tracked =
     check (renewal_tick E cfg c) (\<lambda>c'. renewer_loop E lsched sched cfg ws c' tracked)"
| "renewer_loop E lsched sched cfg (StopSignal # ws) c tracked = do {
     r \<leftarrow> RevokeSelfToken E c (K8sSaVaultToken c);
     case r of Panic \<Rightarrow> ret Panic | _ \<Rightarrow> ret (Ok c) }"

text \<open>An error before the loop ends the process.\<close>

definition RenewTokenJob ::
  "env \<Rightarrow> (any list \<Rightarrow> any list) \<Rightarrow> (KeyInfo list \<Rightarrow> KeyInfo list) \<Rightarrow> Config
   \<Rightarrow> renewer_wakeup list \<Rightarrow> connector res io" where
  "RenewTokenJob E lsched sched cfg ws =
     check (GetServiceAccountToken E) (\<lambda>saToken.
     check (ConnectAndRenew E cfg saToken) (\<lambda>vaultConn.
     renewer_loop E lsched sched cfg ws vaultConn []))"

end
