(* ===== verification/Revoker.thy ===== *)
theory Revoker
  imports Tokens
begin

text \<open>
  Package \<^verbatim>\<open>pkg/revoker\<close>: the job that revokes what a deleted pod has left. It reacts to deletions
  reported by the Kubernetes watch and compares, every five minutes, the KV entries with the
  pods that exist.
\<close>

section \<open>The periodic comparison\<close>

text \<open>A failed deletion is logged and the loop goes on.\<close>

fun cleanup_orphans ::
  "env \<Rightarrow> connector \<Rightarrow> Config \<Rightarrow> string set \<Rightarrow> KeyInfo list \<Rightarrow> unit res io" where
  "cleanup_orphans E c cfg podUUIDs [] = ret (Ok ())"
| "cleanup_orphans E c cfg podUUIDs (ki # kis) =
     (if PodNameUID ki \<in> podUUIDs then cleanup_orphans E c cfg podUUIDs kis
      else do {
        r \<leftarrow> HandlePodDeletionToken E c ki (VaultSecretName cfg) (VaultSecretPrefix cfg);
        case r of
          Panic \<Rightarrow> ret Panic
        | _ \<Rightarrow> cleanup_orphans E c cfg podUUIDs kis })"

definition safetyNetSync ::
  "env \<Rightarrow> (any list \<Rightarrow> any list) \<Rightarrow> Config \<Rightarrow> connector \<Rightarrow> unit res io" where
  "safetyNetSync E lsched cfg vaultConn =
     check (ListKeyInfo E lsched vaultConn (VaultSecretName cfg) (VaultSecretPrefix cfg))
       (\<lambda>(keyInfos, err).
         if keyInfos = [] then ret (Ok ())
         else do {
           r \<leftarrow> GetAllPodAndNamespace E cfg;
           case r of
             Ok pods \<Rightarrow> cleanup_orphans E vaultConn cfg (all_uuids pods) keyInfos
           | _ \<Rightarrow> ret (Ok ()) })"

section \<open>A deletion seen by the watch\<close>

text \<open>The loop over the pod's UUIDs; the result says whether all of them went well.\<close>

fun revoke_uuids ::
  "env \<Rightarrow> connector \<Rightarrow> Config \<Rightarrow> string list \<Rightarrow> bool \<Rightarrow> bool res io" where
  "revoke_uuids E c cfg [] allOK = ret (Ok allOK)"
| "revoke_uuids E c cfg (uuid # uuids) allOK = do {
     k \<leftarrow> GetKeyInfo E c uuid (VaultSecretName cfg) (VaultSecretPrefix cfg);
     case k of
       Panic \<Rightarrow> ret Panic
     | Err err \<Rightarrow>
         if err_is err KeyNotFound then revoke_uuids E c cfg uuids allOK
         else do {
           _ \<leftarrow> metric (Inc PodCleanupErrorCount []);
           revoke_uuids E c cfg uuids False }
     | Ok keyInformation \<Rightarrow> do {
         r \<leftarrow> HandlePodDeletionToken E c keyInformation (VaultSecretName cfg) (VaultSecretPrefix cfg);
         case r of
           Panic \<Rightarrow> ret Panic
         | Err _ \<Rightarrow> do {
             _ \<leftarrow> metric (Inc PodCleanupErrorCount []);
             revoke_uuids E c cfg uuids False }
         | Ok _ \<Rightarrow> revoke_uuids E c cfg uuids allOK } }"

definition handle_deleted :: "env \<Rightarrow> connector \<Rightarrow> Config \<Rightarrow> pod \<Rightarrow> unit res io" where
  "handle_deleted E c cfg p =
     (case map_of (pod_annotations p) ANNOTATION_VAULT_POD_UUID of
        None \<Rightarrow> ret (Ok ())
      | Some uuidsString \<Rightarrow>
          check (revoke_uuids E c cfg (Split uuidsString CHR '','') True) (\<lambda>allOK. do {
            _ \<leftarrow> (if allOK then metric (Inc PodCleanupSuccessCount []) else ret ());
            ret (Ok ()) }))"

section \<open>The job\<close>

text \<open>
  What wakes the job up. \<open>WatchClosed\<close> carries the answer of the restarted watch: when it fails
  the job's context is cancelled, as it is by \<open>StopSignal\<close>, the closed stop channel; \<open>ContextDone\<close>
  is a cancellation from outside. \<open>LoginTick\<close> belongs to the goroutine of \<^verbatim>\<open>ConnectAndRenew\<close>.
\<close>

datatype revoker_wakeup =
    SafetyTick
  | LoginTick
  | PodDeleted pod
  | OtherWatchEvent
  | WatchClosed "goerr option"
  | StopSignal
  | ContextDone

text \<open>The label selector of the watch; it is that of the periodic listing.\<close>

definition startWatchingPods :: "Config \<Rightarrow> (string \<Rightarrow> goerr option) \<Rightarrow> goerr option" where
  "startWatchingPods cfg watch = watch (Sprintf ''%s=true'' [InjectorLabel cfg])"

text \<open>
  When the first watch fails its goroutine returns, and nobody listens to the watch or to the stop
  channel any more; the ticks and the context stay.
\<close>

fun heard :: "goerr option \<Rightarrow> revoker_wakeup \<Rightarrow> bool" where
  "heard (Some err) (PodDeleted p) = False"
| "heard (Some err) OtherWatchEvent = False"
| "heard (Some err) (WatchClosed r) = False"
| "heard (Some err) StopSignal = False"
| "heard _ _ = True"

definition stop_revoker :: "env \<Rightarrow> connector \<Rightarrow> connector res io" where
  "stop_revoker E c = do {
     r \<leftarrow> RevokeSelfToken E c (K8sSaVaultToken c);
     case r of Panic \<Rightarrow> ret Panic | _ \<Rightarrow> ret (Ok c) }"

fun revoker_loop ::
  "env \<Rightarrow> (any list \<Rightarrow> any list) \<Rightarrow> Config \<Rightarrow> revoker_wakeup list \<Rightarrow> connector \<Rightarrow> connector res io" where
  "revoker_loop E lsched cfg [] c = ret (Ok c)"
| "revoker_loop E lsched cfg (SafetyTick # ws) c =
     check (safetyNetSync E lsched cfg c) (\<lambda>_. revoker_loop E lsched cfg ws c)"
| "revoker_loop E lsched cfg (LoginTick # ws) c =
     check (renewal_tick E cfg c) (\<lambda>c'. revoker_loop E lsched cfg ws c')"
| "revoker_loop E lsched cfg (PodDeleted p # ws) c =
     check (handle_deleted E c cfg p) (\<lambda>_. revoker_loop E lsched cfg ws c)"
| "revoker_loop E lsched cfg (OtherWatchEvent # ws) c = revoker_loop E lsched cfg ws c"
| "revoker_loop E lsched cfg (WatchClosed None # ws) c = revoker_loop E lsched cfg ws c"
| "revoker_loop E lsched cfg (WatchClosed (Some err) # ws) c = stop_revoker E c"
| "revoker_loop E lsched cfg (StopSignal # ws) c = stop_revoker E c"
| "revoker_loop E lsched cfg (ContextDone # ws) c = stop_revoker E c"

definition RevokeTokenJob ::
  "env \<Rightarrow> (any list \<Rightarrow> any list) \<Rightarrow> Config \<Rightarrow> (string \<Rightarrow> goerr option) \<Rightarrow> revoker_wakeup list
   \<Rightarrow> connector res io" where
  "RevokeTokenJob E lsched cfg watch ws =
     check (GetServiceAccountToken E) (\<lambda>saToken.
     check (ConnectAndRenew E cfg saToken) (\<lambda>vaultConn.
     revoker_loop E lsched cfg (filter (heard (startWatchingPods cfg watch)) ws) vaultConn))"

lemma stop_unheard:
  assumes "watch (InjectorLabel cfg @ ''=true'') = Some err"
  shows "RevokeTokenJob E lsched cfg watch (ws @ StopSignal # ws') = RevokeTokenJob E lsched cfg watch (ws @ ws')"
  using assms by (simp add: RevokeTokenJob_def startWatchingPods_def)

end
