(* ===== verification/Bookkeeping_Cache.thy ===== *)
theory Bookkeeping_Cache
  imports Tokens
begin

text \<open>
  File \<^verbatim>\<open>pkg/vault/bookkeeping_cache.go\<close>: the cache of the injector's own Vault login token, by
  Vault role. \<open>Get\<close> is one call, with both of its looks at the map: before and inside the
  single-flight slot. The cache is a Go map, given as a HOL map, and is returned updated.
\<close>

section \<open>The cache\<close>

record cacheEntry =
  ce_token :: string
  ce_expiresAt :: int

type_synonym BookkeepingTokenCache = "string \<rightharpoonup> cacheEntry"

definition NewBookkeepingTokenCache :: BookkeepingTokenCache where
  "NewBookkeepingTokenCache = Map.empty"

text \<open>Times are in nanoseconds.\<close>

definition minute :: int where "minute = 60 * 1000000000"

definition refresh_margin :: int where "refresh_margin = 5 * minute"

definition cache_ttl :: int where "cache_ttl = 30 * minute"

text \<open>One look at the map; the clock is read only when there is an entry.\<close>

definition valid_entry :: "env \<Rightarrow> BookkeepingTokenCache \<Rightarrow> string \<Rightarrow> string option io" where
  "valid_entry E entries role =
     (case entries role of
        None \<Rightarrow> ret None
      | Some e \<Rightarrow> do {
          now \<leftarrow> perform (e_now E) TimeNow;
          ret (if refresh_margin < ce_expiresAt e - now then Some (ce_token e) else None) })"

definition Get ::
  "env \<Rightarrow> Config \<Rightarrow> BookkeepingTokenCache \<Rightarrow> string \<Rightarrow> string
   \<Rightarrow> (string res \<times> BookkeepingTokenCache) io" where
  "Get E cfg entries k8s_sa_token kube_role = do {
     let role = (if kube_role = '''' then KubeRole cfg else kube_role);
     fast \<leftarrow> valid_entry E entries role;
     case fast of
       Some tok \<Rightarrow> ret (Ok tok, entries)
     | None \<Rightarrow> do {
         again \<leftarrow> valid_entry E entries role;
         case again of
           Some tok \<Rightarrow> ret (Ok tok, entries)
         | None \<Rightarrow> do {
             r \<leftarrow> LoginAsInjectorSA E cfg k8s_sa_token role;
             case r of
               Ok tok \<Rightarrow> do {
                 now \<leftarrow> perform (e_now E) TimeNow;
                 ret (Ok tok, entries(role \<mapsto> \<lparr>ce_token = tok, ce_expiresAt = now + cache_ttl\<rparr>)) }
             | Err err \<Rightarrow> ret (Err err, entries)
             | Panic \<Rightarrow> ret (Panic, entries) } } }"

section \<open>Calls\<close>

lemma calls_valid_entry [intro!]: "{C_now} \<subseteq> K \<Longrightarrow> calls K (valid_entry E m role)"
  unfolding valid_entry_def
  by (auto split: option.splits)

lemma calls_Get [intro!]:
  "{C_now, C_new_client, C_k8s_auth, C_login} \<subseteq> K \<Longrightarrow> calls K (Get E cfg m tok role)"
  unfolding Get_def Let_def
  by (auto split: option.splits res.splits)

end
