(* ===== verification/Net_Url.thy ===== *)
theory Net_Url
  imports Config
begin

text \<open>
  The part of Go's \<^verbatim>\<open>net/url\<close> that the URI mode rests on: \<^verbatim>\<open>Parse\<close>, \<^verbatim>\<open>UserPassword\<close> and \<^verbatim>\<open>URL.String\<close>,
  with the escaping tables of RFC 3986 as the standard library has them. The webhook parses a
  DSN template, replaces its user information and prints it; the plugin parses the printed DSN
  back.
\<close>

section \<open>Escaping\<close>

datatype encoding = encodePath | encodeHost | encodeZone | encodeUserPassword | encodeFragment

definition is_alnum :: "char \<Rightarrow> bool" where
  "is_alnum c = ((CHR ''a'' \<le> c \<and> c \<le> CHR ''z'') \<or> (CHR ''A'' \<le> c \<and> c \<le> CHR ''Z'') \<or> is_digit c)"

definition shouldEscape :: "char \<Rightarrow> encoding \<Rightarrow> bool" where
  "shouldEscape c mode =
     (if is_alnum c then False
      else if (mode = encodeHost \<or> mode = encodeZone) \<and>
              c \<in> set ''!$&'' \<union> {CHR 0x27} \<union> set ''()*+,;=:[]<>'' \<union> {CHR 0x22} then False
      else if c \<in> set ''-_.~'' then False
      else if c \<in> set ''$&+,/:;=?@'' \<and> mode = encodePath then c = CHR ''?''
      else if c \<in> set ''$&+,/:;=?@'' \<and> mode = encodeUserPassword then c \<in> set ''@/?:''
      else if c \<in> set ''$&+,/:;=?@'' \<and> mode = encodeFragment then False
      else if mode = encodeFragment \<and> c \<in> set ''!()*'' then False
      else True)"

definition ishex :: "char \<Rightarrow> bool" where
  "ishex c = (is_digit c \<or> (CHR ''a'' \<le> c \<and> c \<le> CHR ''f'') \<or> (CHR ''A'' \<le> c \<and> c \<le> CHR ''F''))"

definition unhex :: "char \<Rightarrow> nat" where
  "unhex c = (if is_digit c then of_char c - 48
              else if CHR ''a'' \<le> c then of_char c - 87 else of_char c - 55)"

definition upperhex :: "nat \<Rightarrow> char" where
  "upperhex n = (if n < 10 then char_of (48 + n) else char_of (55 + n))"

definition escape :: "string \<Rightarrow> encoding \<Rightarrow> string" where
  "escape s mode = concat (map (\<lambda>c.
     if shouldEscape c mode
     then [CHR ''%'', upperhex (of_char c div 16), upperhex (of_char c mod 16)] else [c]) s)"

text \<open>
  \<open>unescape\<close> fails on a malformed escape and, in a host, on an escape of an ASCII character
  other than the percent sign and on an ASCII character that should have been escaped.
\<close>

fun unescape :: "string \<Rightarrow> encoding \<Rightarrow> string option" where
  "unescape [] mode = Some []"
| "unescape (c # cs) mode =
     (if c = CHR ''%'' then
        (case cs of
           a # b # rest \<Rightarrow>
             if \<not> ishex a \<or> \<not> ishex b then None
             else if mode = encodeHost \<and> unhex a < 8 \<and> \<not> (a = CHR ''2'' \<and> b = CHR ''5'') then None
             else if mode = encodeZone \<and> \<not> (a = CHR ''2'' \<and> b = CHR ''5'') \<and>
                     char_of (16 * unhex a + unhex b) \<noteq> CHR '' '' \<and>
                     shouldEscape (char_of (16 * unhex a + unhex b)) encodeHost then None
             else map_option ((#) (char_of (16 * unhex a + unhex b))) (unescape rest mode)
         | _ \<Rightarrow> None)
      else if (mode = encodeHost \<or> mode = encodeZone) \<and> (of_char c :: nat) < 128 \<and> shouldEscape c mode
      then None
      else map_option ((#) c) (unescape cs mode))"

text \<open>\<open>validEncoded\<close>: can a stored raw form be printed as it is?\<close>

definition validEncoded :: "string \<Rightarrow> encoding \<Rightarrow> bool" where
  "validEncoded s mode = list_all (\<lambda>c.
     c \<in> set ''!$&'' \<union> {CHR 0x27} \<union> set ''()*+,;=:@[]%'' \<or> \<not> shouldEscape c mode) s"

section \<open>Hosts\<close>

text \<open>\<^verbatim>\<open>strings.Cut\<close> at the first separator; \<open>cut_last\<close> at the last.\<close>

definition cut :: "char \<Rightarrow> string \<Rightarrow> string \<times> string" where
  "cut sep s = (takeWhile (\<lambda>c. c \<noteq> sep) s, tl (dropWhile (\<lambda>c. c \<noteq> sep) s))"

definition cut_last :: "char \<Rightarrow> string \<Rightarrow> (string \<times> string) option" where
  "cut_last sep s =
     (if sep \<notin> set s then None
      else Some (rev (tl (dropWhile (\<lambda>c. c \<noteq> sep) (rev s))), rev (takeWhile (\<lambda>c. c \<noteq> sep) (rev s))))"

definition validOptionalPort :: "string \<Rightarrow> bool" where
  "validOptionalPort port =
     (case port of [] \<Rightarrow> True | c # ds \<Rightarrow> c = CHR '':'' \<and> list_all is_digit ds)"

text \<open>Addresses in brackets: what \<^verbatim>\<open>netip.ParseAddr\<close> accepts as an IPv6 address.\<close>

definition valid_ipv4_field :: "string \<Rightarrow> bool" where
  "valid_ipv4_field f =
     (f \<noteq> [] \<and> list_all is_digit f \<and> length f \<le> 3 \<and> (1 < length f \<longrightarrow> hd f \<noteq> CHR ''0'') \<and>
      foldl (\<lambda>n c. n * 10 + digit_val c) 0 f \<le> 255)"

definition valid_ipv4 :: "string \<Rightarrow> bool" where
  "valid_ipv4 s = (length (Split s CHR ''.'') = 4 \<and> list_all valid_ipv4_field (Split s CHR ''.''))"

text \<open>\<open>ipv6_groups n ell s\<close>: \<open>n\<close> groups of 16 bits have been read, \<open>ell\<close> says whether a double colon has.\<close>

function ipv6_groups :: "nat \<Rightarrow> bool \<Rightarrow> string \<Rightarrow> bool" where
  "ipv6_groups n ell s =
     (if 8 \<le> n then False
      else let g = takeWhile ishex s; rest = dropWhile ishex s
           in if g = [] then False
              else if rest \<noteq> [] \<and> hd rest = CHR ''.'' then
                length g \<le> 4 \<and> (ell \<or> n = 6) \<and> n + 2 \<le> 8 \<and> valid_ipv4 s \<and> (ell \<longleftrightarrow> n + 2 < 8)
              else if 4 < length g then False
              else (case rest of
                      [] \<Rightarrow> ell \<longleftrightarrow> n + 1 < 8
                    | [c] \<Rightarrow> False
                    | c # d # ds \<Rightarrow>
                        if c \<noteq> CHR '':'' then False
                        else if d = CHR '':'' then
                          (if ell then False else if ds = [] then n + 1 < 8
                           else ipv6_groups (n + 1) True ds)
                        else ipv6_groups (n + 1) ell (d # ds)))"
  by pat_completeness auto
termination
proof (relation "measure (\<lambda>(n, ell, s). 8 - n)", goal_cases)
qed auto

declare ipv6_groups.simps [simp del]

definition valid_ipv6 :: "string \<Rightarrow> bool" where
  "valid_ipv6 s =
     (let (addr, zone) = cut CHR ''%'' s
      in if CHR ''%'' \<in> set s \<and> zone = [] then False
         else if \<not> (\<exists>c \<in> set s. c = CHR '':'') then False
         else if take 2 addr = ''::'' then (drop 2 addr = [] \<or> ipv6_groups 0 True (drop 2 addr))
         else ipv6_groups 0 False addr)"

text \<open>The position of \<^verbatim>\<open>%25\<close>, where a zone begins.\<close>

fun cut_zone :: "string \<Rightarrow> (string \<times> string) option" where
  "cut_zone [] = None"
| "cut_zone (c # cs) =
     (if take 3 (c # cs) = ''%25'' then Some ([], c # cs)
      else map_option (\<lambda>(a, b). (c # a, b)) (cut_zone cs))"

definition unescape_literal :: "string \<Rightarrow> string option" where
  "unescape_literal hostname =
     (case cut_zone hostname of
        None \<Rightarrow> unescape hostname encodeHost
      | Some (h, z) \<Rightarrow>
          (case (unescape h encodeHost, unescape z encodeZone) of
             (Some h', Some z') \<Rightarrow> Some (h' @ z')
           | _ \<Rightarrow> None))"

text \<open>
  A host outside brackets may hold one colon, before the port; for the two PostgreSQL schemes
  the last of several colons is the port's.
\<close>

definition parseHost :: "string \<Rightarrow> string \<Rightarrow> string option" where
  "parseHost scheme host =
     (case cut_last CHR ''['' host of
        Some (front, inside) \<Rightarrow>
          if front \<noteq> [] then None
          else (case cut_last CHR '']'' inside of
                  None \<Rightarrow> None
                | Some (hostname, colonPort) \<Rightarrow>
                    if \<not> validOptionalPort colonPort then None
                    else (case (unescape_literal hostname, unescape colonPort encodeHost) of
                            (Some h, Some port) \<Rightarrow>
                              if valid_ipv6 h then Some (''['' @ h @ '']'' @ port) else None
                          | _ \<Rightarrow> None))
      | None \<Rightarrow>
          if CHR '':'' \<in> set host \<and>
             \<not> validOptionalPort
                 (if scheme = ''postgres'' \<or> scheme = ''postgresql''
                  then CHR '':'' # snd (the (cut_last CHR '':'' host))
                  else dropWhile (\<lambda>c. c \<noteq> CHR '':'') host) then None
          else unescape host encodeHost)"

section \<open>Parsing\<close>

text \<open>User information: a name, and a password when one is set.\<close>

type_synonym Userinfo = "string \<times> string option"

record URL =
  u_Scheme :: string
  u_Opaque :: string
  u_User :: "Userinfo option"
  u_Host :: string
  u_Path :: string
  u_RawPath :: string
  u_OmitHost :: bool
  u_ForceQuery :: bool
  u_RawQuery :: string
  u_Fragment :: string
  u_RawFragment :: string

definition empty_URL :: URL where
  "empty_URL =
    \<lparr>u_Scheme = [], u_Opaque = [], u_User = None, u_Host = [], u_Path = [], u_RawPath = [],
     u_OmitHost = False, u_ForceQuery = False, u_RawQuery = [], u_Fragment = [],
     u_RawFragment = []\<rparr>"

text \<open>\<open>getScheme\<close>: the scheme and the rest; no scheme is the empty string, \<open>None\<close> is an error.\<close>

definition scheme_char :: "char \<Rightarrow> bool" where
  "scheme_char c = (is_alnum c \<or> c \<in> set ''+-.'')"

definition getScheme :: "string \<Rightarrow> (string \<times> string) option" where
  "getScheme s =
     (let pre = takeWhile scheme_char s; rest = dropWhile scheme_char s
      in if s \<noteq> [] \<and> hd s = CHR '':'' then None
         else if pre \<noteq> [] \<and> is_alnum (hd pre) \<and> \<not> is_digit (hd pre) \<and> rest \<noteq> [] \<and> hd rest = CHR '':''
         then Some (pre, tl rest) else Some ([], s))"

definition validUserinfo :: "string \<Rightarrow> bool" where
  "validUserinfo s = list_all (\<lambda>c. is_alnum c \<or>
     c \<in> set ''-._:~!$&'' \<union> {CHR 0x27} \<union> set ''()*+,;=%@'') s"

definition parseUserinfo :: "string \<Rightarrow> Userinfo option" where
  "parseUserinfo userinfo =
     (if \<not> validUserinfo userinfo then None
      else if CHR '':'' \<notin> set userinfo
      then map_option (\<lambda>n. (n, None)) (unescape userinfo encodeUserPassword)
      else let (name, pw) = cut CHR '':'' userinfo
           in case (unescape name encodeUserPassword, unescape pw encodeUserPassword) of
                (Some n, Some p) \<Rightarrow> Some (n, Some p)
              | _ \<Rightarrow> None)"

definition parseAuthority :: "string \<Rightarrow> string \<Rightarrow> (Userinfo option \<times> string) option" where
  "parseAuthority scheme authority =
     (case cut_last CHR ''@'' authority of
        None \<Rightarrow> map_option (\<lambda>h. (None, h)) (parseHost scheme authority)
      | Some (userinfo, host) \<Rightarrow>
          (case (parseHost scheme host, parseUserinfo userinfo) of
             (Some h, Some ui) \<Rightarrow> Some (Some ui, h)
           | _ \<Rightarrow> None))"

definition setPath :: "string \<Rightarrow> URL \<Rightarrow> URL option" where
  "setPath p u =
     (case unescape p encodePath of
        None \<Rightarrow> None
      | Some path \<Rightarrow>
          Some (u\<lparr>u_Path := path, u_RawPath := (if p = escape path encodePath then [] else p)\<rparr>))"

definition setFragment :: "string \<Rightarrow> URL \<Rightarrow> URL option" where
  "setFragment f u =
     (case unescape f encodeFragment of
        None \<Rightarrow> None
      | Some frag \<Rightarrow>
          Some (u\<lparr>u_Fragment := frag, u_RawFragment := (if f = escape frag encodeFragment then [] else f)\<rparr>))"

text \<open>Everything before the fragment: the query is cut off, then the authority, and the rest is the path.\<close>

definition cut_query :: "string \<Rightarrow> URL \<Rightarrow> string \<times> URL" where
  "cut_query rest u =
     (if suffix ''?'' rest \<and> CHR ''?'' \<notin> set (butlast rest)
      then (butlast rest, u\<lparr>u_ForceQuery := True\<rparr>)
      else (fst (cut CHR ''?'' rest), u\<lparr>u_RawQuery := snd (cut CHR ''?'' rest)\<rparr>))"

definition parse_hier :: "string \<Rightarrow> URL \<Rightarrow> URL option" where
  "parse_hier rest u =
     (if take 1 rest \<noteq> ''/'' \<and> u_Scheme u \<noteq> [] then Some (u\<lparr>u_Opaque := rest\<rparr>)
      else if take 1 rest \<noteq> ''/'' \<and> CHR '':'' \<in> set (fst (cut CHR ''/'' rest)) then None
      else if (u_Scheme u \<noteq> [] \<or> take 3 rest \<noteq> ''///'') \<and> take 2 rest = ''//'' then
        (let authority = takeWhile (\<lambda>c. c \<noteq> CHR ''/'') (drop 2 rest);
             path = dropWhile (\<lambda>c. c \<noteq> CHR ''/'') (drop 2 rest)
         in case parseAuthority (u_Scheme u) authority of
              None \<Rightarrow> None
            | Some (user, host) \<Rightarrow> setPath path (u\<lparr>u_User := user, u_Host := host\<rparr>))
      else setPath rest (u\<lparr>u_OmitHost := (u_Scheme u \<noteq> [] \<and> take 1 rest = ''/'')\<rparr>))"

definition parse_raw :: "string \<Rightarrow> URL option" where
  "parse_raw rawURL =
     (if \<exists>c \<in> set rawURL. (of_char c :: nat) < 32 \<or> c = CHR 0x7F then None
      else if rawURL = ''*'' then Some (empty_URL\<lparr>u_Path := ''*''\<rparr>)
      else (case getScheme rawURL of
              None \<Rightarrow> None
            | Some (scheme, rest) \<Rightarrow>
                let (rest', u) = cut_query rest (empty_URL\<lparr>u_Scheme := ToLower scheme\<rparr>)
                in parse_hier rest' u))"

definition Parse :: "string \<Rightarrow> goerr + URL" where
  "Parse rawURL =
     (let (u, frag) = cut CHR ''#'' rawURL
      in case parse_raw u of
           None \<Rightarrow> Inl (Newf ''parse %q: invalid URL'' [u])
         | Some url \<Rightarrow>
             if frag = [] then Inr url
             else (case setFragment frag url of
                     None \<Rightarrow> Inl (Newf ''parse %q: invalid URL escape'' [rawURL])
                   | Some url' \<Rightarrow> Inr url'))"

section \<open>Printing\<close>

definition UserPassword :: "string \<Rightarrow> string \<Rightarrow> Userinfo" where
  "UserPassword username password = (username, Some password)"

definition userinfo_String :: "Userinfo \<Rightarrow> string" where
  "userinfo_String ui =
     (case ui of
        (n, Some p) \<Rightarrow> escape n encodeUserPassword @ '':'' @ escape p encodeUserPassword
      | (n, None) \<Rightarrow> escape n encodeUserPassword)"

definition EscapedPath :: "URL \<Rightarrow> string" where
  "EscapedPath u =
     (if u_RawPath u \<noteq> [] \<and> validEncoded (u_RawPath u) encodePath \<and>
         unescape (u_RawPath u) encodePath = Some (u_Path u) then u_RawPath u
      else if u_Path u = ''*'' then ''*''
      else escape (u_Path u) encodePath)"

definition EscapedFragment :: "URL \<Rightarrow> string" where
  "EscapedFragment u =
     (if u_RawFragment u \<noteq> [] \<and> validEncoded (u_RawFragment u) encodeFragment \<and>
         unescape (u_RawFragment u) encodeFragment = Some (u_Fragment u) then u_RawFragment u
      else escape (u_Fragment u) encodeFragment)"

definition authority_String :: "URL \<Rightarrow> string" where
  "authority_String u =
     (if (u_Scheme u \<noteq> [] \<or> u_Host u \<noteq> [] \<or> u_User u \<noteq> None) \<and>
         \<not> (u_OmitHost u \<and> u_Host u = [] \<and> u_User u = None)
      then (if u_Host u \<noteq> [] \<or> u_Path u \<noteq> [] \<or> u_User u \<noteq> None then ''//'' else [])
           @ (case u_User u of None \<Rightarrow> [] | Some ui \<Rightarrow> userinfo_String ui @ ''@'')
           @ escape (u_Host u) encodeHost
      else [])"

definition hier_String :: "URL \<Rightarrow> string" where
  "hier_String u =
     (let pre = (if u_Scheme u \<noteq> [] then u_Scheme u @ '':'' else []) @ authority_String u;
          path = EscapedPath u;
          sep = (if path \<noteq> [] \<and> hd path \<noteq> CHR ''/'' \<and> u_Host u \<noteq> [] then ''/'' else []);
          dot = (if pre @ sep = [] \<and> CHR '':'' \<in> set (fst (cut CHR ''/'' path)) then ''./'' else [])
      in pre @ sep @ dot @ path)"

definition URL_String :: "URL \<Rightarrow> string" where
  "URL_String u =
     (if u_Opaque u \<noteq> []
      then (if u_Scheme u \<noteq> [] then u_Scheme u @ '':'' else []) @ u_Opaque u
      else hier_String u)
     @ (if u_ForceQuery u \<or> u_RawQuery u \<noteq> [] then ''?'' @ u_RawQuery u else [])
     @ (if u_Fragment u \<noteq> [] then ''#'' @ EscapedFragment u else [])"

end
