(* ===== verification/NRI_Env.thy ===== *)
theory NRI_Env
  imports Annotations Net_Url "HOL-Library.AList"
begin

text \<open>
  The pure part of \<^verbatim>\<open>pkg/nri\<close>: substitution of placeholders in an environment (\<^verbatim>\<open>substitute.go\<close>) and
  the recognition of the placeholders that belong to a database configuration (\<^verbatim>\<open>plugin.go\<close>).
  A Go map is an association list with distinct keys.
\<close>

section \<open>Substitution\<close>

type_synonym mapping = "(string \<times> string) list"

text \<open>
  One line of the environment under one visit of the map. Go visits a map in an unspecified
  order, a new one for each line: \<open>order i\<close> is the order for line \<open>i\<close>.
\<close>

definition subst_one :: "string \<times> string \<Rightarrow> string \<Rightarrow> string" where
  "subst_one = (\<lambda>(ph, val) e.
     if \<not> IsPlaceholder ph then e
     else if Contains e ph then ReplaceAll e ph val else e)"

definition subst_line :: "mapping \<Rightarrow> string \<Rightarrow> string" where
  "subst_line visit e = fold subst_one visit e"

fun subst_lines :: "nat \<Rightarrow> (nat \<Rightarrow> mapping \<Rightarrow> mapping) \<Rightarrow> string list \<Rightarrow> mapping \<Rightarrow> string list" where
  "subst_lines i order [] m = []"
| "subst_lines i order (e # es) m = subst_line (order i m) e # subst_lines (Suc i) order es m"

definition Substitute ::
  "(nat \<Rightarrow> mapping \<Rightarrow> mapping) \<Rightarrow> string list \<Rightarrow> mapping \<Rightarrow> string list" where
  "Substitute order env m = (if env = [] then env else subst_lines 0 order env m)"

text \<open>What Go promises of a visit: every entry exactly once.\<close>

definition go_range :: "(nat \<Rightarrow> mapping \<Rightarrow> mapping) \<Rightarrow> bool" where
  "go_range order \<longleftrightarrow> (\<forall>i m. mset (order i m) = mset m)"

section \<open>Reading an environment\<close>

definition splitKV :: "string \<Rightarrow> string \<times> string" where
  "splitKV line = (if CHR ''='' \<in> set line then cut CHR ''='' line else (line, []))"

definition envHasAnyPlaceholder :: "string list \<Rightarrow> bool" where
  "envHasAnyPlaceholder env = list_ex (\<lambda>line. Contains (snd (splitKV line)) Prefix) env"

definition splitCSV :: "string \<Rightarrow> string list" where
  "splitCSV s =
     (if s = '''' then []
      else filter (\<lambda>p. p \<noteq> '''') (map TrimSpace (Split s CHR '','')))"

text \<open>The placeholder and credential field that one line of the environment contributes.\<close>

definition classic_fields :: "string list \<Rightarrow> string list \<Rightarrow> string \<Rightarrow> mapping" where
  "classic_fields userKeys passKeys line =
     (let (k, v) = splitKV line
      in if \<not> IsPlaceholder v then []
         else if k \<in> set userKeys then [(v, ''username'')]
         else if k \<in> set passKeys then [(v, ''password'')]
         else [])"

definition uri_fields :: "string list \<Rightarrow> string \<Rightarrow> mapping" where
  "uri_fields uriKeys line =
     (let (k, v) = splitKV line
      in if k \<notin> set uriKeys then []
         else (case Parse v of
                 Inl err \<Rightarrow> []
               | Inr u \<Rightarrow>
                   (case u_User u of
                      None \<Rightarrow> []
                    | Some (user, pass) \<Rightarrow>
                        (if IsPlaceholder user then [(user, ''username'')] else []) @
                        (case pass of
                           Some p \<Rightarrow> if IsPlaceholder p then [(p, ''password'')] else []
                         | None \<Rightarrow> []))))"

definition put_all :: "mapping \<Rightarrow> mapping \<Rightarrow> mapping" where
  "put_all new m = fold (\<lambda>(k, v). AList.update k v) new m"

definition extractPlaceholdersFromEnv :: "string list \<Rightarrow> DbConfiguration \<Rightarrow> mapping" where
  "extractPlaceholdersFromEnv env dbConf =
     (let lower = ToLower (db_Mode dbConf);
          mode = (if lower = '''' then DbModeClassic else lower)
      in if mode = DbModeClassic then
           put_all (concat (map (classic_fields (splitCSV (DbUserEnvKey dbConf))
                                   (splitCSV (DbPasswordEnvKey dbConf))) env)) []
         else if mode = DbModeURI then
           put_all (concat (map (uri_fields (splitCSV (DbURIEnvKey dbConf))) env)) []
         else [])"

section \<open>Lemmas on association lists\<close>

lemma distinct_put_all: "distinct (map fst m) \<Longrightarrow> distinct (map fst (put_all new m))"
  unfolding put_all_def
  by (induction new arbitrary: m) (auto simp: distinct_update)

lemma map_of_put_all: "map_of (put_all new m) = map_of m ++ map_of (rev new)"
  unfolding put_all_def
proof (induction new arbitrary: m)
  case (Cons e new)
  obtain k v where e: "e = (k, v)"
    by force
  show ?case
    unfolding fold_Cons o_apply Cons.IH e
    by (auto simp: update_conv' map_add_def fun_eq_iff split: option.splits)
qed simp

lemma dom_put_all: "dom (map_of (put_all new m)) = dom (map_of m) \<union> fst ` set new"
  by (auto simp: map_of_put_all dom_map_of_conv_image_fst)

lemma put_all_value: "map_of (put_all new []) k = Some v \<Longrightarrow> (k, v) \<in> set new"
  by (auto simp: map_of_put_all dest: map_of_SomeD)

section \<open>Lemmas on lines\<close>

lemma splitKV_eq: "CHR ''='' \<notin> set k \<Longrightarrow> splitKV (k @ ''='' @ v) = (k, v)"
  unfolding splitKV_def cut_def
  by (simp add: takeWhile_append dropWhile_append)

lemma length_subst_lines [simp]: "length (subst_lines i order es m) = length es"
  by (induction es arbitrary: i) simp_all

lemma nth_subst_lines:
  "j < length es \<Longrightarrow> subst_lines i order es m ! j = subst_line (order (i + j) m) (es ! j)"
  by (induction es arbitrary: i j) (auto simp: nth_Cons split: nat.split)

lemma length_Substitute [simp]: "length (Substitute order env m) = length env"
  by (simp add: Substitute_def)

lemma nth_Substitute:
  "j < length env \<Longrightarrow> Substitute order env m ! j = subst_line (order j m) (env ! j)"
  by (auto simp: Substitute_def nth_subst_lines)

lemma subst_one_absent: "\<not> Contains e ph \<Longrightarrow> subst_one (ph, val) e = e"
  by (simp add: subst_one_def)

lemma subst_line_absent:
  assumes "\<And>ph val. (ph, val) \<in> set visit \<Longrightarrow> IsPlaceholder ph \<Longrightarrow> \<not> Contains e ph"
  shows "subst_line visit e = e"
  using assms unfolding subst_line_def
proof (induction visit)
  case (Cons x visit)
  obtain ph val where x: "x = (ph, val)"
    by force
  have "subst_one x e = e"
    using Cons.prems [of ph val] by (auto simp: x subst_one_def)
  moreover have "fold subst_one visit e = e"
    by (rule Cons.IH) (use Cons.prems in auto)
  ultimately show ?case
    by simp
qed simp

lemma subst_line_no_Prefix: "\<not> Contains e Prefix \<Longrightarrow> subst_line visit e = e"
  by (rule subst_line_absent) (metis Contains_trans IsPlaceholder_Contains_Prefix)

section \<open>Substitution does not depend on the order of the map\<close>

text \<open>
  A line is read as pieces with delimiters between them, where a delimiter is a character that
  occurs in no placeholder; a piece is literal text or a hole filled with a placeholder. The
  webhook's lines have this form, \<^verbatim>\<open>KEY=<placeholder>\<close> and
  \<^verbatim>\<open>KEY=scheme://<placeholder>:<placeholder>@host/...\<close> alike.
\<close>

datatype piece = Text string | Hole string

fun fill :: "(string \<Rightarrow> string) \<Rightarrow> piece \<Rightarrow> string" where
  "fill f (Text t) = t"
| "fill f (Hole h) = f h"

fun render :: "(string \<Rightarrow> string) \<Rightarrow> piece \<Rightarrow> (char \<times> piece) list \<Rightarrow> string" where
  "render f p [] = fill f p"
| "render f p ((d, q) # rest) = fill f p @ d # render f q rest"

fun piece_ok :: "piece \<Rightarrow> bool" where
  "piece_ok (Text t) = (\<not> Contains t Prefix)"
| "piece_ok (Hole h) = IsPlaceholder h"

definition delimiter :: "char \<Rightarrow> bool" where
  "delimiter c = (\<not> placeholder_char c)"

definition line_ok :: "piece \<Rightarrow> (char \<times> piece) list \<Rightarrow> bool" where
  "line_ok p rest = (piece_ok p \<and> list_all (\<lambda>(d, q). delimiter d \<and> piece_ok q) rest)"

text \<open>What a map puts into a hole, and the values it may have: none of them looks like a placeholder.\<close>

definition subst_hole :: "mapping \<Rightarrow> string \<Rightarrow> string" where
  "subst_hole m h = (if IsPlaceholder h then (case map_of m h of Some v \<Rightarrow> v | None \<Rightarrow> h) else h)"

definition clean_values :: "mapping \<Rightarrow> bool" where
  "clean_values m = list_all (\<lambda>(ph, val). \<not> Contains val Prefix) m"

lemma replace_from_delimiter:
  assumes "d \<notin> set old" "old \<noteq> []"
  shows "replace_from old new (a @ d # s) = replace_from old new a @ d # replace_from old new s"
proof (induction "length a" arbitrary: a rule: less_induct)
  case less
  show ?case
  proof (cases a)
    case Nil
    then show ?thesis
      using assms by (cases old) auto
  next
    case (Cons c cs)
    have "prefix old (a @ d # s) \<longleftrightarrow> prefix old a"
      using assms by (auto simp: prefix_append prefix_Cons)
    moreover have "prefix old a \<Longrightarrow> length old \<le> length a"
      by (rule prefix_length_le)
    ultimately show ?thesis
      using less [of "drop (length old - 1) cs"] less [of cs] by (auto simp: Cons)
  qed
qed

lemma same_length_sublist: "length a = length b \<Longrightarrow> sublist a b \<longleftrightarrow> a = b"
  by (auto simp: sublist_def intro: exI [of _ "[]"])

lemma replace_from_fill:
  assumes "IsPlaceholder ph" "piece_ok p"
    and "\<And>h. IsPlaceholder h \<Longrightarrow> f h = h \<or> \<not> Contains (f h) Prefix"
  shows "replace_from ph v (fill f p) = fill (\<lambda>h. if f h = ph then v else f h) p"
proof (cases p)
  case (Text t)
  then show ?thesis
    using assms by (auto simp: Contains_def intro!: replace_from_absent
        dest!: IsPlaceholder_Contains_Prefix dest: sublist_order.order.trans)
next
  case (Hole h)
  consider "f h = ph" | "f h \<noteq> ph" "f h = h" | "f h \<noteq> ph" "\<not> Contains (f h) Prefix"
    using assms(2,3) Hole by auto
  then show ?thesis
  proof cases
    case 1
    then show ?thesis
      using replace_from_hit [of ph v "[]"] IsPlaceholder_not_Nil [OF assms(1)] Hole by simp
  next
    case 2
    then have "\<not> sublist ph (f h)"
      using assms(1,2) Hole by (metis IsPlaceholder_length piece_ok.simps(2) same_length_sublist)
    then show ?thesis
      using 2 Hole by (simp add: replace_from_absent)
  next
    case 3
    then have "\<not> sublist ph (f h)"
      using Contains_trans IsPlaceholder_Contains_Prefix [OF assms(1)] by (auto simp: Contains_def)
    then show ?thesis
      using 3 Hole by (simp add: replace_from_absent)
  qed
qed

lemma replace_from_render:
  assumes "IsPlaceholder ph" "line_ok p rest"
    and "\<And>h. IsPlaceholder h \<Longrightarrow> f h = h \<or> \<not> Contains (f h) Prefix"
  shows "replace_from ph v (render f p rest) = render (\<lambda>h. if f h = ph then v else f h) p rest"
  using assms(2)
proof (induction rest arbitrary: p)
  case Nil
  then show ?case
    using replace_from_fill [OF assms(1) _ assms(3)] by (simp add: line_ok_def)
next
  case (Cons x rest)
  obtain d q where x: "x = (d, q)"
    by force
  have "d \<notin> set ph"
    using Cons.prems IsPlaceholder_chars [OF assms(1)] by (auto simp: x line_ok_def delimiter_def)
  then show ?case
    using Cons replace_from_fill [OF assms(1) _ assms(3)] IsPlaceholder_not_Nil [OF assms(1)]
    by (simp add: x line_ok_def replace_from_delimiter)
qed

lemma subst_one_render:
  assumes "line_ok p rest" and "\<And>h. IsPlaceholder h \<Longrightarrow> f h = h \<or> \<not> Contains (f h) Prefix"
  shows "subst_one (ph, v) (render f p rest) =
         render (\<lambda>h. if IsPlaceholder ph \<and> f h = ph then v else f h) p rest"
proof (cases "IsPlaceholder ph")
  case True
  then have ne: "ph \<noteq> []"
    by (rule IsPlaceholder_not_Nil)
  have "ReplaceAll (render f p rest) ph v = replace_from ph v (render f p rest)"
    using ne by (simp add: ReplaceAll_def)
  moreover have "\<not> Contains (render f p rest) ph \<Longrightarrow>
      replace_from ph v (render f p rest) = render f p rest"
    by (simp add: Contains_def replace_from_absent)
  ultimately show ?thesis
    using replace_from_render [OF True assms, where v = v] True
    by (auto simp: subst_one_def)
qed (simp add: subst_one_def)

lemma render_cong:
  "(\<And>h. IsPlaceholder h \<Longrightarrow> f h = g h) \<Longrightarrow> line_ok p rest \<Longrightarrow> render f p rest = render g p rest"
proof (induction rest arbitrary: p)
  case Nil
  then show ?case
    by (cases p) (auto simp: line_ok_def)
next
  case (Cons x rest)
  then have "fill f p = fill g p"
    by (cases p) (auto simp: line_ok_def)
  moreover obtain d q where "x = (d, q)"
    by force
  ultimately show ?case
    using Cons by (simp add: line_ok_def)
qed

lemma subst_line_render_gen:
  assumes "line_ok p rest" "clean_values visit"
    and "\<And>h. IsPlaceholder h \<Longrightarrow> f h = h \<or> \<not> Contains (f h) Prefix"
  shows "subst_line visit (render f p rest) = render (\<lambda>h. subst_hole visit (f h)) p rest"
  using assms(2,3)
proof (induction visit arbitrary: f)
  case Nil
  have "(\<lambda>h. subst_hole [] (f h)) = f"
    by (simp add: subst_hole_def fun_eq_iff)
  then show ?case
    by (simp add: subst_line_def)
next
  case (Cons x visit)
  obtain ph v where x: "x = (ph, v)"
    by force
  let ?g = "\<lambda>h. if IsPlaceholder ph \<and> f h = ph then v else f h"
  have v: "\<not> Contains v Prefix" and clean: "clean_values visit"
    using Cons.prems(1) by (auto simp: x clean_values_def)
  have "subst_line (x # visit) (render f p rest) = subst_line visit (render ?g p rest)"
    using subst_one_render [OF assms(1) Cons.prems(2)] by (simp add: x subst_line_def)
  also have "\<dots> = render (\<lambda>h. subst_hole visit (?g h)) p rest"
    by (rule Cons.IH [OF clean]) (use Cons.prems(2) v in auto)
  also have "\<dots> = render (\<lambda>h. subst_hole (x # visit) (f h)) p rest"
    using v IsPlaceholder_Contains_Prefix [of v]
    by (intro render_cong [OF _ assms(1)]) (auto simp: x subst_hole_def)
  finally show ?case .
qed

lemma subst_line_render:
  "line_ok p rest \<Longrightarrow> clean_values visit \<Longrightarrow>
   subst_line visit (render id p rest) = render (subst_hole visit) p rest"
  using subst_line_render_gen [of p rest visit id] by (simp add: id_def)

lemma clean_values_mset_eq: "mset xs = mset ys \<Longrightarrow> clean_values xs = clean_values ys"
  unfolding clean_values_def list_all_iff by (metis mset_eq_setD)

lemma subst_hole_mset_eq:
  "distinct (map fst xs) \<Longrightarrow> mset xs = mset ys \<Longrightarrow> subst_hole xs = subst_hole ys"
  by (simp add: subst_hole_def map_of_mset_eq fun_eq_iff)

text \<open>
  C32. Substitution is exact, and does not depend on the order in which Go visits the map: a line
  built from literal text and placeholders becomes the same line with every placeholder that the
  map knows replaced by its value, provided that no value looks like a placeholder.
\<close>

theorem Substitute_exact:
  assumes "go_range order" "distinct (map fst m)" "clean_values m"
    and "j < length env" "env ! j = render id p rest" "line_ok p rest"
  shows "Substitute order env m ! j = render (subst_hole m) p rest"
proof -
  have "mset (order j m) = mset m"
    using assms(1) by (simp add: go_range_def)
  with assms show ?thesis
    using clean_values_mset_eq [of "order j m" m] subst_hole_mset_eq [of m "order j m"]
    by (simp add: nth_Substitute subst_line_render)
qed

section \<open>Names are left alone\<close>

text \<open>The name of a variable, before the equals sign, holds no placeholder.\<close>

definition plain_line :: "string \<Rightarrow> bool" where
  "plain_line line \<longleftrightarrow> CHR ''='' \<in> set line \<and> \<not> Contains (fst (splitKV line)) Prefix"

lemma splitKV_parts: "CHR ''='' \<in> set line \<Longrightarrow> line = fst (splitKV line) @ CHR ''='' # snd (splitKV line)"
proof -
  assume "CHR ''='' \<in> set line"
  then obtain k v where "line = k @ CHR ''='' # v" "CHR ''='' \<notin> set k"
    by (meson split_list_first)
  then show ?thesis
    using splitKV_eq [of k v] by simp
qed

lemma equals_no_placeholder_char: "\<not> placeholder_char CHR ''=''"
  by (simp add: placeholder_char_def is_hex_def Prefix_def Suffix_def)

lemma subst_one_keeps_name:
  assumes "\<not> Contains k Prefix"
  shows "subst_one x (k @ CHR ''='' # v) = k @ CHR ''='' # subst_one x v"
proof -
  obtain ph val where x: "x = (ph, val)"
    by force
  show ?thesis
  proof (cases "IsPlaceholder ph")
    case True
    have eq: "CHR ''='' \<notin> set ph"
      using IsPlaceholder_chars [OF True] equals_no_placeholder_char by blast
    have k: "\<not> sublist ph k"
      using assms Contains_trans IsPlaceholder_Contains_Prefix [OF True] by (auto simp: Contains_def)
    have "Contains (k @ CHR ''='' # v) ph \<longleftrightarrow> Contains v ph"
      using k sublist_sep [OF eq] by (simp add: Contains_def)
    then show ?thesis
      using True k eq IsPlaceholder_not_Nil [OF True]
      by (simp add: x subst_one_def ReplaceAll_def replace_from_delimiter replace_from_absent)
  qed (simp add: x subst_one_def)
qed

lemma subst_line_keeps_name:
  "\<not> Contains k Prefix \<Longrightarrow> subst_line visit (k @ CHR ''='' # v) = k @ CHR ''='' # subst_line visit v"
  unfolding subst_line_def by (induction visit arbitrary: v) (simp_all add: subst_one_keeps_name)

lemma splitKV_subst_line:
  assumes "plain_line line"
  shows "splitKV (subst_line visit line) = (fst (splitKV line), subst_line visit (snd (splitKV line)))"
proof -
  let ?k = "fst (splitKV line)"
  have "CHR ''='' \<notin> set ?k"
    by (auto simp: splitKV_def cut_def dest: set_takeWhileD)
  moreover have "subst_line visit line = ?k @ CHR ''='' # subst_line visit (snd (splitKV line))"
    using assms splitKV_parts [of line] by (metis plain_line_def subst_line_keeps_name)
  ultimately show ?thesis
    using splitKV_eq [of ?k "subst_line visit (snd (splitKV line))"] by simp
qed

lemma Contains_splitKV: "Contains (snd (splitKV line)) s \<Longrightarrow> Contains line s"
proof (cases "CHR ''='' \<in> set line")
  case True
  assume "Contains (snd (splitKV line)) s"
  moreover have "sublist (snd (splitKV line)) line"
    using splitKV_parts [OF True]
    by (intro suffix_imp_sublist suffixI [of _ "fst (splitKV line) @ ''=''"]) simp
  ultimately show ?thesis
    unfolding Contains_def by (rule sublist_order.order.trans)
qed (auto simp: splitKV_def Contains_def)

end
