(* ===== verification/NRI_Fetch.thy ===== *)
theory NRI_Fetch
  imports Bookkeeping_Cache NRI_Env
begin

text \<open>
  File \<^verbatim>\<open>pkg/nri/vault.go\<close>: the plugin's credential fetch for one pod. The pod is read from the
  Kubernetes API and compared with the sandbox's UID, every database configuration logs in and
  obtains credentials, and the placeholders of the pod's environment are mapped to them. In
  projected mode an error revokes the tokens that were issued before it.
\<close>

section \<open>Pieces shared with the webhook\<close>

text \<open>The bookkeeping token: through the process-wide cache when there is one.\<close>

definition book_token ::
  "env \<Rightarrow> Config \<Rightarrow> BookkeepingTokenCache option \<Rightarrow> string \<Rightarrow> string
   \<Rightarrow> (string res \<times> BookkeepingTokenCache option) io" where
  "book_token E cfg bookCache injectorSaToken role =
     (case bookCache of
        Some entries \<Rightarrow> do {
          r \<leftarrow> Get E cfg entries injectorSaToken role;
          ret (fst r, Some (snd r)) }
      | None \<Rightarrow> do {
          r \<leftarrow> LoginAsInjectorSA E cfg injectorSaToken role;
          ret (r, None) })"

text \<open>The period check only warns; a failed lookup is ignored.\<close>

definition check_period :: "env \<Rightarrow> connector \<Rightarrow> string \<Rightarrow> unit res io" where
  "check_period E c role = do {
     period \<leftarrow> VerifyTokenPeriod E c;
     case period of
       Panic \<Rightarrow> ret Panic
     | Err _ \<Rightarrow> ret (Ok ())
     | Ok n \<Rightarrow>
         if n = 0 then do {
           _ \<leftarrow> metric (Inc ProjectedRoleMisconfigured [role]);
           ret (Ok ()) }
         else ret (Ok ()) }"

section \<open>From credentials to a mapping\<close>

definition pod_env_lines :: "pod \<Rightarrow> string list" where
  "pod_env_lines p =
     map (\<lambda>e. ev_name e @ ''='' @ ev_value e)
       (concat (map c_env (pod_init_containers p)) @ concat (map c_env (pod_containers p)))"

definition credential_field :: "DbCreds \<Rightarrow> string \<times> string \<Rightarrow> mapping" where
  "credential_field creds =
     (\<lambda>(ph, key). if key = ''username'' then [(ph, Username creds)]
                  else if key = ''password'' then [(ph, Password creds)] else [])"

definition buildMappingFromPodEnv :: "pod \<Rightarrow> DbConfiguration \<Rightarrow> DbCreds \<Rightarrow> mapping" where
  "buildMappingFromPodEnv p dbConf creds =
     put_all (concat (map (credential_field creds)
       (extractPlaceholdersFromEnv (pod_env_lines p) dbConf))) []"

definition checkConfigurationLite :: "DbConfiguration \<Rightarrow> goerr option" where
  "checkConfigurationLite dbConf =
     (if Role dbConf = '''' then Some (Newf ''dbConfiguration missing role'' []) else None)"

section \<open>One database configuration\<close>

text \<open>
  Between the login and the credentials. The result carries the connector as it is afterwards,
  since the deferred cleanup reads its token.
\<close>

definition authorize_legacy ::
  "env \<Rightarrow> Config \<Rightarrow> connector \<Rightarrow> string \<Rightarrow> string \<Rightarrow> DbConfiguration \<Rightarrow> nat \<Rightarrow> unit res io" where
  "authorize_legacy E cfg conn actualSA podNamespace dbConf i = do {
     r \<leftarrow> CanIGetRoles E conn actualSA podNamespace (VaultAuthPath cfg) (Role dbConf);
     ret (case r of
            Panic \<Rightarrow> Panic
          | Err err \<Rightarrow> Err (Wrap err (Sprintf ''vault CanIGetRoles for dbConfig %d (role %s)''
              [show_nat i, Role dbConf]))
          | Ok ok \<Rightarrow> if ok then Ok ()
                    else Err (Newf ''pod %s/%s not authorized for vault role %s''
                                [podNamespace, actualSA, Role dbConf])) }"

definition nri_book_role :: "Config \<Rightarrow> string" where
  "nri_book_role cfg = (if KubeRoleNri cfg = '''' then KubeRole cfg else KubeRoleNri cfg)"

definition authorize_projected ::
  "env \<Rightarrow> Config \<Rightarrow> connector \<Rightarrow> string \<Rightarrow> DbConfiguration \<Rightarrow> nat \<Rightarrow> BookkeepingTokenCache option
   \<Rightarrow> (connector res \<times> BookkeepingTokenCache option) io" where
  "authorize_projected E cfg conn injectorSaToken dbConf i bookCache = do {
     v \<leftarrow> check_period E conn (Role dbConf);
     if v = Panic then ret (Panic, bookCache)
     else do {
       b \<leftarrow> book_token E cfg bookCache injectorSaToken (nri_book_role cfg);
       case b of
         (Ok bookToken, bookCache') \<Rightarrow> ret (Ok (conn\<lparr>K8sSaVaultToken := bookToken\<rparr>), bookCache')
       | (Err bookErr, bookCache') \<Rightarrow> do {
           _ \<leftarrow> metric (Inc VaultLoginErrors [ClassifyLoginError (Some bookErr), ''projected_bookkeeping'']);
           ret (Err (Wrap bookErr
             (Sprintf ''vault login as injector SA for bookkeeping (dbConfig %d)'' [show_nat i])), bookCache') }
       | (Panic, bookCache') \<Rightarrow> ret (Panic, bookCache') } }"

definition creds_request :: "Config \<Rightarrow> string \<Rightarrow> string \<Rightarrow> string \<Rightarrow> DbCredentialsRequest" where
  "creds_request cfg podNameUID podNamespace sa =
    \<lparr>req_TTL = TokenTTL cfg, req_PodNameUID = podNameUID, req_Namespace = podNamespace,
     req_SecretName = VaultSecretName cfg, req_Prefix = VaultSecretPrefix cfg,
     req_ServiceAccount = sa, SkipOrphanCreation = UseProjectedSA cfg\<rparr>"

text \<open>From an authorized connector to credentials stamped with their UUID.\<close>

definition issue_for ::
  "env \<Rightarrow> Config \<Rightarrow> connector \<Rightarrow> string \<Rightarrow> string \<Rightarrow> string \<Rightarrow> DbConfiguration \<Rightarrow> nat
   \<Rightarrow> (DbCreds res \<times> connector) io" where
  "issue_for E cfg conn podNameUID podNamespace actualSA dbConf i = do {
     g \<leftarrow> GetDbCredentials E conn (creds_request cfg podNameUID podNamespace actualSA);
     ret (case g of
            (Ok creds, conn') \<Rightarrow> (Ok (creds\<lparr>PodUUID := podNameUID\<rparr>), conn')
          | (Err err, conn') \<Rightarrow> (Err (Wrap err (Sprintf
              ''vault GetDbCredentials for dbConfig %d (role %s)'' [show_nat i, Role dbConf])), conn')
          | (Panic, conn') \<Rightarrow> (Panic, conn')) }"

text \<open>What all configurations of one fetch share: the local variables of \<^verbatim>\<open>fetchAndBuildMapping\<close>.\<close>

record fetch_vars =
  fv_contextID :: string
  fv_podNamespace :: string
  fv_pod :: pod
  fv_actualSA :: string
  fv_dbPath :: string
  fv_tok :: string
  fv_injectorSaToken :: string
  fv_podUuids :: "string list"

text \<open>The UUID of the configuration at position \<open>i\<close>; the pod's own UID beyond the annotation's list.\<close>

definition config_uuid :: "fetch_vars \<Rightarrow> nat \<Rightarrow> string" where
  "config_uuid V i = (if i < length (fv_podUuids V) then fv_podUuids V ! i else fv_contextID V)"

text \<open>The result: credentials, the connector if its login succeeded, the cache.\<close>

type_synonym fetch_result = "DbCreds res \<times> connector option \<times> BookkeepingTokenCache option"

definition fetch_one ::
  "env \<Rightarrow> Config \<Rightarrow> fetch_vars \<Rightarrow> nat \<Rightarrow> DbConfiguration \<Rightarrow> BookkeepingTokenCache option
   \<Rightarrow> fetch_result io" where
  "fetch_one E cfg V i dbConf bookCache =
     (case checkConfigurationLite dbConf of
        Some err \<Rightarrow> ret (Err err, None, bookCache)
      | None \<Rightarrow> do {
          let auth_role = (if UseProjectedSA cfg then Role dbConf else KubeRole cfg);
          l \<leftarrow> Login E (NewConnector (VaultAddress cfg) (VaultAuthPath cfg) auth_role
                        (fv_dbPath V) (Role dbConf) (fv_tok V) (VaultRateLimit cfg));
          case l of
            Panic \<Rightarrow> ret (Panic, None, bookCache)
          | Err loginErr \<Rightarrow> do {
              _ \<leftarrow> metric (Inc VaultLoginErrors [ClassifyLoginError (Some loginErr),
                     if UseProjectedSA cfg then ''projected'' else ''legacy'']);
              ret (Err (Wrap loginErr (Sprintf ''vault login for dbConfig %d (role %s)''
                     [show_nat i, Role dbConf])), None, bookCache) }
          | Ok conn \<Rightarrow>
              if UseProjectedSA cfg then do {
                a \<leftarrow> authorize_projected E cfg conn (fv_injectorSaToken V) dbConf i bookCache;
                case a of
                  (Ok conn', bookCache') \<Rightarrow> do {
                    g \<leftarrow> issue_for E cfg conn' (config_uuid V i) (fv_podNamespace V) (fv_actualSA V) dbConf i;
                    ret (fst g, Some (snd g), bookCache') }
                | (Err err, bookCache') \<Rightarrow> ret (Err err, Some conn, bookCache')
                | (Panic, bookCache') \<Rightarrow> ret (Panic, Some conn, bookCache') }
              else do {
                let conn' = conn\<lparr>K8sSaVaultToken := GetToken conn\<rparr>;
                a \<leftarrow> authorize_legacy E cfg conn' (fv_actualSA V) (fv_podNamespace V) dbConf i;
                case a of
                  Ok _ \<Rightarrow> do {
                    g \<leftarrow> issue_for E cfg conn' (config_uuid V i) (fv_podNamespace V) (fv_actualSA V) dbConf i;
                    ret (fst g, Some (snd g), bookCache) }
                | Err err \<Rightarrow> ret (Err err, Some conn', bookCache)
                | Panic \<Rightarrow> ret (Panic, Some conn', bookCache) } })"

section \<open>The whole fetch\<close>

text \<open>The loop over the configurations; \<open>liveConns\<close> accumulates the connectors that logged in.\<close>

type_synonym loop_result =
  "(mapping \<times> DbCreds option) res \<times> connector list \<times> BookkeepingTokenCache option"

fun fetch_configs ::
  "env \<Rightarrow> Config \<Rightarrow> fetch_vars \<Rightarrow> nat \<Rightarrow> DbConfiguration list \<Rightarrow> mapping \<Rightarrow> DbCreds option
   \<Rightarrow> connector list \<Rightarrow> BookkeepingTokenCache option \<Rightarrow> loop_result io" where
  "fetch_configs E cfg V i [] merged lastCreds liveConns bookCache =
     ret (Ok (merged, lastCreds), liveConns, bookCache)"
| "fetch_configs E cfg V i (dbConf # rest) merged lastCreds liveConns bookCache = do {
     f \<leftarrow> fetch_one E cfg V i dbConf bookCache;
     let liveConns' = liveConns @ (case fst (snd f) of None \<Rightarrow> [] | Some conn \<Rightarrow> [conn]);
     let bookCache' = snd (snd f);
     case fst f of
       Panic \<Rightarrow> ret (Panic, liveConns', bookCache')
     | Err err \<Rightarrow> ret (Err err, liveConns', bookCache')
     | Ok creds \<Rightarrow>
         fetch_configs E cfg V (Suc i) rest
           (put_all (buildMappingFromPodEnv (fv_pod V) dbConf creds) merged) (Some creds)
           liveConns' bookCache' }"

text \<open>Revoke the token of every live connector; failures are only logged.\<close>

fun revoke_all :: "env \<Rightarrow> (connector \<Rightarrow> string) \<Rightarrow> connector list \<Rightarrow> unit res io" where
  "revoke_all E token_of [] = ret (Ok ())"
| "revoke_all E token_of (c # cs) = do {
     r \<leftarrow> RevokeSelfToken E c (token_of c);
     case r of Panic \<Rightarrow> ret Panic | _ \<Rightarrow> revoke_all E token_of cs }"

text \<open>
  Before the loop: the pod and its identity, its configurations, their UUIDs, the login tokens.
  The result is the loop's variables and configurations.
\<close>

definition read_pod :: "env \<Rightarrow> string \<Rightarrow> string \<Rightarrow> pod res io" where
  "read_pod E podNamespace podName = do {
     k \<leftarrow> GetKubernetesClient E;
     case k of
       Panic \<Rightarrow> ret Panic
     | Err err \<Rightarrow> ret (Err (Wrap err ''k8s clientset''))
     | Ok _ \<Rightarrow> do {
         g \<leftarrow> perform (\<lambda>h. e_get_pod E h podNamespace podName) (GetPod podNamespace podName);
         ret (wrap_err (Sprintf ''get pod %s/%s'' [podNamespace, podName]) (of_sum g)) } }"

definition pod_service_identity :: "Config \<Rightarrow> pod \<Rightarrow> string \<Rightarrow> string \<Rightarrow> string res" where
  "pod_service_identity cfg p podNamespace podName =
     (if pod_service_account p \<noteq> '''' then Ok (pod_service_account p)
      else if UseProjectedSA cfg
      then Err (Newf ''pod %s/%s has empty serviceAccountName: refusing to TokenRequest in projected-SA mode''
                  [podNamespace, podName])
      else Ok ''default'')"

definition pod_db_uuids :: "pod \<Rightarrow> string \<Rightarrow> string list" where
  "pod_db_uuids p contextID =
     (let uuidAnno = lookup_str (pod_annotations p) ANNOTATION_VAULT_POD_UUID
      in if uuidAnno \<noteq> '''' then Split uuidAnno CHR '','' else [contextID])"

definition login_tokens :: "env \<Rightarrow> Config \<Rightarrow> pod \<Rightarrow> (string \<times> string) res io" where
  "login_tokens E cfg p = do {
     t \<leftarrow> VaultLoginToken E p (UseProjectedSA cfg) (TokenRequestAudiences cfg)
           (TokenRequestExpirationSeconds cfg);
     case t of
       Panic \<Rightarrow> ret Panic
     | Err err \<Rightarrow> do {
         _ \<leftarrow> metric (Inc TokenRequestErrors [ClassifyTokenRequestError (Some err)]);
         ret (Err (Wrap err ''vault login token'')) }
     | Ok tok \<Rightarrow>
         if UseProjectedSA cfg then do {
           s \<leftarrow> GetServiceAccountToken E;
           ret (case s of
                  Ok injTok \<Rightarrow> Ok (tok, injTok)
                | Err err \<Rightarrow> Err (Wrap err ''read injector SA token for bookkeeping login'')
                | Panic \<Rightarrow> Panic) }
         else ret (Ok (tok, '''')) }"

definition prepare_fetch ::
  "env \<Rightarrow> Config \<Rightarrow> string \<Rightarrow> string \<Rightarrow> string \<Rightarrow> (fetch_vars \<times> DbConfiguration list) res io" where
  "prepare_fetch E cfg contextID podNamespace podName =
     check (read_pod E podNamespace podName) (\<lambda>p.
       if pod_uid p \<noteq> contextID
       then ret (Err (Newf
         ''pod UID mismatch: NRI sandbox UID %s != API pod UID %s for %s/%s: refusing to fetch credentials''
         [contextID, pod_uid p, podNamespace, podName]))
       else
     check (ret (pod_service_identity cfg p podNamespace podName)) (\<lambda>actualSA.
     check (ret (wrap_err ''parse pod db config'' (GetPodDbConfig cfg (pod_annotations p)))) (\<lambda>pdc.
       if DbConfigurations pdc = []
       then ret (Err (Newf ''pod has placeholders in env but no db-creds-injector annotations'' []))
       else
     check (login_tokens E cfg p) (\<lambda>(tok, injTok).
       ret (Ok (\<lparr>fv_contextID = contextID, fv_podNamespace = podNamespace, fv_pod = p,
                 fv_actualSA = actualSA, fv_dbPath = VaultDbPath pdc, fv_tok = tok,
                 fv_injectorSaToken = injTok, fv_podUuids = pod_db_uuids p contextID\<rparr>,
                DbConfigurations pdc))))))"

text \<open>After the loop: an empty mapping is an error too. The deferred function runs on every error.\<close>

definition finish_fetch :: "(mapping \<times> DbCreds option) res \<Rightarrow> (mapping \<times> DbCreds option) res" where
  "finish_fetch r =
     (case r of
        Ok (merged, lastCreds) \<Rightarrow>
          if merged = [] then Err (Newf ''no placeholders matched any dbConfiguration env keys'' [])
          else Ok (merged, lastCreds)
      | Err err \<Rightarrow> Err err
      | Panic \<Rightarrow> Panic)"

definition fetchAndBuildMapping ::
  "env \<Rightarrow> Config \<Rightarrow> string \<Rightarrow> string \<Rightarrow> string \<Rightarrow> BookkeepingTokenCache option
   \<Rightarrow> ((mapping \<times> DbCreds option) res \<times> BookkeepingTokenCache option) io" where
  "fetchAndBuildMapping E cfg contextID podNamespace podName bookCache = do {
     pr \<leftarrow> prepare_fetch E cfg contextID podNamespace podName;
     case pr of
       Panic \<Rightarrow> ret (Panic, bookCache)
     | Err err \<Rightarrow> ret (Err err, bookCache)
     | Ok (V, dbConfigs) \<Rightarrow> do {
         l \<leftarrow> fetch_configs E cfg V 0 dbConfigs [] None [] bookCache;
         let r = finish_fetch (fst l);
         case r of
           Err err \<Rightarrow>
             if UseProjectedSA cfg then do {
               d \<leftarrow> revoke_all E GetToken (fst (snd l));
               ret (if d = Panic then Panic else r, snd (snd l)) }
             else ret (r, snd (snd l))
         | _ \<Rightarrow> ret (r, snd (snd l)) } }"

section \<open>Calls\<close>

lemma calls_book_token [intro!]:
  "{C_now, C_new_client, C_k8s_auth, C_login} \<subseteq> K \<Longrightarrow> calls K (book_token E cfg b tok role)"
  unfolding book_token_def
  by (auto split: option.splits)

lemma calls_check_period [intro!]:
  "{C_lookup_self, C_metric} \<subseteq> K \<Longrightarrow> calls K (check_period E c role)"
  unfolding check_period_def
  by (auto split: res.splits)

lemma calls_authorize_legacy [intro!]:
  "{C_read, C_metric} \<subseteq> K \<Longrightarrow> calls K (authorize_legacy E cfg c sa ns d i)"
  unfolding authorize_legacy_def
  by auto

lemma calls_authorize_projected [intro!]:
  "{C_lookup_self, C_metric, C_now, C_new_client, C_k8s_auth, C_login} \<subseteq> K \<Longrightarrow>
   calls K (authorize_projected E cfg c tok d i b)"
  unfolding authorize_projected_def
  by (auto split: res.splits prod.splits)

lemma calls_issue_for [intro!]:
  "{C_create_orphan, C_metric, C_read, C_spawn_store} \<subseteq> K \<Longrightarrow>
   calls K (issue_for E cfg c u ns sa d i)"
  unfolding issue_for_def
  by auto

definition fetch_calls :: "call set" where
  "fetch_calls = {C_lookup_self, C_metric, C_now, C_new_client, C_k8s_auth, C_login,
     C_create_orphan, C_read, C_spawn_store}"

lemma calls_fetch_one [intro!]: "fetch_calls \<subseteq> K \<Longrightarrow> calls K (fetch_one E cfg V i d b)"
  unfolding fetch_one_def fetch_calls_def Let_def
  by (auto split: option.splits res.splits prod.splits)

lemma calls_fetch_configs [intro!]:
  "fetch_calls \<subseteq> K \<Longrightarrow> calls K (fetch_configs E cfg V i ds m l live b)"
  by (induction ds arbitrary: i m l live b) (auto simp: Let_def split: res.splits)

lemma calls_revoke_all [intro!]:
  "{C_new_client, C_revoke_self, C_metric} \<subseteq> K \<Longrightarrow> calls K (revoke_all E f cs)"
  by (induction cs) (auto split: res.splits)

definition prepare_calls :: "call set" where
  "prepare_calls = {C_kube_client, C_get_pod, C_create_token, C_read_file, C_metric}"

lemma calls_read_pod [intro!]: "{C_kube_client, C_get_pod} \<subseteq> K \<Longrightarrow> calls K (read_pod E ns n)"
  unfolding read_pod_def
  by (auto split: res.splits)

lemma calls_login_tokens [intro!]:
  "{C_kube_client, C_create_token, C_read_file, C_metric} \<subseteq> K \<Longrightarrow> calls K (login_tokens E cfg p)"
  unfolding login_tokens_def
  by (auto split: res.splits)

lemma calls_prepare_fetch [intro!]: "prepare_calls \<subseteq> K \<Longrightarrow> calls K (prepare_fetch E cfg ctx ns n)"
  unfolding prepare_fetch_def prepare_calls_def
  by (auto split: prod.splits)

lemma calls_fetchAndBuildMapping [intro!]:
  "prepare_calls \<union> fetch_calls \<union> {C_revoke_self} \<subseteq> K \<Longrightarrow>
   calls K (fetchAndBuildMapping E cfg ctx ns n b)"
  unfolding fetchAndBuildMapping_def Let_def
  by (auto simp: fetch_calls_def split: res.splits prod.splits)

section \<open>Who is fetched for\<close>

lemma emits_read_pod:
  "emits (read_pod E ns n) (\<lambda>r es. (\<forall>e \<in> set es. call_of e \<in> {C_kube_client, C_get_pod}) \<and>
     (\<forall>p. r = Ok p \<longrightarrow> GetPod ns n (Inr p) \<in> set es))"
  unfolding read_pod_def GetKubernetesClient_def
  by (intro emits_intro) (auto split: res.splits intro!: emits_intro)

definition pod_attested :: "string \<Rightarrow> string \<Rightarrow> string \<Rightarrow> event \<Rightarrow> bool" where
  "pod_attested contextID ns n e \<longleftrightarrow> (\<exists>p. e = GetPod ns n (Inr p) \<and> pod_uid p = contextID)"

definition identity_sensitive :: "event \<Rightarrow> bool" where
  "identity_sensitive e \<longleftrightarrow> call_of e \<in> insert C_create_token vault_calls"

lemma reading_insensitive:
  "\<forall>e \<in> set es. call_of e \<in> {C_kube_client, C_get_pod} \<Longrightarrow> e \<in> set es \<Longrightarrow> \<not> identity_sensitive e"
  by (drule bspec) (auto simp: identity_sensitive_def vault_calls_def)

text \<open>
  C10. No token is requested and nothing is sent to Vault before the Kubernetes API has returned
  the pod of that name and its UID equals the sandbox's UID. So a pod that was recreated under
  the same name cannot obtain the old one's credentials.
\<close>

theorem fetch_checks_identity_first:
  "emits (fetchAndBuildMapping E cfg contextID ns n b)
     (\<lambda>r es. preceded (pod_attested contextID ns n) identity_sensitive es)"
  unfolding fetchAndBuildMapping_def prepare_fetch_def
  apply (rule emits_bind, rule emits_check, rule emits_conseq [OF emits_read_pod])
  apply (split res.split, intro conjI allI impI)
  subgoal for a es p
    apply (split if_split, intro conjI impI)
     apply (intro emits_intro)
     apply (simp, intro emits_intro)
     apply (simp, rule preceded_none, rule reading_insensitive, blast, assumption)
    apply (rule emits_any)
     apply (auto simp: prepare_calls_def split: prod.splits)[1]
    apply (rule emits_any)
     apply (auto simp: Let_def split: res.splits prod.splits)[1]
    apply (simp only: append_assoc, rule preceded_guard)
     apply (rule reading_insensitive, blast, assumption)
    apply (auto simp: pod_attested_def)[1]
    done
   apply (simp, intro emits_intro, simp, rule preceded_none, rule reading_insensitive, blast, assumption)
  apply (simp, intro emits_intro, simp, rule preceded_none, rule reading_insensitive, blast, assumption)
  done

end
