(* ===== verification/Fetch_Cleanup.thy ===== *)
theory Fetch_Cleanup
  imports NRI_Fetch
begin

text \<open>
  What an error of the plugin's fetch leaves behind in Vault: the deferred function of
  \<^verbatim>\<open>fetchAndBuildMapping\<close> against the logins of its loop. The facts about \<open>revoke_all\<close> serve the
  webhook's cleanup as well.
\<close>

section \<open>Login tokens and revocations in a history\<close>

text \<open>Logins with a given JWT, and the tokens that were sent to \<^verbatim>\<open>auth/token/revoke-self\<close>.\<close>

definition login_tokens_of :: "string \<Rightarrow> event list \<Rightarrow> string set" where
  "login_tokens_of jwt es = {tok. \<exists>a p role. AuthLogin a p role jwt (Inr tok) \<in> set es}"

definition self_revoked :: "event list \<Rightarrow> string set" where
  "self_revoked es = {tok. \<exists>a r. RevokeSelf \<lparr>cl_address = a, cl_token = tok\<rparr> r \<in> set es}"

lemma login_tokens_of_append [simp]:
  "login_tokens_of jwt (xs @ ys) = login_tokens_of jwt xs \<union> login_tokens_of jwt ys"
  by (auto simp: login_tokens_of_def)

lemma self_revoked_append [simp]: "self_revoked (xs @ ys) = self_revoked xs \<union> self_revoked ys"
  by (auto simp: self_revoked_def)

lemma login_tokens_of_simps [simp]:
  "login_tokens_of jwt [] = {}" "login_tokens_of jwt (Metric op # es) = login_tokens_of jwt es"
  "self_revoked [] = {}"
  by (simp_all add: login_tokens_of_def self_revoked_def)

lemma no_login_tokens:
  "\<forall>e \<in> set es. call_of e \<in> K \<Longrightarrow> C_login \<notin> K \<Longrightarrow> login_tokens_of jwt es = {}"
  by (fastforce simp: login_tokens_of_def)

lemma no_self_revoked:
  "\<forall>e \<in> set es. call_of e \<in> K \<Longrightarrow> C_revoke_self \<notin> K \<Longrightarrow> self_revoked es = {}"
  by (fastforce simp: self_revoked_def)

text \<open>A Vault client can always be built: the address is well formed, as it was for the login.\<close>

definition client_ok :: "env \<Rightarrow> bool" where
  "client_ok E \<longleftrightarrow> (\<forall>h a. e_new_client E h a = None)"

lemma emits_NewClient_ok: "client_ok E \<Longrightarrow> emits (NewClient E a) (\<lambda>r es. r = Ok () \<and> es = [NewVaultClient a None])"
  by (simp add: NewClient_def client_ok_def emits_def State_Monad.bind_def split_def)

lemma emits_RevokeSelf_sent:
  "client_ok E \<Longrightarrow> emits (RevokeSelfToken E c tok) (\<lambda>r es. r \<noteq> Panic \<and> (tok = '''' \<or> tok \<in> self_revoked es))"
  unfolding RevokeSelfToken_def Let_def
  apply (split if_split, intro conjI impI)
   apply (simp add: emits_return)
  apply (rule emits_bind, rule emits_conseq, erule emits_NewClient_ok)
  apply (auto simp: self_revoked_def split: option.splits intro!: emits_intro)
  done

lemma emits_revoke_all_sent:
  "client_ok E \<Longrightarrow> emits (revoke_all E f cs) (\<lambda>r es. r \<noteq> Panic \<and> f ` set cs - {''''} \<subseteq> self_revoked es)"
proof (induction cs)
  case (Cons c cs)
  show ?case
    unfolding revoke_all.simps
    apply (rule emits_bind, rule emits_conseq [OF emits_RevokeSelf_sent [OF Cons.prems]])
    apply (split res.split, intro conjI allI impI)
      apply (rule emits_conseq [OF Cons.IH [OF Cons.prems]], simp, blast)
     apply (rule emits_conseq [OF Cons.IH [OF Cons.prems]], simp, blast)
    apply simp
    done
qed (simp add: emits_return)

lemma emits_RevokeSelf_only: "emits (RevokeSelfToken E c tok) (\<lambda>r es. self_revoked es \<subseteq> {tok})"
proof (rule emits_conseq [OF emits_RevokeSelfToken])
  fix r es
  assume *: "(r :: unit res) \<noteq> Panic \<and> (tok = '''' \<or> retired tok es) \<and>
    (\<forall>e \<in> set es. \<forall>cl rr. e = RevokeSelf cl rr \<longrightarrow> cl_token cl = tok \<and> tok \<noteq> '''')"
  show "self_revoked es \<subseteq> {tok}"
  proof
    fix t
    assume "t \<in> self_revoked es"
    then obtain a rr where "RevokeSelf \<lparr>cl_address = a, cl_token = t\<rparr> rr \<in> set es"
      by (auto simp: self_revoked_def)
    with * have "cl_token \<lparr>cl_address = a, cl_token = t\<rparr> = tok"
      by blast
    then show "t \<in> {tok}"
      by simp
  qed
qed

lemma emits_revoke_all_only:
  "emits (revoke_all E f cs) (\<lambda>r es. self_revoked es \<subseteq> f ` set cs \<and>
     (\<forall>e \<in> set es. call_of e \<in> {C_new_client, C_revoke_self, C_metric}))"
proof (rule emits_conj)
  show "emits (revoke_all E f cs) (\<lambda>r es. self_revoked es \<subseteq> f ` set cs)"
  proof (induction cs)
    case (Cons c cs)
    show ?case
      unfolding revoke_all.simps
      apply (rule emits_bind, rule emits_conseq [OF emits_RevokeSelf_only])
      apply (split res.split, intro conjI allI impI)
        apply (rule emits_conseq [OF Cons.IH], simp, blast)
       apply (rule emits_conseq [OF Cons.IH], simp, blast)
      apply (rule emits_return, simp, blast)
      done
  qed (simp add: emits_return self_revoked_def)
qed (rule emits_calls [where K = "{C_new_client, C_revoke_self, C_metric}"], blast, blast)

subsection \<open>The logins of the loop\<close>

lemma emits_book_token_logins:
  "emits (book_token E cfg b tok role) (\<lambda>r es. \<forall>jwt. jwt \<noteq> tok \<longrightarrow> login_tokens_of jwt es = {})"
  unfolding book_token_def Get_def valid_entry_def LoginAsInjectorSA_def Login_def NewClient_def
    login_tokens_of_def NewConnector_def Let_def
  by (intro emits_intro | auto split: option.splits res.splits if_splits intro!: emits_intro)+

lemma emits_authorize_projected:
  "emits (authorize_projected E cfg c injTok d i b) (\<lambda>r es.
     (\<forall>jwt. jwt \<noteq> injTok \<longrightarrow> login_tokens_of jwt es = {}) \<and>
     (\<forall>c'. fst r = Ok c' \<longrightarrow> vaultToken c' = vaultToken c))"
  unfolding authorize_projected_def
  apply (rule emits_bind, rule emits_calls [where K = "{C_lookup_self, C_metric}"], blast)
  subgoal premises p for a es
  proof -
    note none = no_login_tokens [OF p]
    show ?thesis
      apply (split if_split, intro conjI impI)
       apply (rule emits_return, simp add: none)
      apply (rule emits_bind, rule emits_conseq [OF emits_book_token_logins])
      apply (auto simp: none split: prod.splits res.splits intro!: emits_intro)
      done
  qed
  done

lemma emits_issue_for_projected:
  "UseProjectedSA cfg \<Longrightarrow>
   emits (issue_for E cfg c u ns sa d i) (\<lambda>r es. vaultToken (snd r) = vaultToken c \<and>
     (\<forall>jwt. login_tokens_of jwt es = {}))"
proof (rule emits_conj)
  assume "UseProjectedSA cfg"
  then show "emits (issue_for E cfg c u ns sa d i) (\<lambda>r es. vaultToken (snd r) = vaultToken c)"
    unfolding issue_for_def GetDbCredentials_def acquire_token_def creds_request_def
    apply (intro emits_intro)
    apply (simp, intro emits_intro, simp, intro emits_intro)
    apply (rule emits_any, rule calls_read_credentials, simp, intro emits_intro)
    apply (simp split: res.splits)
    done
qed (rule emits_calls [where K = "{C_create_orphan, C_metric, C_read, C_spawn_store}"], blast,
   simp add: no_login_tokens [where K = "{C_create_orphan, C_metric, C_read, C_spawn_store}"])

lemma emits_Login_tokens:
  "emits (Login E c) (\<lambda>r es.
     login_tokens_of (k8sSaToken c) es = (case r of Ok c' \<Rightarrow> {vaultToken c'} | _ \<Rightarrow> {}))"
  unfolding Login_def NewClient_def login_tokens_of_def
  by (intro emits_intro) (auto split: res.splits option.splits sum.splits intro!: emits_intro)

lemma emits_fetch_one_projected:
  assumes "UseProjectedSA cfg"
  shows "emits (fetch_one E cfg V i d b) (\<lambda>r es. case r of (_, conn, _) \<Rightarrow>
     vaultToken ` set_option conn \<subseteq> login_tokens_of (fv_tok V) es \<and>
     (fv_tok V \<noteq> fv_injectorSaToken V \<longrightarrow>
        login_tokens_of (fv_tok V) es \<subseteq> vaultToken ` set_option conn))"
  unfolding fetch_one_def Let_def
  apply (split option.split, intro conjI allI impI)
   defer
   apply (rule emits_return, simp)
  apply (rule emits_bind, rule emits_conseq [OF emits_Login_tokens])
  apply (split res.split, intro conjI allI impI)
    defer
    apply (rule emits_bind, rule emits_metric, rule emits_return, simp add: NewConnector_def)
   apply (rule emits_return, simp add: NewConnector_def)
  subgoal premises p for r es c
  proof -
    have c: "login_tokens_of (fv_tok V) es = {vaultToken c}"
      using p(2) by (simp add: p(3) NewConnector_def)
    show ?thesis
      unfolding if_P [OF assms]
      apply (rule emits_bind, rule emits_conseq [OF emits_authorize_projected])
      apply (split prod.split, intro allI impI, split res.split, intro conjI allI impI)
        apply (rule emits_bind, rule emits_conseq [OF emits_issue_for_projected [OF assms]])
        apply (rule emits_return, clarsimp simp: c)
       apply (rule emits_return, clarsimp simp: c)
      apply (rule emits_return, clarsimp simp: c)
      done
  qed
  done

lemma emits_fetch_configs_projected:
  assumes "UseProjectedSA cfg"
  shows "emits (fetch_configs E cfg V i ds m l live b) (\<lambda>r es.
     \<exists>new. fst (snd r) = live @ new \<and> vaultToken ` set new \<subseteq> login_tokens_of (fv_tok V) es \<and>
     (fv_tok V \<noteq> fv_injectorSaToken V \<longrightarrow>
        login_tokens_of (fv_tok V) es \<subseteq> vaultToken ` set new))"
proof (induction ds arbitrary: i m l live b)
  case (Cons d ds)
  show ?case
    unfolding fetch_configs.simps Let_def
    apply (rule emits_bind, rule emits_conseq [OF emits_fetch_one_projected [OF assms]])
    subgoal premises p for f es
    proof -
      obtain r co b' where f: "f = (r, co, b')"
        by (cases f)
      define new where "new = (case co of None \<Rightarrow> [] | Some conn \<Rightarrow> [conn])"
      have set_new: "set new = set_option co"
        by (cases co) (auto simp: new_def)
      have stop: "emits (ret (q, live @ new, b')) (\<lambda>r es'.
          \<exists>new. fst (snd r) = live @ new \<and> vaultToken ` set new \<subseteq> login_tokens_of (fv_tok V) (es @ es') \<and>
          (fv_tok V \<noteq> fv_injectorSaToken V \<longrightarrow>
             login_tokens_of (fv_tok V) (es @ es') \<subseteq> vaultToken ` set new))" for q :: "(mapping \<times> DbCreds option) res"
        using p by (intro emits_return exI [of _ new]) (simp add: f set_new)
      show ?thesis
      proof (cases r)
        case (Ok creds)
        show ?thesis
          unfolding f Ok fst_conv snd_conv new_def [symmetric]
          apply simp
          apply (rule emits_conseq, rule Cons.IH)
          apply (elim exE conjE)
          subgoal for r' es' new'
            using p by (intro exI [of _ "new @ new'"]) (auto simp: f set_new)
          done
      qed (use stop in \<open>simp_all add: f new_def\<close>)
    qed
    done
qed (simp add: emits_return)

text \<open>The JWT of the loop comes from a token request; only the injector's own is read from a file.\<close>

definition requested_jwt :: "string \<Rightarrow> event list \<Rightarrow> bool" where
  "requested_jwt jwt es \<longleftrightarrow> (\<exists>ns sa aud ex. CreateToken ns sa aud ex (Inr jwt) \<in> set es)"

definition read_jwt :: "string \<Rightarrow> event list \<Rightarrow> bool" where
  "read_jwt jwt es \<longleftrightarrow> (\<exists>f. ReadFile f (Inr jwt) \<in> set es)"

lemma jwt_append [simp]:
  "requested_jwt jwt (xs @ ys) \<longleftrightarrow> requested_jwt jwt xs \<or> requested_jwt jwt ys"
  "read_jwt jwt (xs @ ys) \<longleftrightarrow> read_jwt jwt xs \<or> read_jwt jwt ys"
  by (auto simp: requested_jwt_def read_jwt_def)

lemma emits_login_tokens_projected:
  assumes "UseProjectedSA cfg"
  shows "emits (login_tokens E cfg p) (\<lambda>r es. \<forall>tok injTok. r = Ok (tok, injTok) \<longrightarrow>
     requested_jwt tok es \<and> read_jwt injTok es)"
  unfolding login_tokens_def eqTrueI [OF assms] if_True
  apply (rule emits_bind, rule emits_conseq [OF emits_VaultLoginToken_projected])
  apply (auto simp: GetServiceAccountToken_def requested_jwt_def read_jwt_def
      split: res.splits sum.splits intro!: emits_intro)
     apply blast+
  done

lemma emits_prepare_fetch_projected:
  assumes "UseProjectedSA cfg"
  shows "emits (prepare_fetch E cfg ctx ns n) (\<lambda>r es. (\<forall>e \<in> set es. call_of e \<in> prepare_calls) \<and>
     (\<forall>V ds. r = Ok (V, ds) \<longrightarrow> requested_jwt (fv_tok V) es \<and> read_jwt (fv_injectorSaToken V) es))"
proof (rule emits_conj)
  show "emits (prepare_fetch E cfg ctx ns n)
     (\<lambda>r es. \<forall>V ds. r = Ok (V, ds) \<longrightarrow> requested_jwt (fv_tok V) es \<and> read_jwt (fv_injectorSaToken V) es)"
    unfolding prepare_fetch_def
    apply (rule emits_check, rule emits_any, blast)
    apply (split res.split, intro conjI allI impI; simp?)
    apply (intro conjI impI emits_intro; simp?)
    apply (split res.split, intro conjI allI impI; simp?)
    apply (intro emits_intro)
    apply (split res.split, intro conjI allI impI; simp?)
    apply (intro conjI impI emits_intro; simp?)
    apply (rule emits_conseq [OF emits_login_tokens_projected [OF assms]])
    apply (auto split: res.splits prod.splits intro!: emits_intro)
    done
qed (rule emits_calls [where K = prepare_calls], blast, blast)

lemma prepare_calls_silent [simp]:
  "\<forall>e \<in> set es. call_of e \<in> prepare_calls \<Longrightarrow> login_tokens_of jwt es = {}"
  "\<forall>e \<in> set es. call_of e \<in> prepare_calls \<Longrightarrow> self_revoked es = {}"
  by (simp_all add: no_login_tokens [where K = prepare_calls] no_self_revoked [where K = prepare_calls]
      prepare_calls_def)

lemma no_read_jwt: "\<forall>e \<in> set es. call_of e \<in> K \<Longrightarrow> C_read_file \<notin> K \<Longrightarrow> \<not> read_jwt jwt es"
  by (fastforce simp: read_jwt_def)

definition jwt_in :: "string set \<Rightarrow> event \<Rightarrow> bool" where
  "jwt_in J e = (case e of AuthLogin a p role jwt r \<Rightarrow> jwt \<in> J | _ \<Rightarrow> True)"

lemma jwt_in_simps [simp]: "jwt_in J (TimeNow t)" "jwt_in J (Metric op)"
  by (simp_all add: jwt_in_def)

lemma only_jwt_in_calls: "calls K m \<Longrightarrow> C_login \<notin> K \<Longrightarrow> only {e. jwt_in J e} m"
  unfolding calls_def by (erule only_mono) (auto simp: jwt_in_def split: event.splits)

lemma only_jwt_in_Login: "k8sSaToken c \<in> J \<Longrightarrow> only {e. jwt_in J e} (Login E c)"
  unfolding Login_def NewClient_def by (auto simp: jwt_in_def)

lemma only_jwt_in_book_token: "tok \<in> J \<Longrightarrow> only {e. jwt_in J e} (book_token E cfg b tok role)"
  unfolding book_token_def Get_def LoginAsInjectorSA_def Let_def
  by (auto simp: NewConnector_def valid_entry_def intro!: only_jwt_in_Login
      split: option.splits res.splits)

lemma only_jwt_in_authorize_legacy: "only {e. jwt_in J e} (authorize_legacy E cfg c sa ns d i)"
  by (rule only_jwt_in_calls [where K = "{C_read, C_metric}"]) auto

lemma only_jwt_in_check_period: "only {e. jwt_in J e} (check_period E c role)"
  by (rule only_jwt_in_calls [where K = "{C_lookup_self, C_metric}"]) auto

lemma only_jwt_in_issue_for: "only {e. jwt_in J e} (issue_for E cfg c u ns sa d i)"
  by (rule only_jwt_in_calls [where K = "{C_create_orphan, C_metric, C_read, C_spawn_store}"]) auto

lemma only_jwt_in_metric: "only {e. jwt_in J e} (metric op)"
  by auto

lemmas only_jwt_in = only_jwt_in_Login only_jwt_in_book_token only_jwt_in_authorize_legacy
  only_jwt_in_check_period only_jwt_in_issue_for only_jwt_in_metric

lemma only_jwt_in_fetch_one:
  "only {e. jwt_in {fv_tok V, fv_injectorSaToken V} e} (fetch_one E cfg V i d b)"
  unfolding fetch_one_def authorize_projected_def Let_def
  by (auto simp: NewConnector_def intro!: only_jwt_in split: option.splits res.splits)

lemma only_jwt_in_fetch_configs:
  "only {e. jwt_in {fv_tok V, fv_injectorSaToken V} e} (fetch_configs E cfg V i ds m l live b)"
  by (induction ds arbitrary: i m l live b)
    (auto simp: Let_def intro!: only_jwt_in_fetch_one split: res.splits)

lemma jwt_in_tokens:
  "set es \<subseteq> {e. jwt_in J e} \<Longrightarrow> tok \<in> login_tokens_of jwt es \<Longrightarrow> jwt \<in> J"
  by (force simp: login_tokens_of_def jwt_in_def)

text \<open>Both facts about the loop in one, and what the deferred function does with them.\<close>

lemma emits_fetch_loop_projected:
  assumes "UseProjectedSA cfg"
  shows "emits (fetch_configs E cfg V i ds m l [] b) (\<lambda>r es.
     (\<forall>e \<in> set es. call_of e \<in> fetch_calls) \<and>
     vaultToken ` set (fst (snd r)) \<subseteq> login_tokens_of (fv_tok V) es \<and>
     (\<forall>jwt. jwt \<noteq> fv_injectorSaToken V \<longrightarrow> login_tokens_of jwt es \<subseteq> vaultToken ` set (fst (snd r))))"
  apply (rule emits_conj)
   apply (rule emits_calls [where K = fetch_calls], blast, blast)
  apply (rule emits_conseq, rule emits_conj, rule emits_fetch_configs_projected [OF assms])
   apply (rule only_jwt_in_fetch_configs [unfolded only_def])
  apply (auto dest: jwt_in_tokens)
  done

lemma no_self_revoked_fetch: "\<forall>e \<in> set es. call_of e \<in> fetch_calls \<Longrightarrow> self_revoked es = {}"
  by (simp add: no_self_revoked [where K = fetch_calls] fetch_calls_def)

lemma emits_RevokeSelf_no_panic: "emits (revoke_all E f cs) (\<lambda>r es. r \<noteq> Panic)"
proof (induction cs)
  case (Cons c cs)
  show ?case
    unfolding revoke_all.simps
    by (rule emits_bind, rule emits_conseq [OF emits_RevokeSelfToken])
      (auto split: res.split intro: Cons)
qed (simp add: emits_return)

text \<open>
  A projected fetch that gets past its preparation has three parts: \<open>es1\<close> requests and reads the two
  JWTs, \<open>es2\<close> is the loop, which ends with the tokens \<open>held\<close> in its live connectors, and \<open>es3\<close> is
  the deferred function.
\<close>

definition fetch_parts :: "bool \<Rightarrow> 'a res \<Rightarrow> event list \<Rightarrow> bool" where
  "fetch_parts ok r es \<longleftrightarrow> (\<exists>jwt own es1 es2 es3 held. es = es1 @ es2 @ es3 \<and>
     requested_jwt jwt es1 \<and> read_jwt own es1 \<and> (\<forall>j. login_tokens_of j (es1 @ es3) = {}) \<and>
     self_revoked (es1 @ es2) = {} \<and> held \<subseteq> login_tokens_of jwt es2 \<and>
     (\<forall>j. j \<noteq> own \<longrightarrow> login_tokens_of j es2 \<subseteq> held) \<and> self_revoked es3 \<subseteq> held \<and>
     ((\<exists>err. r = Err err) \<longrightarrow> ok \<longrightarrow> held - {''''} \<subseteq> self_revoked es3) \<and> ((\<exists>err. r = Err err) \<or> es3 = []))"

lemma emits_revoke_all_parts:
  "emits (revoke_all E f cs) (\<lambda>r es. r \<noteq> Panic \<and> self_revoked es \<subseteq> f ` set cs \<and>
     (\<forall>j. login_tokens_of j es = {}) \<and> (client_ok E \<longrightarrow> f ` set cs - {''''} \<subseteq> self_revoked es))"
proof -
  have sent: "emits (revoke_all E f cs) (\<lambda>r es. client_ok E \<longrightarrow> f ` set cs - {''''} \<subseteq> self_revoked es)"
    by (cases "client_ok E")
      (auto intro: emits_conseq [OF emits_revoke_all_sent] emits_conseq [OF emits_RevokeSelf_no_panic])
  show ?thesis
    by (rule emits_conseq [OF emits_conj [OF emits_RevokeSelf_no_panic emits_conj [OF emits_revoke_all_only sent]]])
      (auto intro!: no_login_tokens [where K = "{C_new_client, C_revoke_self, C_metric}"])
qed

lemma fetch_partsI:
  assumes "\<forall>e \<in> set es1. call_of e \<in> prepare_calls" "requested_jwt jwt es1" "read_jwt own es1"
    and "\<forall>e \<in> set es2. call_of e \<in> fetch_calls" "held \<subseteq> login_tokens_of jwt es2"
      "\<forall>j. j \<noteq> own \<longrightarrow> login_tokens_of j es2 \<subseteq> held"
    and "self_revoked es3 \<subseteq> held" "\<forall>j. login_tokens_of j es3 = {}"
      "(\<exists>err. r = Err err) \<longrightarrow> ok \<longrightarrow> held - {''''} \<subseteq> self_revoked es3" "(\<exists>err. r = Err err) \<or> es3 = []"
  shows "fetch_parts ok r (es1 @ es2 @ es3)"
  unfolding fetch_parts_def
  using assms no_self_revoked_fetch [of es2]
  by (intro exI [of _ jwt] exI [of _ own] exI [of _ es1] exI [of _ es2] exI [of _ es3] exI [of _ held]) simp

lemma fetch_partsE:
  assumes "fetch_parts ok r es"
  obtains jwt own es1 es2 es3 held where "es = es1 @ es2 @ es3" "requested_jwt jwt es1" "read_jwt own es1"
    "\<forall>j. login_tokens_of j (es1 @ es3) = {}" "self_revoked (es1 @ es2) = {}" "held \<subseteq> login_tokens_of jwt es2"
    "\<forall>j. j \<noteq> own \<longrightarrow> login_tokens_of j es2 \<subseteq> held" "self_revoked es3 \<subseteq> held"
    "(\<exists>err. r = Err err) \<longrightarrow> ok \<longrightarrow> held - {''''} \<subseteq> self_revoked es3" "(\<exists>err. r = Err err) \<or> es3 = []"
  using assms unfolding fetch_parts_def by (elim exE conjE) (rule that)

lemma emits_fetch_projected:
  assumes "UseProjectedSA cfg"
  shows "emits (fetchAndBuildMapping E cfg contextID ns n b) (\<lambda>r es.
     (\<forall>j. login_tokens_of j es = {}) \<and> self_revoked es = {} \<or> fetch_parts (client_ok E) (fst r) es)"
  unfolding fetchAndBuildMapping_def Let_def
  apply (rule emits_bind, rule emits_conseq [OF emits_prepare_fetch_projected [OF assms]])
  apply (split res.split, intro conjI allI impI)
    apply (split prod.split, intro allI impI)
    apply (rule emits_bind, rule emits_conseq [OF emits_fetch_loop_projected [OF assms]])
    apply (split res.split, intro conjI allI impI)
      apply (rule emits_return, rule disjI2)
    subgoal for pr es Vds V ds l
      by (rule fetch_partsI [where jwt = "fv_tok V" and own = "fv_injectorSaToken V" and held = "vaultToken ` set (fst (snd l))"]) auto
     apply (simp only: assms if_True)
     apply (rule emits_bind, rule emits_conseq [OF emits_revoke_all_parts], rule emits_return, rule disjI2, simp only: append_Nil2)
    subgoal for pr es Vds V ds l
      by (rule fetch_partsI [where jwt = "fv_tok V" and own = "fv_injectorSaToken V" and held = "vaultToken ` set (fst (snd l))"])
        (auto simp: GetToken_def)
    apply (rule emits_return, rule disjI2)
    subgoal for pr es Vds V ds l
      by (rule fetch_partsI [where jwt = "fv_tok V" and own = "fv_injectorSaToken V" and held = "vaultToken ` set (fst (snd l))"]) auto
   apply (rule emits_return, simp)+
  done

text \<open>
  C14. In projected mode, and when a client for Vault can be built, a fetch that fails, at whatever
  configuration and step, has sent a revocation for every Vault token that it obtained with a JWT
  that was not read from a file. Not meant is the bookkeeping login with the injector's own token
  from its file: it is shared and must stay.
\<close>

theorem fetch_error_revokes_logins:
  assumes "UseProjectedSA cfg" "client_ok E"
  shows "emits (fetchAndBuildMapping E cfg contextID ns n b) (\<lambda>r es.
     \<forall>err jwt tok. fst r = Err err \<longrightarrow> tok \<in> login_tokens_of jwt es \<longrightarrow> \<not> read_jwt jwt es \<longrightarrow>
       tok = '''' \<or> tok \<in> self_revoked es)"
proof (rule emits_conseq [OF emits_fetch_projected [OF assms(1)]], intro allI impI)
  fix r :: "(mapping \<times> DbCreds option) res \<times> BookkeepingTokenCache option" and es err jwt tok
  assume parts: "(\<forall>j. login_tokens_of j es = {}) \<and> self_revoked es = {} \<or> fetch_parts (client_ok E) (fst r) es"
    and r: "fst r = Err err" "tok \<in> login_tokens_of jwt es" "\<not> read_jwt jwt es"
  then have "fetch_parts True (Err err :: (mapping \<times> DbCreds option) res) es"
    using assms(2) by auto
  then show "tok = '''' \<or> tok \<in> self_revoked es"
  proof (cases rule: fetch_partsE)
    case (1 jwt' own es1 es2 es3 held)
    then have "jwt \<noteq> own" "tok \<in> login_tokens_of jwt es2"
      using r(2,3) by auto
    with 1(7) have "tok \<in> held"
      by blast
    with 1(1,9) show ?thesis
      by auto
  qed
qed

text \<open>
  C23. The fetch revokes no other token: what it sends to revoke-self are tokens that it obtained
  itself, with a requested pod token, in projected mode, in a fetch that fails. A successful
  fetch, and any fetch in legacy mode, revokes nothing.
\<close>

theorem fetch_revokes_only_its_logins:
  "emits (fetchAndBuildMapping E cfg contextID ns n b) (\<lambda>r es.
     self_revoked es \<noteq> {} \<longrightarrow> UseProjectedSA cfg \<and> (\<exists>err. fst r = Err err) \<and>
       (\<exists>jwt. requested_jwt jwt es \<and> self_revoked es \<subseteq> login_tokens_of jwt es))"
proof (cases "UseProjectedSA cfg")
  case False
  have "calls (prepare_calls \<union> fetch_calls) (fetchAndBuildMapping E cfg contextID ns n b)"
    unfolding fetchAndBuildMapping_def Let_def if_not_P [OF False]
    by (auto split: res.splits prod.splits)
  then show ?thesis
    by (rule emits_calls)
      (simp add: no_self_revoked [where K = "prepare_calls \<union> fetch_calls"] prepare_calls_def fetch_calls_def)
next
  case True
  show ?thesis
  proof (rule emits_conseq [OF emits_fetch_projected [OF True]], intro impI)
    fix r :: "(mapping \<times> DbCreds option) res \<times> BookkeepingTokenCache option" and es
    assume "(\<forall>j. login_tokens_of j es = {}) \<and> self_revoked es = {} \<or> fetch_parts (client_ok E) (fst r) es"
      and some: "self_revoked es \<noteq> {}"
    then have "fetch_parts (client_ok E) (fst r) es"
      by auto
    then show "UseProjectedSA cfg \<and> (\<exists>err. fst r = Err err) \<and>
        (\<exists>jwt. requested_jwt jwt es \<and> self_revoked es \<subseteq> login_tokens_of jwt es)"
    proof (cases rule: fetch_partsE)
      case (1 jwt own es1 es2 es3 held)
      then have "self_revoked es = self_revoked es3" "requested_jwt jwt es" "self_revoked es3 \<subseteq> login_tokens_of jwt es"
        by auto
      with 1(10) some True show ?thesis
        by auto
    qed
  qed
qed

section \<open>Examples\<close>

definition nri_config :: Config where
  "nri_config = default_config\<lparr>UseProjectedSA := True, VaultAddress := ''http://vault'',
     VaultAuthPath := ''k8s'', KubeRole := ''injector''\<rparr>"

text \<open>Vault lets the pod log in but refuses to issue credentials.\<close>

definition no_creds_env :: env where
  "no_creds_env = calm_env\<lparr>e_read := \<lambda>h cl p. Inl (Newf ''permission denied'' [])\<rparr>"

definition refused_fetch :: "((mapping \<times> DbCreds option) res \<times> BookkeepingTokenCache option) \<times> event list" where
  "refused_fetch = run_state (fetchAndBuildMapping no_creds_env nri_config ''u1'' ''ns'' ''p1'' None) []"

lemma refused_fetch_login:
  "AuthLogin ''http://vault'' ''k8s'' ''ro'' ''jwt'' (Inr ''tok-ro'') \<in> set (snd refused_fetch)"
  by code_simp

lemma refused_fetch_err: "\<exists>err. fst (fst refused_fetch) = Err err"
proof -
  have "case fst (fst refused_fetch) of Err err \<Rightarrow> True | _ \<Rightarrow> False"
    by code_simp
  then show ?thesis
    by (auto split: res.splits)
qed

lemma refused_fetch_jwt: "\<not> read_jwt ''jwt'' (snd refused_fetch)"
proof -
  have "list_all (\<lambda>e. case e of ReadFile f (Inr jwt) \<Rightarrow> jwt \<noteq> ''jwt'' | _ \<Rightarrow> True) (snd refused_fetch)"
    by code_simp
  then show ?thesis
    by (fastforce simp: read_jwt_def list_all_iff)
qed

lemma fetch_error_revokes_logins_witness: "''tok-ro'' \<in> self_revoked (snd refused_fetch)"
proof -
  have "UseProjectedSA nri_config" "client_ok no_creds_env"
    by (code_simp, simp add: client_ok_def no_creds_env_def calm_env_def)
  then have "emits (fetchAndBuildMapping no_creds_env nri_config ''u1'' ''ns'' ''p1'' None) (\<lambda>r es.
     \<forall>err jwt tok. fst r = Err err \<longrightarrow> tok \<in> login_tokens_of jwt es \<longrightarrow> \<not> read_jwt jwt es \<longrightarrow>
       tok = '''' \<or> tok \<in> self_revoked es)"
    by (rule fetch_error_revokes_logins)
  from emits_run [OF this, folded refused_fetch_def] refused_fetch_err refused_fetch_jwt
  have "\<forall>tok. tok \<in> login_tokens_of ''jwt'' (snd refused_fetch) \<longrightarrow>
      tok = '''' \<or> tok \<in> self_revoked (snd refused_fetch)"
    by blast
  moreover have "''tok-ro'' \<in> login_tokens_of ''jwt'' (snd refused_fetch)"
    using refused_fetch_login by (auto simp: login_tokens_of_def)
  ultimately show ?thesis
    by blast
qed

lemma fetch_revokes_only_its_logins_witness:
  "\<exists>jwt. requested_jwt jwt (snd refused_fetch) \<and> ''tok-ro'' \<in> login_tokens_of jwt (snd refused_fetch)"
proof -
  have "RevokeSelf \<lparr>cl_address = ''http://vault'', cl_token = ''tok-ro''\<rparr> None \<in> set (snd refused_fetch)"
    by code_simp
  then have "''tok-ro'' \<in> self_revoked (snd refused_fetch)"
    by (auto simp: self_revoked_def)
  then show ?thesis
    using emits_run [OF fetch_revokes_only_its_logins
        [of no_creds_env nri_config "''u1''" "''ns''" "''p1''" None], folded refused_fetch_def]
    by blast
qed

end
