(* ===== verification/Mutator.thy ===== *)
theory Mutator
  imports Fetch_Cleanup
begin

text \<open>
  Package \<^verbatim>\<open>pkg/k8smutator\<close>: the mutating admission webhook. It authorizes the pod's ServiceAccount
  for every database configuration and adds environment variables to all containers: real
  credentials in legacy mode, placeholders in NRI mode. The pod is mutated in place in the
  source, so the functions return it also when they fail.
\<close>

section \<open>Adding environment variables\<close>

definition generateUUID :: "env \<Rightarrow> string io" where
  "generateUUID E = perform (e_uuid E) NewUUID"

text \<open>\<^verbatim>\<open>placeholder.Generate\<close>; a failing random source panics.\<close>

definition generate_placeholder :: "env \<Rightarrow> string res io" where
  "generate_placeholder E = do {
     r \<leftarrow> perform (e_rand E) RandRead;
     ret (case r of Inl err \<Rightarrow> Panic | Inr raw \<Rightarrow> Ok (Generate raw)) }"

definition generatePlaceholders :: "env \<Rightarrow> (string \<times> string) res io" where
  "generatePlaceholders E =
     check (generate_placeholder E) (\<lambda>userPH.
     check (generate_placeholder E) (\<lambda>passPH.
     ret (Ok (userPH, passPH))))"

definition add_env :: "env_var list \<Rightarrow> container \<Rightarrow> container" where
  "add_env vars c = c\<lparr>c_env := c_env c @ vars\<rparr>"

definition add_env_all :: "env_var list \<Rightarrow> pod \<Rightarrow> pod" where
  "add_env_all vars p =
     p\<lparr>pod_init_containers := map (add_env vars) (pod_init_containers p),
       pod_containers := map (add_env vars) (pod_containers p)\<rparr>"

definition env_vars :: "string list \<Rightarrow> string \<Rightarrow> env_var list" where
  "env_vars keys value = map (\<lambda>k. \<lparr>ev_name = k, ev_value = value\<rparr>) keys"

text \<open>The pair of values to inject. Credentials are absent in NRI mode and are not read there.\<close>

definition injected_values :: "env \<Rightarrow> DbCreds option \<Rightarrow> bool \<Rightarrow> (string \<times> string) res io" where
  "injected_values E creds nriEnabled =
     (if nriEnabled then generatePlaceholders E
      else ret (case creds of None \<Rightarrow> Panic | Some c \<Rightarrow> Ok (Username c, Password c)))"

definition classic_vars :: "DbConfiguration \<Rightarrow> string \<Rightarrow> string \<Rightarrow> env_var list" where
  "classic_vars dbConf userVal passVal =
     env_vars (Split (DbUserEnvKey dbConf) CHR '','') userVal @
     env_vars (Split (DbPasswordEnvKey dbConf) CHR '','') passVal"

definition applyClassic ::
  "env \<Rightarrow> pod \<Rightarrow> DbConfiguration \<Rightarrow> DbCreds option \<Rightarrow> bool \<Rightarrow> pod res io" where
  "applyClassic E p dbConf creds nriEnabled =
     check (injected_values E creds nriEnabled) (\<lambda>(userVal, passVal).
     ret (Ok (add_env_all (classic_vars dbConf userVal passVal) p)))"

definition uri_vars :: "DbConfiguration \<Rightarrow> string \<Rightarrow> env_var list" where
  "uri_vars dbConf updatedDSN = env_vars (Split (DbURIEnvKey dbConf) CHR '','') updatedDSN"

definition applyURI ::
  "env \<Rightarrow> pod \<Rightarrow> DbConfiguration \<Rightarrow> DbCreds option \<Rightarrow> bool \<Rightarrow> pod res io" where
  "applyURI E p dbConf creds nriEnabled =
     (case Parse (Template dbConf) of
        Inl err \<Rightarrow> ret (Err (Wrap err ''error parsing DSN template''))
      | Inr dsnURL \<Rightarrow>
          check (injected_values E creds nriEnabled) (\<lambda>(user, pass).
            let updatedDSN = URL_String (dsnURL\<lparr>u_User := Some (UserPassword user pass)\<rparr>)
            in ret (Ok (add_env_all (uri_vars dbConf updatedDSN) p))))"

definition applyEnvToContainersWithNRI ::
  "env \<Rightarrow> pod \<Rightarrow> DbConfiguration \<Rightarrow> DbCreds option \<Rightarrow> bool \<Rightarrow> pod res io" where
  "applyEnvToContainersWithNRI E p dbConf creds nriEnabled =
     (let mode = ToLower (db_Mode dbConf)
      in if mode = '''' \<or> mode = DbModeClassic then applyClassic E p dbConf creds nriEnabled
         else if mode = DbModeURI then applyURI E p dbConf creds nriEnabled
         else ret (Err (Newf ''mode not supported : %s'' [db_Mode dbConf])))"

section \<open>Authorization and credentials\<close>

definition checkConfiguration :: "DbConfiguration \<Rightarrow> goerr option" where
  "checkConfiguration dbConf =
     (if DbName dbConf = ''''
      then Some (Newf ''missing required database configuration: DbName must be specified'' [])
      else if Role dbConf = ''''
      then Some (Newf ''missing required database configuration: Role must be specified'' [])
      else None)"

text \<open>
  \<^verbatim>\<open>authorizeDbAccess\<close>. On an error after the login the source also returns the connector; the
  caller drops it, and so does this function.
\<close>

definition authorizeDbAccess ::
  "env \<Rightarrow> Config \<Rightarrow> DbConfiguration \<Rightarrow> string \<Rightarrow> string \<Rightarrow> string \<Rightarrow> pod \<Rightarrow> BookkeepingTokenCache option
   \<Rightarrow> (connector res \<times> BookkeepingTokenCache option) io" where
  "authorizeDbAccess E cfg dbConf vaultDbPath tok injectorSaToken p bookCache = do {
     let auth_role = (if UseProjectedSA cfg then Role dbConf else KubeRole cfg);
     l \<leftarrow> Login E (NewConnector (VaultAddress cfg) (VaultAuthPath cfg) auth_role vaultDbPath
                   (Role dbConf) tok (VaultRateLimit cfg));
     case l of
       Panic \<Rightarrow> ret (Panic, bookCache)
     | Err err \<Rightarrow> do {
         _ \<leftarrow> metric (Inc VaultLoginErrors [ClassifyLoginError (Some err),
                if UseProjectedSA cfg then ''projected'' else ''legacy'']);
         ret (Err (Wrap err ''cannot authenticate vault role''), bookCache) }
     | Ok vaultConn \<Rightarrow>
         if UseProjectedSA cfg then do {
           v \<leftarrow> check_period E vaultConn (Role dbConf);
           if v = Panic then ret (Panic, bookCache)
           else do {
             b \<leftarrow> book_token E cfg bookCache injectorSaToken (KubeRole cfg);
             case b of
               (Ok bookToken, bookCache') \<Rightarrow>
                 ret (Ok (vaultConn\<lparr>K8sSaVaultToken := bookToken\<rparr>), bookCache')
             | (Err bookErr, bookCache') \<Rightarrow> do {
                 _ \<leftarrow> metric (Inc VaultLoginErrors
                        [ClassifyLoginError (Some bookErr), ''projected_bookkeeping'']);
                 ret (Err (Wrap bookErr ''vault login as injector SA for bookkeeping''), bookCache') }
             | (Panic, bookCache') \<Rightarrow> ret (Panic, bookCache') } }
         else do {
           let conn = vaultConn\<lparr>K8sSaVaultToken := GetToken vaultConn\<rparr>;
           r \<leftarrow> CanIGetRoles E conn (pod_service_account p) (pod_namespace p)
                 (VaultAuthPath cfg) (Role dbConf);
           ret (case r of
                  Ok ok \<Rightarrow> Ok conn
                | Err err \<Rightarrow> Err err
                | Panic \<Rightarrow> Panic, bookCache) } }"

definition fetchDbCredentials ::
  "env \<Rightarrow> Config \<Rightarrow> DbConfiguration \<Rightarrow> connector \<Rightarrow> pod \<Rightarrow> (DbCreds res \<times> connector) io" where
  "fetchDbCredentials E cfg dbConf vaultConn p = do {
     podUuid \<leftarrow> generateUUID E;
     g \<leftarrow> GetDbCredentials E vaultConn
           (creds_request cfg podUuid (pod_namespace p) (pod_service_account p));
     ret (case g of
            (Ok creds, conn) \<Rightarrow> (Ok (creds\<lparr>PodUUID := podUuid\<rparr>), conn)
          | (Err err, conn) \<Rightarrow> (Err (Wrap err
              (Sprintf ''cannot get database credentials from role %s'' [Role dbConf])), conn)
          | (Panic, conn) \<Rightarrow> (Panic, conn)) }"

section \<open>One configuration\<close>

text \<open>
  The end of the loop body: in NRI mode the webhook's own login token is revoked, and cleared so
  that the deferred cleanup does not revoke it again. In projected mode that is the pod token,
  in legacy mode the login token kept for bookkeeping.
\<close>

definition release_login :: "env \<Rightarrow> Config \<Rightarrow> connector \<Rightarrow> connector res io" where
  "release_login E cfg vaultConn =
     (if \<not> nri_Enabled (NRI cfg) then ret (Ok vaultConn)
      else if \<not> UseProjectedSA cfg then
        (if K8sSaVaultToken vaultConn = '''' then ret (Ok vaultConn)
         else do {
           r \<leftarrow> RevokeSelfToken E vaultConn (K8sSaVaultToken vaultConn);
           ret (if r = Panic then Panic else Ok (vaultConn\<lparr>K8sSaVaultToken := ''''\<rparr>)) })
      else
        (if GetToken vaultConn = '''' then ret (Ok vaultConn)
         else do {
           r \<leftarrow> RevokeSelfToken E vaultConn (GetToken vaultConn);
           ret (if r = Panic then Panic else SetToken vaultConn '''') }))"

text \<open>
  The body after the authorization succeeded. The result is the UUID of the configuration; the
  connector and the pod are returned as they are when the body ends, for whatever reason.
\<close>

record body_state =
  bs_pod :: pod
  bs_conn :: connector

definition inject_body ::
  "env \<Rightarrow> Config \<Rightarrow> DbConfiguration \<Rightarrow> connector \<Rightarrow> pod \<Rightarrow> (string res \<times> body_state) io" where
  "inject_body E cfg dbConf vaultConn p = do {
     f \<leftarrow> (if nri_Enabled (NRI cfg) then ret (Ok None, vaultConn)
           else do {
             g \<leftarrow> fetchDbCredentials E cfg dbConf vaultConn p;
             ret (case g of (Ok creds, conn) \<Rightarrow> (Ok (Some creds), conn)
                          | (Err err, conn) \<Rightarrow> (Err err, conn) | (Panic, conn) \<Rightarrow> (Panic, conn)) });
     case f of
       (Panic, conn) \<Rightarrow> ret (Panic, \<lparr>bs_pod = p, bs_conn = conn\<rparr>)
     | (Err err, conn) \<Rightarrow> ret (Err err, \<lparr>bs_pod = p, bs_conn = conn\<rparr>)
     | (Ok creds, conn) \<Rightarrow> do {
         a \<leftarrow> applyEnvToContainersWithNRI E p dbConf creds (nri_Enabled (NRI cfg));
         case a of
           Panic \<Rightarrow> ret (Panic, \<lparr>bs_pod = p, bs_conn = conn\<rparr>)
         | Err err \<Rightarrow> ret (Err err, \<lparr>bs_pod = p, bs_conn = conn\<rparr>)
         | Ok p' \<Rightarrow> do {
             l \<leftarrow> release_login E cfg conn;
             case l of
               Ok conn' \<Rightarrow> do {
                 uuid \<leftarrow> (case creds of Some c \<Rightarrow> ret (PodUUID c) | None \<Rightarrow> generateUUID E);
                 ret (Ok uuid, \<lparr>bs_pod = p', bs_conn = conn'\<rparr>) }
             | Err err \<Rightarrow> ret (Err err, \<lparr>bs_pod = p', bs_conn = conn\<rparr>)
             | Panic \<Rightarrow> ret (Panic, \<lparr>bs_pod = p', bs_conn = conn\<rparr>) } } }"

section \<open>All configurations\<close>

text \<open>
  The loop. Its result: the UUIDs or an error with the role it is about, the pod, the connectors
  that were authorized, the cache.
\<close>

record inject_state =
  is_pod :: pod
  is_liveConns :: "connector list"
  is_book :: "BookkeepingTokenCache option"

fun inject_configs ::
  "env \<Rightarrow> Config \<Rightarrow> string \<Rightarrow> string \<Rightarrow> string \<Rightarrow> DbConfiguration list \<Rightarrow> string list \<Rightarrow> inject_state
   \<Rightarrow> (string list res \<times> string \<times> inject_state) io" where
  "inject_configs E cfg vaultDbPath tok injectorSaToken [] podUuids st =
     ret (Ok podUuids, '''', st)"
| "inject_configs E cfg vaultDbPath tok injectorSaToken (dbConf # rest) podUuids st =
     (case checkConfiguration dbConf of
        Some err \<Rightarrow> ret (Err err, ''db-role not found'', st)
      | None \<Rightarrow> do {
          a \<leftarrow> authorizeDbAccess E cfg dbConf vaultDbPath tok injectorSaToken (is_pod st) (is_book st);
          case a of
            (Panic, b) \<Rightarrow> ret (Panic, Role dbConf, st\<lparr>is_book := b\<rparr>)
          | (Err err, b) \<Rightarrow> ret (Err err, Role dbConf, st\<lparr>is_book := b\<rparr>)
          | (Ok vaultConn, b) \<Rightarrow> do {
              r \<leftarrow> inject_body E cfg dbConf vaultConn (is_pod st);
              let st' = \<lparr>is_pod = bs_pod (snd r), is_liveConns = is_liveConns st @ [bs_conn (snd r)],
                         is_book = b\<rparr>;
              case fst r of
                Panic \<Rightarrow> ret (Panic, Role dbConf, st')
              | Err err \<Rightarrow> ret (Err err, Role dbConf, st')
              | Ok uuid \<Rightarrow>
                  inject_configs E cfg vaultDbPath tok injectorSaToken rest (podUuids @ [uuid]) st' } })"

text \<open>The token that the deferred cleanup revokes.\<close>

definition cleanup_token :: "Config \<Rightarrow> connector \<Rightarrow> string" where
  "cleanup_token cfg c = (if UseProjectedSA cfg then GetToken c else K8sSaVaultToken c)"

definition injectCredentialsIntoPod ::
  "env \<Rightarrow> Config \<Rightarrow> DbConfiguration list \<Rightarrow> string \<Rightarrow> string \<Rightarrow> string \<Rightarrow> pod \<Rightarrow> BookkeepingTokenCache option
   \<Rightarrow> (string list res \<times> string \<times> pod \<times> BookkeepingTokenCache option) io" where
  "injectCredentialsIntoPod E cfg dbConfs vaultDbPath tok injectorSaToken p bookCache =
     (if dbConfs = [] then ret (Err (Newf ''No dbConfiguration has been provided'' []), '''', p, bookCache)
      else do {
        r \<leftarrow> inject_configs E cfg vaultDbPath tok injectorSaToken dbConfs []
              \<lparr>is_pod = p, is_liveConns = [], is_book = bookCache\<rparr>;
        case r of
          (Err err, role, st) \<Rightarrow> do {
            d \<leftarrow> revoke_all E (cleanup_token cfg) (is_liveConns st);
            ret (if d = Panic then Panic else Err err, role, is_pod st, is_book st) }
        | (res, role, st) \<Rightarrow> ret (res, role, is_pod st, is_book st) })"

section \<open>The webhook\<close>

text \<open>
  One admission. The result is the object of the response beside an error; the parser's v1 error
  lets the pod through as it is.
\<close>

definition set_annotation :: "string \<Rightarrow> string \<Rightarrow> pod \<Rightarrow> pod" where
  "set_annotation k v p = p\<lparr>pod_annotations := AList.update k v (pod_annotations p)\<rparr>"

text \<open>The cache after the call; the webhook always passes one.\<close>

definition kept :: "BookkeepingTokenCache \<Rightarrow> BookkeepingTokenCache option \<Rightarrow> BookkeepingTokenCache" where
  "kept entries b = (case b of Some entries' \<Rightarrow> entries' | None \<Rightarrow> entries)"

definition webhook_tokens :: "env \<Rightarrow> Config \<Rightarrow> pod \<Rightarrow> (string \<times> string) res io" where
  "webhook_tokens E cfg p = do {
     t \<leftarrow> VaultLoginToken E p (UseProjectedSA cfg) (TokenRequestAudiences cfg)
           (TokenRequestExpirationSeconds cfg);
     case t of
       Panic \<Rightarrow> ret Panic
     | Err err \<Rightarrow> do {
         _ \<leftarrow> metric (Inc TokenRequestErrors [ClassifyTokenRequestError (Some err)]);
         ret (Err (Wrap err ''obtain Vault login token'')) }
     | Ok tok \<Rightarrow>
         if UseProjectedSA cfg then do {
           s \<leftarrow> GetServiceAccountToken E;
           ret (case s of
                  Ok injTok \<Rightarrow> Ok (tok, injTok)
                | Err err \<Rightarrow> Err (Wrap err ''read injector SA token for bookkeeping login'')
                | Panic \<Rightarrow> Panic) }
         else ret (Ok (tok, '''')) }"

definition mutate ::
  "env \<Rightarrow> Config \<Rightarrow> pod \<Rightarrow> BookkeepingTokenCache \<Rightarrow> (unit res \<times> pod \<times> BookkeepingTokenCache) io" where
  "mutate E cfg p entries = do {
     contextID \<leftarrow> generateUUID E;
     case GetPodDbConfig cfg (pod_annotations p) of
       Panic \<Rightarrow> ret (Panic, p, entries)
     | Err err \<Rightarrow>
         if err_is err V1AnnotationDetected then ret (Ok (), p, entries)
         else ret (Err (Wrap err ''failed to get Pod DB configuration''), p, entries)
     | Ok podDbConfig \<Rightarrow> do {
         t \<leftarrow> webhook_tokens E cfg p;
         case t of
           Panic \<Rightarrow> ret (Panic, p, entries)
         | Err err \<Rightarrow> ret (Err err, p, entries)
         | Ok (tok, injTok) \<Rightarrow> do {
             r \<leftarrow> injectCredentialsIntoPod E cfg (DbConfigurations podDbConfig)
                   (VaultDbPath podDbConfig) tok injTok p (Some entries);
             case r of
               (Panic, role, p', b) \<Rightarrow> ret (Panic, p', kept entries b)
             | (Err err, role, p', b) \<Rightarrow> do {
                 _ \<leftarrow> metric (Inc MutatedPodWithErrorCount []);
                 ret (Err (Wrap err (Sprintf ''cannot get database credentials from role %s'' [role])),
                      p', kept entries b) }
             | (Ok podUuids, role, p', b) \<Rightarrow> do {
                 let p'' = (if 0 < length podUuids
                            then set_annotation ANNOTATION_VAULT_POD_UUID (Join podUuids '','') p'
                            else p');
                 _ \<leftarrow> metric (Inc MutatedPodWithSuccessCount []);
                 ret (Ok (), p'', kept entries b) } } } }"

section \<open>Calls\<close>

lemma calls_generateUUID [intro!]: "{C_uuid} \<subseteq> K \<Longrightarrow> calls K (generateUUID E)"
  unfolding generateUUID_def
  by auto

lemma calls_generatePlaceholders [intro!]: "{C_rand} \<subseteq> K \<Longrightarrow> calls K (generatePlaceholders E)"
  unfolding generatePlaceholders_def generate_placeholder_def
  by auto

lemma calls_applyEnv [intro!]:
  "{C_rand} \<subseteq> K \<Longrightarrow> calls K (applyEnvToContainersWithNRI E p d creds b)"
  unfolding applyEnvToContainersWithNRI_def applyClassic_def applyURI_def injected_values_def Let_def
  by (auto split: sum.splits prod.splits)

definition authorize_calls :: "call set" where
  "authorize_calls = {C_lookup_self, C_metric, C_now, C_new_client, C_k8s_auth, C_login, C_read}"

lemma calls_authorizeDbAccess [intro!]:
  "authorize_calls \<subseteq> K \<Longrightarrow> calls K (authorizeDbAccess E cfg d path tok injTok p b)"
  unfolding authorizeDbAccess_def authorize_calls_def Let_def
  by (auto split: res.splits prod.splits)

lemma calls_fetchDbCredentials [intro!]:
  "{C_uuid, C_create_orphan, C_metric, C_read, C_spawn_store} \<subseteq> K \<Longrightarrow>
   calls K (fetchDbCredentials E cfg d c p)"
  unfolding fetchDbCredentials_def
  by auto

lemma calls_release_login [intro!]:
  "{C_new_client, C_revoke_self, C_metric} \<subseteq> K \<Longrightarrow> calls K (release_login E cfg c)"
  unfolding release_login_def
  by auto

lemma calls_injected_values [intro!]: "{C_rand} \<subseteq> K \<Longrightarrow> calls K (injected_values E creds b)"
  unfolding injected_values_def
  by auto

definition body_calls :: "call set" where
  "body_calls = {C_uuid, C_create_orphan, C_metric, C_read, C_spawn_store, C_rand, C_new_client, C_revoke_self}"

lemma calls_inject_body [intro!]: "body_calls \<subseteq> K \<Longrightarrow> calls K (inject_body E cfg d c p)"
  unfolding inject_body_def body_calls_def
  by (auto split: res.splits prod.splits option.splits)

lemma calls_inject_configs [intro!]:
  "authorize_calls \<union> body_calls \<subseteq> K \<Longrightarrow> calls K (inject_configs E cfg path tok injTok ds us st)"
  by (induction ds arbitrary: us st) (auto simp: Let_def split: res.splits option.splits prod.splits)

end
