(* ===== verification/Mutator_Safety.thy ===== *)
theory Mutator_Safety
  imports Mutator
begin

text \<open>
  What the mutating webhook may do: to the pod (append variables, set one annotation) and, in NRI
  mode, to the database (nothing). What it leaves behind in Vault is the theory \<^verbatim>\<open>Webhook_Logins\<close>.
\<close>

section \<open>What the webhook may change in a pod\<close>

text \<open>Variables are appended to the environments; everything else of the pod is as it was.\<close>

definition pod_extends :: "pod \<Rightarrow> pod \<Rightarrow> bool" where
  "pod_extends p p' \<longleftrightarrow> (\<exists>vars. p' = add_env_all vars p)"

lemma add_env_Nil [simp]: "add_env [] c = c"
  by (simp add: add_env_def)

lemma add_env_add_env [simp]: "add_env ws (add_env vs c) = add_env (vs @ ws) c"
  by (simp add: add_env_def)

lemma add_env_all_Nil: "add_env_all [] p = p"
  by (simp add: add_env_all_def map_idI)

lemma add_env_all_append: "add_env_all ws (add_env_all vs p) = add_env_all (vs @ ws) p"
  by (simp add: add_env_all_def)

lemma pod_extends_refl [simp, intro]: "pod_extends p p"
  unfolding pod_extends_def by (metis add_env_all_Nil)

lemma pod_extends_trans [trans]: "pod_extends p q \<Longrightarrow> pod_extends q r \<Longrightarrow> pod_extends p r"
  unfolding pod_extends_def by (metis add_env_all_append)

lemma pod_extends_add [simp, intro]: "pod_extends p (add_env_all vars p)"
  unfolding pod_extends_def by blast

lemma emits_applyEnv_extends:
  "emits (applyEnvToContainersWithNRI E p d creds b) (\<lambda>r es. \<forall>p'. r = Ok p' \<longrightarrow> pod_extends p p')"
  unfolding applyEnvToContainersWithNRI_def applyClassic_def applyURI_def Let_def
  by (auto split: sum.splits res.splits prod.splits intro!: emits_intro emits_any)

lemma emits_inject_body_extends:
  "emits (inject_body E cfg d c p) (\<lambda>r es. pod_extends p (bs_pod (snd r)))"
  unfolding inject_body_def
  apply (rule emits_bind, rule emits_any, auto split: res.splits prod.splits)[1]
    apply (rule emits_bind, rule emits_conseq [OF emits_applyEnv_extends])
    apply (split res.split, intro conjI allI impI)
      apply (rule emits_bind, rule emits_any, blast)
      apply (auto split: res.split option.split intro!: emits_intro emits_any)
  done

lemma emits_inject_configs_extends:
  "emits (inject_configs E cfg path tok injTok ds us st) (\<lambda>r es.
     pod_extends (is_pod st) (is_pod (snd (snd r))) \<and>
     (\<forall>us'. fst r = Ok us' \<longrightarrow> length us' = length us + length ds))"
proof (induction ds arbitrary: us st)
  case (Cons d ds)
  show ?case
    unfolding inject_configs.simps
    apply (split option.split, intro conjI allI impI)
     apply (rule emits_bind, rule emits_any, blast)
     apply (split prod.split, intro allI impI, split res.split, intro conjI allI impI)
       apply (rule emits_bind, rule emits_conseq [OF emits_inject_body_extends])
       apply (simp only: Let_def, split res.split, intro conjI allI impI)
         apply (rule emits_conseq [OF Cons], auto intro: pod_extends_trans)[1]
        apply (auto intro!: emits_intro)
    done
qed (simp add: emits_return)

lemma emits_injectCredentials_extends:
  "emits (injectCredentialsIntoPod E cfg ds path tok injTok p b) (\<lambda>r es.
     pod_extends p (fst (snd (snd r))) \<and>
     (\<forall>us. fst r = Ok us \<longrightarrow> length us = length ds \<and> ds \<noteq> []))"
  unfolding injectCredentialsIntoPod_def
  apply (split if_split, intro conjI impI)
   apply (rule emits_return, simp)
  apply (rule emits_bind, rule emits_conseq [OF emits_inject_configs_extends])
  apply (auto split: prod.split res.split if_splits intro!: emits_intro emits_any)
  done

text \<open>
  C22. The webhook changes nothing of a pod except that it appends variables, the same ones to all
  containers, and, when it succeeds, records one UUID per database configuration in the annotation.
  A pod with an annotation of the first version comes back as it was. When it fails, the object in
  memory may have got variables of the configurations before the failing one, but its annotations,
  its own variables and everything else are as they were.
\<close>

theorem mutate_frame:
  "emits (mutate E cfg p entries) (\<lambda>(r, p', entries') es.
     if r = Ok () then
       (case GetPodDbConfig cfg (pod_annotations p) of
          Ok pdc \<Rightarrow> (\<exists>q us. pod_extends p q \<and> length us = length (DbConfigurations pdc) \<and> us \<noteq> [] \<and>
                     p' = set_annotation ANNOTATION_VAULT_POD_UUID (Join us '','') q)
        | Err err \<Rightarrow> err_is err V1AnnotationDetected \<and> p' = p
        | Panic \<Rightarrow> False)
     else pod_extends p p')"
  unfolding mutate_def
  apply (rule emits_bind, rule emits_any, blast)
  apply (split res.split, intro conjI allI impI)
    apply (rule emits_bind, rule emits_any)
     apply (auto simp: webhook_tokens_def split: res.splits)[1]
    apply (split res.split, intro conjI allI impI)
      apply (split prod.split, intro allI impI)
      apply (rule emits_bind, rule emits_conseq [OF emits_injectCredentials_extends])
      apply (auto simp: Let_def split: prod.split res.split intro!: emits_intro)
   apply (metis length_0_conv)
  done

section \<open>The webhook in NRI mode issues no credentials\<close>

text \<open>
  Creating an orphan token, reading a path of a database engine (they start with a slash, the paths
  of the role check do not) and recording issued credentials.
\<close>

definition issues_credentials :: "event \<Rightarrow> bool" where
  "issues_credentials e = (case e of
     CreateOrphan cl ttl n ps r \<Rightarrow> True
   | LogicalRead cl path r \<Rightarrow> prefix ''/'' path
   | SpawnStoreData a t m path d \<Rightarrow> True
   | _ \<Rightarrow> False)"

lemma issues_credentials_simps [simp]:
  "issues_credentials (LogicalRead cl path r) = prefix ''/'' path" "\<not> issues_credentials (Metric op)"
  by (simp_all add: issues_credentials_def)

lemma only_issues_calls:
  "calls K m \<Longrightarrow> K \<inter> {C_create_orphan, C_read, C_spawn_store} = {} \<Longrightarrow> only {e. \<not> issues_credentials e} m"
  unfolding calls_def by (erule only_mono) (auto simp: issues_credentials_def split: event.splits)

lemma only_issues_CanIGetRoles: "only {e. \<not> issues_credentials e} (CanIGetRoles E c sa ns path role)"
  unfolding CanIGetRoles_def deny_def Let_def
  by (auto split: sum.splits option.splits)

lemma only_issues_authorize:
  "only {e. \<not> issues_credentials e} (authorizeDbAccess E cfg d path tok injTok p b)"
proof -
  have 1: "only {e. \<not> issues_credentials e} (Login E c)" for c
    by (rule only_issues_calls [where K = "{C_new_client, C_k8s_auth, C_login}"]) auto
  have 2: "only {e. \<not> issues_credentials e} (check_period E c role)" for c role
    by (rule only_issues_calls [where K = "{C_lookup_self, C_metric}"]) auto
  have 3: "only {e. \<not> issues_credentials e} (book_token E cfg b tok role)" for b tok role
    by (rule only_issues_calls [where K = "{C_now, C_new_client, C_k8s_auth, C_login}"]) auto
  show ?thesis
    unfolding authorizeDbAccess_def Let_def
    by (auto intro!: 1 2 3 only_issues_CanIGetRoles split: res.splits)
qed

lemma calls_inject_body_nri:
  "nri_Enabled (NRI cfg) \<Longrightarrow>
   calls {C_uuid, C_metric, C_rand, C_new_client, C_revoke_self} (inject_body E cfg d c p)"
  unfolding inject_body_def
  by (auto split: res.splits prod.splits option.splits)

lemma only_issues_body:
  "nri_Enabled (NRI cfg) \<Longrightarrow> only {e. \<not> issues_credentials e} (inject_body E cfg d c p)"
  by (rule only_issues_calls, erule calls_inject_body_nri) auto

lemma only_issues_configs:
  "nri_Enabled (NRI cfg) \<Longrightarrow>
   only {e. \<not> issues_credentials e} (inject_configs E cfg path tok injTok ds us st)"
  by (induction ds arbitrary: us st)
    (auto simp: Let_def intro!: only_issues_body only_issues_authorize split: res.splits option.splits prod.splits)

text \<open>
  The placeholders of an admission are made from random bytes that it read. A variable of a
  configuration that holds nothing else: one of its user or password keys with a placeholder, or one of
  its URI keys with its template and two placeholders as the user information.
\<close>

definition drawn_placeholder :: "event list \<Rightarrow> string \<Rightarrow> bool" where
  "drawn_placeholder es ph \<longleftrightarrow> (\<exists>raw. RandRead (Inr raw) \<in> set es \<and> ph = Generate raw)"

definition placeholder_var :: "event list \<Rightarrow> DbConfiguration \<Rightarrow> env_var \<Rightarrow> bool" where
  "placeholder_var es d v \<longleftrightarrow> (\<exists>u w. drawn_placeholder es u \<and> drawn_placeholder es w \<and>
     (v \<in> set (classic_vars d u w) \<or>
      (\<exists>dsn. Parse (Template d) = Inr dsn \<and> v \<in> set (uri_vars d (URL_String (dsn\<lparr>u_User := Some (UserPassword u w)\<rparr>))))))"

definition gets_placeholders :: "DbConfiguration list \<Rightarrow> event list \<Rightarrow> pod \<Rightarrow> pod \<Rightarrow> bool" where
  "gets_placeholders ds es p p' \<longleftrightarrow>
     (\<exists>vars. p' = add_env_all vars p \<and> (\<forall>v \<in> set vars. \<exists>d \<in> set ds. placeholder_var es d v))"

lemma drawn_placeholder_mono: "drawn_placeholder es ph \<Longrightarrow> set es \<subseteq> set es' \<Longrightarrow> drawn_placeholder es' ph"
  unfolding drawn_placeholder_def by blast

lemma placeholder_var_mono: "placeholder_var es d v \<Longrightarrow> set es \<subseteq> set es' \<Longrightarrow> placeholder_var es' d v"
  unfolding placeholder_var_def using drawn_placeholder_mono by metis

lemma gets_placeholders_refl [simp, intro]: "gets_placeholders ds es p p"
  unfolding gets_placeholders_def by (rule exI [of _ "[]"]) (simp add: add_env_all_Nil)

lemma gets_placeholders_mono:
  assumes "gets_placeholders ds es p p'" "set ds \<subseteq> set ds'" "set es \<subseteq> set es'"
  shows "gets_placeholders ds' es' p p'"
proof -
  obtain vars where vars: "p' = add_env_all vars p" "\<forall>v \<in> set vars. \<exists>d \<in> set ds. placeholder_var es d v"
    using assms(1) unfolding gets_placeholders_def by blast
  have "\<forall>v \<in> set vars. \<exists>d \<in> set ds'. placeholder_var es' d v"
  proof
    fix v
    assume "v \<in> set vars"
    then have "\<exists>d \<in> set ds. placeholder_var es d v"
      using vars(2) by simp
    with assms(2,3) show "\<exists>d \<in> set ds'. placeholder_var es' d v"
      by (elim bexE, intro bexI) (rule placeholder_var_mono, assumption+, rule subsetD)
  qed
  with vars(1) show ?thesis
    unfolding gets_placeholders_def by (intro exI [of _ vars] conjI)
qed

lemma gets_placeholders_append:
  "gets_placeholders ds es p p' \<Longrightarrow> gets_placeholders ds (es @ es') p p'"
  "gets_placeholders ds es' p p' \<Longrightarrow> gets_placeholders ds (es @ es') p p'"
  "gets_placeholders ds es' p p' \<Longrightarrow> gets_placeholders ds (e # es') p p'"
  by (auto elim!: gets_placeholders_mono)

lemma gets_placeholders_trans:
  "gets_placeholders ds es p q \<Longrightarrow> gets_placeholders ds es q r \<Longrightarrow> gets_placeholders ds es p r"
  unfolding gets_placeholders_def by (metis UnE add_env_all_append set_append)

lemma emits_generatePlaceholders:
  "emits (generatePlaceholders E) (\<lambda>r es. \<forall>u w. r = Ok (u, w) \<longrightarrow> drawn_placeholder es u \<and> drawn_placeholder es w)"
  unfolding generatePlaceholders_def generate_placeholder_def
  by (intro emits_intro) (auto simp: drawn_placeholder_def split: sum.splits intro!: emits_intro)

lemma emits_applyEnv_placeholders:
  "emits (applyEnvToContainersWithNRI E p d creds True) (\<lambda>r es. \<forall>p'. r = Ok p' \<longrightarrow> gets_placeholders [d] es p p')"
proof -
  have classic: "gets_placeholders [d] es p (add_env_all (classic_vars d u w) p)"
    if "drawn_placeholder es u" "drawn_placeholder es w" for es u w
    unfolding gets_placeholders_def placeholder_var_def using that by auto
  have uri: "gets_placeholders [d] es p (add_env_all (uri_vars d (URL_String (dsn\<lparr>u_User := Some (UserPassword u w)\<rparr>))) p)"
    if "drawn_placeholder es u" "drawn_placeholder es w" "Parse (Template d) = Inr dsn" for es u w dsn
    unfolding gets_placeholders_def placeholder_var_def using that by auto
  show ?thesis
    unfolding applyEnvToContainersWithNRI_def applyClassic_def applyURI_def injected_values_def Let_def
    by (auto simp: classic uri split: sum.splits res.splits prod.splits
        intro!: emits_intro emits_conseq [OF emits_generatePlaceholders])
qed

lemma emits_inject_body_placeholders:
  assumes "nri_Enabled (NRI cfg)"
  shows "emits (inject_body E cfg d c p) (\<lambda>r es. gets_placeholders [d] es p (bs_pod (snd r)))"
  unfolding inject_body_def
  apply (simp add: assms)
  apply (rule emits_bind, rule emits_conseq [OF emits_applyEnv_placeholders])
  apply (split res.split, intro conjI allI impI)
    apply (rule emits_bind, rule emits_any, blast)
    apply (auto split: res.split option.split intro!: emits_intro emits_any intro: gets_placeholders_append)
  done

lemma emits_inject_configs_placeholders:
  assumes "nri_Enabled (NRI cfg)"
  shows "emits (inject_configs E cfg path tok injTok ds us st) (\<lambda>r es.
     gets_placeholders ds es (is_pod st) (is_pod (snd (snd r))))"
proof (induction ds arbitrary: us st)
  case (Cons d ds)
  have step: "gets_placeholders (d # ds) (es1 @ es2 @ es3) p q"
    if "gets_placeholders [d] es2 p q" for es1 es2 es3 p q
    by (rule gets_placeholders_mono [OF that]) auto
  have rest: "gets_placeholders (d # ds) (es1 @ es2 @ es3) p r"
    if "gets_placeholders [d] es2 p q" "gets_placeholders ds es3 q r" for es1 es2 es3 p q r
    by (rule gets_placeholders_trans [OF step [OF that(1)] gets_placeholders_mono [OF that(2)]]) auto
  show ?case
    unfolding inject_configs.simps
    apply (split option.split, intro conjI allI impI)
     apply (rule emits_bind, rule emits_any, blast)
     apply (split prod.split, intro allI impI, split res.split, intro conjI allI impI)
       apply (rule emits_bind, rule emits_conseq [OF emits_inject_body_placeholders [OF assms]])
       apply (simp only: Let_def, split res.split, intro conjI allI impI)
         apply (rule emits_conseq [OF Cons], simp add: rest)
        apply (rule emits_return, simp add: step [where ?es3.0 = "[]", simplified])
       apply (rule emits_return, simp add: step [where ?es3.0 = "[]", simplified])
      apply (auto intro!: emits_intro)
    done
qed (simp add: emits_return)

lemma emits_injectCredentials_placeholders:
  assumes "nri_Enabled (NRI cfg)"
  shows "emits (injectCredentialsIntoPod E cfg ds path tok injTok p b) (\<lambda>r es.
     gets_placeholders ds es p (fst (snd (snd r))))"
  unfolding injectCredentialsIntoPod_def
  apply (split if_split, intro conjI impI)
   apply (rule emits_return, simp)
  apply (rule emits_bind, rule emits_conseq [OF emits_inject_configs_placeholders [OF assms]])
  apply (auto split: prod.split res.split intro!: emits_intro emits_any intro: gets_placeholders_append)
  done

lemma add_env_all_annotations [simp]:
  "(add_env_all vars p)\<lparr>pod_annotations := a\<rparr> = add_env_all vars (p\<lparr>pod_annotations := a\<rparr>)"
  "pod_annotations (add_env_all vars p) = pod_annotations p"
  by (simp_all add: add_env_all_def)

lemma gets_placeholders_annotations:
  "gets_placeholders ds es p p' \<Longrightarrow> gets_placeholders ds es p (p'\<lparr>pod_annotations := pod_annotations p\<rparr>)"
  by (auto simp: gets_placeholders_def)

definition parsed_configs :: "Config \<Rightarrow> pod \<Rightarrow> DbConfiguration list" where
  "parsed_configs cfg p =
     (case GetPodDbConfig cfg (pod_annotations p) of Ok pdc \<Rightarrow> DbConfigurations pdc | _ \<Rightarrow> [])"

text \<open>The end of an admission may set the annotation, and adds nothing to the containers.\<close>

definition finish_admission ::
  "string list res \<times> string \<times> pod \<times> BookkeepingTokenCache option \<Rightarrow> BookkeepingTokenCache
   \<Rightarrow> (unit res \<times> pod \<times> BookkeepingTokenCache) io" where
  "finish_admission r entries = (case r of
       (Panic, role, p', b) \<Rightarrow> ret (Panic, p', kept entries b)
     | (Err err, role, p', b) \<Rightarrow> do {
         _ \<leftarrow> metric (Inc MutatedPodWithErrorCount []);
         ret (Err (Wrap err (Sprintf ''cannot get database credentials from role %s'' [role])),
              p', kept entries b) }
     | (Ok podUuids, role, p', b) \<Rightarrow> do {
         let p'' = (if 0 < length podUuids
                    then set_annotation ANNOTATION_VAULT_POD_UUID (Join podUuids '','') p'
                    else p');
         _ \<leftarrow> metric (Inc MutatedPodWithSuccessCount []);
         ret (Ok (), p'', kept entries b) })"

lemma emits_finish_admission:
  "emits (finish_admission r entries) (\<lambda>r' es. \<forall>a. (fst (snd r'))\<lparr>pod_annotations := a\<rparr> =
     (fst (snd (snd r)))\<lparr>pod_annotations := a\<rparr>)"
  unfolding finish_admission_def
  by (auto simp: set_annotation_def Let_def split: prod.split res.split intro!: emits_intro)

lemma emits_mutate_placeholders:
  assumes "nri_Enabled (NRI cfg)"
  shows "emits (mutate E cfg p entries) (\<lambda>r es.
     gets_placeholders (parsed_configs cfg p) es p ((fst (snd r))\<lparr>pod_annotations := pod_annotations p\<rparr>))"
  unfolding mutate_def finish_admission_def [symmetric]
  apply (rule emits_bind, rule emits_any, blast)
  apply (split res.split, intro conjI allI impI)
    apply (rule emits_bind, rule emits_any, (auto simp: webhook_tokens_def split: res.splits)[1])
    apply (split res.split, intro conjI allI impI)
      apply (split prod.split, intro allI impI)
      apply (rule emits_bind, rule emits_conseq [OF emits_injectCredentials_placeholders [OF assms]])
      apply (rule emits_conseq [OF emits_finish_admission])
      apply (simp add: parsed_configs_def gets_placeholders_annotations gets_placeholders_append)
     apply (auto intro!: emits_intro)
  done

text \<open>
  C13. With the plugin enabled the webhook issues nothing: whatever happens, an admission creates no
  orphan token, reads no credentials from a database engine and records no lease. What it adds to the
  pod are variables of the annotated configurations with placeholders made from bytes that it drew
  itself. Only the node that runs the pod obtains credentials.
\<close>

theorem nri_webhook_issues_nothing:
  assumes "nri_Enabled (NRI cfg)"
  shows "emits (mutate E cfg p entries) (\<lambda>(r, p', entries') es. (\<forall>e \<in> set es. \<not> issues_credentials e) \<and>
     gets_placeholders (parsed_configs cfg p) es p (p'\<lparr>pod_annotations := pod_annotations p\<rparr>))"
proof -
  have 1: "only {e. \<not> issues_credentials e} (generateUUID E)"
    by (rule only_issues_calls [where K = "{C_uuid}"]) auto
  have 2: "only {e. \<not> issues_credentials e} (webhook_tokens E cfg p)"
    unfolding webhook_tokens_def
    by (rule only_issues_calls [where K = "{C_kube_client, C_create_token, C_read_file, C_metric}"])
      (auto split: res.splits)
  have 3: "only {e. \<not> issues_credentials e} (revoke_all E f cs)" for f cs
    by (rule only_issues_calls [where K = "{C_new_client, C_revoke_self, C_metric}"]) auto
  have all: "only {e. \<not> issues_credentials e} (mutate E cfg p entries)"
    unfolding mutate_def injectCredentialsIntoPod_def Let_def
    by (auto intro!: 1 2 3 only_issues_configs assms split: res.splits prod.splits)
  show ?thesis
    by (rule emits_conseq [OF emits_conj [OF all [unfolded only_def] emits_mutate_placeholders [OF assms]]])
      (simp add: split_beta subset_eq)
qed

section \<open>Examples\<close>

text \<open>Configurations in legacy and in NRI mode, two annotated databases.\<close>

definition legacy_config :: Config where
  "legacy_config = default_config\<lparr>VaultAddress := ''http://vault'', VaultAuthPath := ''k8s'', KubeRole := ''injector''\<rparr>"

definition two_configs :: "DbConfiguration list" where
  "two_configs =
    [\<lparr>DbURIEnvKey = '''', DbUserEnvKey = ''USER'', DbPasswordEnvKey = ''PASS'', DbName = ''pg'',
      db_Mode = '''', Template = '''', Role = ''ro''\<rparr>,
     \<lparr>DbURIEnvKey = '''', DbUserEnvKey = ''U2'', DbPasswordEnvKey = ''P2'', DbName = ''my'',
      db_Mode = '''', Template = '''', Role = ''rw''\<rparr>]"

definition nri_webhook_config :: Config where
  "nri_webhook_config = nri_config\<lparr>NRI := (NRI nri_config)\<lparr>nri_Enabled := True\<rparr>\<rparr>"

lemma nri_webhook_issues_nothing_witness:
  "emits (mutate calm_env nri_webhook_config calm_pod NewBookkeepingTokenCache) (\<lambda>(r, p', entries') es.
     (\<forall>e \<in> set es. \<not> issues_credentials e) \<and>
     gets_placeholders (parsed_configs nri_webhook_config calm_pod) es calm_pod
       (p'\<lparr>pod_annotations := pod_annotations calm_pod\<rparr>))"
proof (rule nri_webhook_issues_nothing)
  show "nri_Enabled (NRI nri_webhook_config)"
    by code_simp
qed

end
