(* ===== verification/NRI_Persist.thy ===== *)
theory NRI_Persist
  imports NRI_Env Effects
begin

text \<open>
  File \<^verbatim>\<open>pkg/nri/persist.go\<close>, the writing half: the plugin's cache as a JSON document, written to a
  temporary file and renamed into place. \<open>Marshal\<close> is Go's \<^verbatim>\<open>encoding/json\<close> on this document:
  sorted keys, HTML-safe escapes; bytes from 128 on are copied, as they are for valid UTF-8
  without the two line separators that Go also escapes.
\<close>

section \<open>The document\<close>

type_synonym pods_cache = "(string \<times> mapping) list"

definition cacheVersion :: string where "cacheVersion = ''1''"

definition dquote :: char where "dquote = CHR 0x22"

definition backslash :: char where "backslash = CHR 0x5C"

definition low_hex :: "nat \<Rightarrow> char" where
  "low_hex n = (if n < 10 then char_of (48 + n) else char_of (87 + n))"

definition json_char :: "char \<Rightarrow> string" where
  "json_char c =
     (if c = dquote \<or> c = backslash then [backslash, c]
      else if c = CHR 0x08 then [backslash, CHR ''b'']
      else if c = CHR 0x0C then [backslash, CHR ''f'']
      else if c = CHR 0x0A then [backslash, CHR ''n'']
      else if c = CHR 0x0D then [backslash, CHR ''r'']
      else if c = CHR 0x09 then [backslash, CHR ''t'']
      else if (of_char c :: nat) < 32 \<or> c \<in> set ''<>&''
      then [backslash, CHR ''u'', CHR ''0'', CHR ''0'', low_hex (of_char c div 16), low_hex (of_char c mod 16)]
      else [c])"

definition json_string :: "string \<Rightarrow> string" where
  "json_string s = [dquote] @ concat (map json_char s) @ [dquote]"

definition json_object :: "(string \<times> string) list \<Rightarrow> string" where
  "json_object members = ''{'' @ Join (map (\<lambda>(k, v). json_string k @ '':'' @ v) members) '','' @ ''}''"

definition Marshal :: "pods_cache \<Rightarrow> string" where
  "Marshal pods =
     json_object
       [(''version'', cacheVersion),
        (''pods'', json_object (map (\<lambda>(uid, m). (uid,
            json_object (map (\<lambda>(ph, val). (ph, json_string val)) (sort_key fst m))))
          (sort_key fst pods)))]"

section \<open>Writing it\<close>

definition fs :: "env \<Rightarrow> fs_op \<Rightarrow> goerr option io" where
  "fs E op = perform (\<lambda>h. e_fs E h op) (FsOp op)"

text \<open>The clean-up after a failed write or fsync: close and remove, their errors ignored.\<close>

definition saveCache :: "env \<Rightarrow> string \<Rightarrow> pods_cache \<Rightarrow> unit res io" where
  "saveCache E path pods = do {
     r1 \<leftarrow> fs E (MkdirAll (Dir path));
     case r1 of Some err \<Rightarrow> ret (Err (Wrap err ''create cache dir'')) | None \<Rightarrow> do {
     let b = Marshal pods;
     let tmp = path @ ''.tmp'';
     r2 \<leftarrow> fs E (OpenTrunc tmp);
     case r2 of Some err \<Rightarrow> ret (Err (Wrap err ''open cache tmp'')) | None \<Rightarrow> do {
     r3 \<leftarrow> fs E (WriteFile tmp b);
     case r3 of
       Some err \<Rightarrow> do {
         _ \<leftarrow> fs E (CloseFile tmp);
         _ \<leftarrow> fs E (RemoveFile tmp);
         ret (Err (Wrap err ''write cache tmp'')) }
     | None \<Rightarrow> do {
     r4 \<leftarrow> fs E (SyncFile tmp);
     case r4 of
       Some err \<Rightarrow> do {
         _ \<leftarrow> fs E (CloseFile tmp);
         _ \<leftarrow> fs E (RemoveFile tmp);
         ret (Err (Wrap err ''fsync cache tmp'')) }
     | None \<Rightarrow> do {
     r5 \<leftarrow> fs E (CloseFile tmp);
     case r5 of
       Some err \<Rightarrow> do {
         _ \<leftarrow> fs E (RemoveFile tmp);
         ret (Err (Wrap err ''close cache tmp'')) }
     | None \<Rightarrow> do {
     r6 \<leftarrow> fs E (Rename tmp path);
     case r6 of
       Some err \<Rightarrow> ret (Err (Wrap err ''rename cache tmp to final''))
     | None \<Rightarrow> ret (Ok ()) }}}}}}"

section \<open>What a crash leaves on disk\<close>

text \<open>
  A file system as far as this code needs it: the content of each path, and of a file that is
  not synced nothing is known after a crash. \<open>fs_step\<close> applies one operation that the system
  reported as done; an operation that failed may have had any partial effect on its own file,
  which \<open>fs_failed\<close> describes as an unknown content.
\<close>

datatype content = Synced string | Unsynced string

type_synonym disk = "string \<rightharpoonup> content"

fun fs_done :: "fs_op \<Rightarrow> disk \<Rightarrow> disk" where
  "fs_done (MkdirAll p) d = d"
| "fs_done (OpenTrunc p) d = d(p \<mapsto> Unsynced [])"
| "fs_done (WriteFile p b) d = d(p \<mapsto> Unsynced b)"
| "fs_done (SyncFile p) d =
     d(p := (case d p of Some (Unsynced b) \<Rightarrow> Some (Synced b) | other \<Rightarrow> other))"
| "fs_done (CloseFile p) d = d"
| "fs_done (RemoveFile p) d = d(p := None)"
| "fs_done (Rename a b) d = d(b := d a, a := None)"

text \<open>The file that an operation may leave in an unknown state when it fails; a rename is atomic.\<close>

fun fs_target :: "fs_op \<Rightarrow> string option" where
  "fs_target (OpenTrunc p) = Some p"
| "fs_target (WriteFile p b) = Some p"
| "fs_target (SyncFile p) = Some p"
| "fs_target (RemoveFile p) = Some p"
| "fs_target _ = None"

text \<open>How one file operation may change the disk, given what the system reported about it.\<close>

inductive disk_step :: "event \<Rightarrow> disk \<Rightarrow> disk \<Rightarrow> bool" where
  reported_done: "disk_step (FsOp op None) d (fs_done op d)"
| failed: "fs_target op = Some p \<Longrightarrow> disk_step (FsOp op (Some err)) d (d(p := junk))"
| failed_clean: "fs_target op = None \<Longrightarrow> disk_step (FsOp op (Some err)) d d"

inductive_simps disk_step_done [simp]: "disk_step (FsOp op None) d d'"
inductive_simps disk_step_failed [simp]: "disk_step (FsOp op (Some err)) d d'"
inductive_cases disk_stepE: "disk_step (FsOp op r) d d'"

lemma disk_step_close [simp]: "disk_step (FsOp (CloseFile p) r) d d' \<longleftrightarrow> d' = d"
  by (cases r) auto

lemma disk_step_remove: "disk_step (FsOp (RemoveFile p) r) d d' \<Longrightarrow> q \<noteq> p \<Longrightarrow> d' q = d q"
  by (erule disk_stepE) auto

text \<open>The disks after a history of file operations; a prefix of the history is a crash point.\<close>

fun disk_after :: "disk \<Rightarrow> event list \<Rightarrow> disk \<Rightarrow> bool" where
  "disk_after d [] d' \<longleftrightarrow> d' = d"
| "disk_after d (e # es) d' \<longleftrightarrow> (\<exists>d1. disk_step e d d1 \<and> disk_after d1 es d')"

lemma calls_fs [intro!]: "{C_fs} \<subseteq> K \<Longrightarrow> calls K (fs E op)"
  unfolding fs_def
  by auto

lemma calls_saveCache [intro!]: "{C_fs} \<subseteq> K \<Longrightarrow> calls K (saveCache E path pods)"
  unfolding saveCache_def Let_def
  by (auto split: option.splits)

text \<open>
  C21. The cache file is replaced atomically. Wherever \<^verbatim>\<open>saveCache\<close> is interrupted, and whichever
  of its steps fail, the file holds what it held before or the complete, synced document; when
  the function reports success it is the document.
\<close>

theorem saveCache_atomic:
  "emits (saveCache E path pods) (\<lambda>r es. \<forall>d d' k.
     disk_after d (take k es) d' \<longrightarrow>
       (d' path = d path \<or> d' path = Some (Synced (Marshal pods))) \<and>
       (r = Ok () \<longrightarrow> length es \<le> k \<longrightarrow> d' path = Some (Synced (Marshal pods))))"
  unfolding saveCache_def fs_def Let_def
  by (intro emits_intro) (auto simp: take_Cons split: option.splits nat.splits intro!: emits_intro
      dest!: disk_step_remove [where q = path])

lemma saveCache_atomic_witness:
  "\<exists>d'. disk_after Map.empty (snd (run_state (saveCache calm_env ''/c/cache.json'' []) [])) d' \<and>
     d' ''/c/cache.json'' = Some (Synced (Marshal []))"
proof -
  let ?run = "run_state (saveCache calm_env ''/c/cache.json'' []) []"
  have ok: "fst ?run = Ok ()"
    by code_simp
  have "snd ?run = map (\<lambda>op. FsOp op None)
      [MkdirAll ''/c'', OpenTrunc ''/c/cache.json.tmp'', WriteFile ''/c/cache.json.tmp'' (Marshal []),
       SyncFile ''/c/cache.json.tmp'', CloseFile ''/c/cache.json.tmp'',
       Rename ''/c/cache.json.tmp'' ''/c/cache.json'']"
    by code_simp
  then obtain d' where d': "disk_after Map.empty (snd ?run) d'"
    by simp
  with ok have "d' ''/c/cache.json'' = Some (Synced (Marshal []))"
    using emits_run [OF saveCache_atomic [of calm_env "''/c/cache.json''" "[]"]]
    by (metis order_refl take_all)
  with d' show ?thesis
    by blast
qed

end
