(* ===== verification/NRI_Plugin.thy ===== *)
theory NRI_Plugin
  imports NRI_Fetch NRI_Persist
begin

text \<open>
  File \<^verbatim>\<open>pkg/nri/plugin.go\<close>: the plugin's state and its handlers. \<open>CreateContainer\<close> is the hook that
  replaces placeholders; it refuses the container whenever it cannot replace all of them. The
  plugin's cache survives in the state and, through \<open>saveCache\<close>, on disk.
\<close>

section \<open>State and requests\<close>

text \<open>The mutex-protected maps and the bookkeeping token cache.\<close>

record plugin =
  pl_cache :: pods_cache
  pl_cacheSource :: "(string \<times> string) list"
  pl_bookkeeping :: BookkeepingTokenCache

definition newPlugin :: plugin where
  "newPlugin = \<lparr>pl_cache = [], pl_cacheSource = [], pl_bookkeeping = NewBookkeepingTokenCache\<rparr>"

record sandbox =
  sb_uid :: string
  sb_namespace :: string
  sb_name :: string
  sb_labels :: "(string \<times> string) list"

record nri_container =
  nc_name :: string
  nc_env :: "string list"

text \<open>The adjustment: the environment variables to add, in order.\<close>

type_synonym adjustment = "(string \<times> string) list"

section \<open>The cache\<close>

text \<open>\<open>snapshot\<close> is a deep copy: as a value, the cache itself.\<close>

definition snapshot :: "plugin \<Rightarrow> pods_cache" where
  "snapshot p = pl_cache p"

definition drop_entry :: "string \<Rightarrow> plugin \<Rightarrow> plugin" where
  "drop_entry uid p =
     p\<lparr>pl_cache := AList.delete uid (pl_cache p), pl_cacheSource := AList.delete uid (pl_cacheSource p)\<rparr>"

definition put_entry :: "string \<Rightarrow> mapping \<Rightarrow> string \<Rightarrow> plugin \<Rightarrow> plugin" where
  "put_entry uid m source p =
     p\<lparr>pl_cache := AList.update uid m (pl_cache p),
       pl_cacheSource := AList.update uid source (pl_cacheSource p)\<rparr>"

definition evictCacheEntry :: "env \<Rightarrow> Config \<Rightarrow> plugin \<Rightarrow> string \<Rightarrow> (bool \<times> plugin) io" where
  "evictCacheEntry E cfg p podUID = do {
     let existed = (map_of (pl_cache p) podUID \<noteq> None);
     let p' = drop_entry podUID p;
     _ \<leftarrow> (if existed then do { r \<leftarrow> saveCache E (nri_CachePath (NRI cfg)) (snapshot p'); ret () }
           else ret ());
     ret (existed, p') }"

definition RemovePodSandbox :: "env \<Rightarrow> Config \<Rightarrow> plugin \<Rightarrow> sandbox \<Rightarrow> plugin io" where
  "RemovePodSandbox E cfg p sb = do {
     r \<leftarrow> evictCacheEntry E cfg p (sb_uid sb);
     ret (snd r) }"

text \<open>\<^verbatim>\<open>Synchronize\<close>: the entries of pods that containerd no longer has are dropped, one by one.\<close>

definition stale_uids :: "plugin \<Rightarrow> sandbox list \<Rightarrow> string list" where
  "stale_uids p pods = filter (\<lambda>uid. uid \<notin> set (map sb_uid pods)) (map fst (pl_cache p))"

definition Synchronize :: "env \<Rightarrow> Config \<Rightarrow> plugin \<Rightarrow> sandbox list \<Rightarrow> plugin io" where
  "Synchronize E cfg p pods = do {
     let stale = stale_uids p pods;
     let p' = fold drop_entry stale p;
     _ \<leftarrow> (if 0 < length stale then do { r \<leftarrow> saveCache E (nri_CachePath (NRI cfg)) (snapshot p'); ret () }
           else ret ());
     ret p' }"

section \<open>Resolving a pod's mapping\<close>

text \<open>
  The function under the single-flight key, with its second look at the cache. A failed save is
  only logged.
\<close>

definition fetch_and_cache ::
  "env \<Rightarrow> Config \<Rightarrow> plugin \<Rightarrow> string \<Rightarrow> string \<Rightarrow> string \<Rightarrow> string \<Rightarrow> (mapping res \<times> plugin) io" where
  "fetch_and_cache E cfg p podUID podNamespace podName source =
     (case map_of (pl_cache p) podUID of
        Some cached \<Rightarrow> ret (Ok cached, p)
      | None \<Rightarrow> do {
          f \<leftarrow> fetchAndBuildMapping E cfg podUID podNamespace podName (Some (pl_bookkeeping p));
          let p' = (case snd f of Some b \<Rightarrow> p\<lparr>pl_bookkeeping := b\<rparr> | None \<Rightarrow> p);
          case fst f of
            Panic \<Rightarrow> ret (Panic, p')
          | Err err \<Rightarrow> ret (Err err, p')
          | Ok (m, creds) \<Rightarrow> do {
              let p'' = put_entry podUID m source p';
              s \<leftarrow> saveCache E (nri_CachePath (NRI cfg)) (snapshot p'');
              ret (Ok m, p'') } })"

text \<open>\<open>shared\<close> says whether the single-flight result went to other callers as well.\<close>

definition resolveMappingWithSource ::
  "env \<Rightarrow> bool \<Rightarrow> Config \<Rightarrow> plugin \<Rightarrow> string \<Rightarrow> string \<Rightarrow> string \<Rightarrow> string \<Rightarrow> (mapping res \<times> plugin) io" where
  "resolveMappingWithSource E shared cfg p podUID podNamespace podName source =
     (case map_of (pl_cache p) podUID of
        Some cached \<Rightarrow> do {
          let src = lookup_str (pl_cacheSource p) podUID;
          _ \<leftarrow> metric (Inc NRICacheHitTotal [if src = '''' then ''unknown'' else src]);
          ret (Ok cached, p) }
      | None \<Rightarrow> do {
          v \<leftarrow> fetch_and_cache E cfg p podUID podNamespace podName source;
          case fst v of
            Ok m \<Rightarrow> do {
              _ \<leftarrow> (if shared then metric (Inc NRIResolveDuplicateTotal []) else ret ());
              ret v }
          | _ \<Rightarrow> ret v })"

definition resolveMapping ::
  "env \<Rightarrow> bool \<Rightarrow> Config \<Rightarrow> plugin \<Rightarrow> string \<Rightarrow> string \<Rightarrow> string \<Rightarrow> (mapping res \<times> plugin) io" where
  "resolveMapping E shared cfg p podUID podNamespace podName =
     resolveMappingWithSource E shared cfg p podUID podNamespace podName ''sync''"

section \<open>Creating a container\<close>

text \<open>The changed lines, as variables; only those are added.\<close>

definition changed_env :: "string list \<Rightarrow> string list \<Rightarrow> adjustment" where
  "changed_env inEnv outEnv =
     map (\<lambda>(a, b). splitKV b) (filter (\<lambda>(a, b). a \<noteq> b) (zip inEnv outEnv))"

text \<open>From a mapping to an adjustment, with the checks that follow the substitution.\<close>

definition container_msg :: "sandbox \<Rightarrow> nri_container \<Rightarrow> string \<Rightarrow> string" where
  "container_msg sb ctr what =
     Sprintf ''vault-db-injector: %s/%s container=%s %s: kubelet will retry''
       [sb_namespace sb, sb_name sb, nc_name ctr, what]"

definition refuse :: "string \<Rightarrow> goerr \<Rightarrow> adjustment option res io" where
  "refuse cause err = do {
     _ \<leftarrow> metric (Inc NRIUnwrapFailures [cause]);
     ret (Err err) }"

definition adjust_container ::
  "(nat \<Rightarrow> mapping \<Rightarrow> mapping) \<Rightarrow> sandbox \<Rightarrow> nri_container \<Rightarrow> mapping \<Rightarrow> adjustment option res io" where
  "adjust_container order sb ctr m =
     (if length m = 0
      then refuse ''empty_mapping''
             (Newf (container_msg sb ctr ''has placeholders but no env-key annotation matched'') [])
      else let outEnv = Substitute order (nc_env ctr) m;
               adj = changed_env (nc_env ctr) outEnv
           in if length adj = 0
              then refuse ''no_change''
                     (Newf (container_msg sb ctr ''has placeholders but none matched the resolved mapping'') [])
              else (case find (\<lambda>e. Contains e Prefix) outEnv of
                      Some e \<Rightarrow> refuse ''residual_placeholder''
                        (Newf (container_msg sb ctr (''has residual placeholder on env='' @ fst (splitKV e))) [])
                    | None \<Rightarrow> do {
                        _ \<leftarrow> metric (Inc NRISubstitutionsTotal []);
                        ret (Ok (Some adj)) }))"

text \<open>\<open>Ok None\<close> leaves the container alone; an error makes containerd refuse it.\<close>

definition CreateContainer ::
  "env \<Rightarrow> bool \<Rightarrow> (nat \<Rightarrow> mapping \<Rightarrow> mapping) \<Rightarrow> Config \<Rightarrow> plugin \<Rightarrow> sandbox \<Rightarrow> nri_container
   \<Rightarrow> (adjustment option res \<times> plugin) io" where
  "CreateContainer E shared order cfg p sb ctr =
     (let label = nri_PodLabel (NRI cfg)
      in if label \<noteq> '''' \<and> lookup_str (sb_labels sb) label \<noteq> ''true'' then ret (Ok None, p)
         else if \<not> envHasAnyPlaceholder (nc_env ctr) then ret (Ok None, p)
         else do {
           r \<leftarrow> resolveMapping E shared cfg p (sb_uid sb) (sb_namespace sb) (sb_name sb);
           case r of
             (Panic, p') \<Rightarrow> ret (Panic, p')
           | (Err err, p') \<Rightarrow> do {
               a \<leftarrow> refuse ''fetch_error''
                     (Wrap err (container_msg sb ctr ''credential fetch failed''));
               ret (a, p') }
           | (Ok m, p') \<Rightarrow> do {
               a \<leftarrow> adjust_container order sb ctr m;
               ret (a, p') } })"

section \<open>Calls\<close>

lemma calls_refuse [intro!]: "{C_metric} \<subseteq> K \<Longrightarrow> calls K (refuse cause err)"
  unfolding refuse_def
  by auto

lemma calls_adjust_container [intro!]: "{C_metric} \<subseteq> K \<Longrightarrow> calls K (adjust_container order sb ctr m)"
  unfolding adjust_container_def Let_def
  by (auto split: option.splits)

lemma calls_evictCacheEntry [intro!]: "{C_fs} \<subseteq> K \<Longrightarrow> calls K (evictCacheEntry E cfg p uid)"
  unfolding evictCacheEntry_def Let_def
  by auto

definition resolve_calls :: "call set" where
  "resolve_calls = prepare_calls \<union> fetch_calls \<union> {C_revoke_self, C_fs, C_metric}"

lemma calls_resolveMapping [intro!]:
  "resolve_calls \<subseteq> K \<Longrightarrow> calls K (resolveMappingWithSource E shared cfg p uid ns n src)"
  "resolve_calls \<subseteq> K \<Longrightarrow> calls K (resolveMapping E shared cfg p uid ns n)"
  unfolding resolveMapping_def resolveMappingWithSource_def fetch_and_cache_def resolve_calls_def Let_def
  by (auto split: option.splits res.splits prod.splits)

end
