(* ===== verification/Plugin_Cache.thy ===== *)
theory Plugin_Cache
  imports NRI_Plugin
begin

text \<open>
  The plugin's per-pod cache under its handlers (\<^verbatim>\<open>pkg/nri/plugin.go\<close>): an interface for a cache with
  one entry per pod, provided by the plugin's two Go maps, and what the hooks, the synchronization
  with containerd and the eviction do to it.
\<close>

section \<open>The cache as a map from pods to mappings\<close>

text \<open>
  What the handlers need of the cache: entries are looked up, put and dropped one pod at a time,
  and a well-formedness condition survives. The plugin's two Go maps provide it.
\<close>

locale per_pod_cache =
  fixes look :: "'s \<Rightarrow> string \<rightharpoonup> 'v"
    and put :: "string \<Rightarrow> 'v \<Rightarrow> string \<Rightarrow> 's \<Rightarrow> 's"
    and drop :: "string \<Rightarrow> 's \<Rightarrow> 's"
    and ok :: "'s \<Rightarrow> bool"
  assumes look_put: "ok s \<Longrightarrow> look (put uid v src s) = (look s)(uid \<mapsto> v)"
    and look_drop: "ok s \<Longrightarrow> look (drop uid s) = (look s)(uid := None)"
    and ok_put: "ok s \<Longrightarrow> ok (put uid v src s)"
    and ok_drop: "ok s \<Longrightarrow> ok (drop uid s)"
begin

lemma ok_drops: "ok s \<Longrightarrow> ok (fold drop uids s)"
  by (induction uids arbitrary: s) (simp_all add: ok_drop)

lemma look_drops: "ok s \<Longrightarrow> look (fold drop uids s) uid = (if uid \<in> set uids then None else look s uid)"
  by (induction uids arbitrary: s) (auto simp: ok_drop look_drop)

text \<open>Dropping what is not in a set leaves exactly the entries of the set.\<close>

lemma look_keep_only:
  assumes "ok s" "\<And>uid. look s uid \<noteq> None \<Longrightarrow> uid \<notin> live \<Longrightarrow> uid \<in> set uids" "set uids \<inter> live = {}"
  shows "look (fold drop uids s) = look s |` live"
proof
  fix uid
  show "look (fold drop uids s) uid = (look s |` live) uid"
    using assms by (cases "look s uid") (auto simp: look_drops restrict_map_def)
qed

lemma look_put_other: "ok s \<Longrightarrow> uid \<noteq> uid' \<Longrightarrow> look (put uid' v src s) uid = look s uid"
  by (simp add: look_put)

end

text \<open>
  The plugin's state is well formed: a Go map has each key once, and the source of an entry is
  recorded only for cached pods (entries loaded from disk have none).
\<close>

definition plugin_ok :: "plugin \<Rightarrow> bool" where
  "plugin_ok p \<longleftrightarrow> distinct (map fst (pl_cache p)) \<and> distinct (map fst (pl_cacheSource p)) \<and>
     fst ` set (pl_cacheSource p) \<subseteq> fst ` set (pl_cache p)"

definition cached :: "plugin \<Rightarrow> string \<rightharpoonup> mapping" where
  "cached p = map_of (pl_cache p)"

interpretation entries: per_pod_cache cached put_entry drop_entry plugin_ok
proof
  fix p uid m src
  assume ok: "plugin_ok p"
  show "cached (put_entry uid m src p) = (cached p)(uid \<mapsto> m)"
    by (simp add: cached_def put_entry_def update_conv')
  show "cached (drop_entry uid p) = (cached p)(uid := None)"
    by (simp add: cached_def drop_entry_def delete_conv')
  show "plugin_ok (put_entry uid m src p)"
    using ok by (simp add: plugin_ok_def put_entry_def distinct_update flip: dom_map_of_conv_image_fst)
      (auto simp: dom_map_of_conv_image_fst update_conv')
  show "plugin_ok (drop_entry uid p)"
    using ok by (simp add: plugin_ok_def drop_entry_def distinct_delete flip: dom_map_of_conv_image_fst)
      (auto simp: dom_map_of_conv_image_fst delete_conv')
qed

lemma newPlugin_ok: "plugin_ok newPlugin"
  by (simp add: plugin_ok_def newPlugin_def)

lemma bookkeeping_irrelevant [simp]:
  "cached (p\<lparr>pl_bookkeeping := b\<rparr>) = cached p" "plugin_ok (p\<lparr>pl_bookkeeping := b\<rparr>) = plugin_ok p"
  by (simp_all add: cached_def plugin_ok_def)

lemma emits_fetch_and_cache:
  assumes "plugin_ok p"
  shows "emits (fetch_and_cache E cfg p uid ns n src) (\<lambda>r es. plugin_ok (snd r) \<and>
     (\<forall>u. u \<noteq> uid \<longrightarrow> cached (snd r) u = cached p u) \<and>
     (\<forall>m. fst r = Ok m \<longrightarrow> cached (snd r) uid = Some m) \<and>
     ((\<forall>m. fst r \<noteq> Ok m) \<longrightarrow> cached (snd r) = cached p))"
  unfolding fetch_and_cache_def
  apply (split option.split, intro conjI allI impI)
   apply (rule emits_bind, rule emits_any, blast)
   apply (auto simp: Let_def assms entries.ok_put entries.look_put split: res.splits prod.splits option.splits
      intro!: emits_intro emits_any)[1]
  apply (rule emits_return, simp add: assms cached_def)
  done

lemma emits_resolveMappingWithSource:
  assumes "plugin_ok p"
  shows "emits (resolveMappingWithSource E shared cfg p uid ns n src) (\<lambda>r es. plugin_ok (snd r) \<and>
     (\<forall>u. u \<noteq> uid \<longrightarrow> cached (snd r) u = cached p u) \<and>
     (\<forall>m. fst r = Ok m \<longrightarrow> cached (snd r) uid = Some m) \<and>
     (\<forall>m. cached p uid = Some m \<longrightarrow> r = (Ok m, p) \<and> (\<forall>e \<in> set es. call_of e = C_metric)))"
proof (cases "cached p uid")
  case None
  then have none: "map_of (pl_cache p) uid = None"
    by (simp add: cached_def)
  show ?thesis
    unfolding resolveMappingWithSource_def none option.case
    apply (rule emits_bind, rule emits_conseq [OF emits_fetch_and_cache [OF assms]])
    apply (auto simp: None split: res.split intro!: emits_intro)
    done
next
  case (Some m)
  then have "map_of (pl_cache p) uid = Some m"
    by (simp add: cached_def)
  then show ?thesis
    unfolding resolveMappingWithSource_def Let_def
    using Some assms by (auto intro!: emits_intro)
qed

lemmas emits_resolveMapping =
  emits_resolveMappingWithSource [where src = "''sync''", folded resolveMapping_def]

lemma emits_CreateContainer:
  assumes "plugin_ok p"
  shows "emits (CreateContainer E shared order cfg p sb ctr) (\<lambda>r es. plugin_ok (snd r) \<and>
     (\<forall>u. u \<noteq> sb_uid sb \<longrightarrow> cached (snd r) u = cached p u) \<and>
     (cached p (sb_uid sb) \<noteq> None \<longrightarrow> snd r = p \<and> (\<forall>e \<in> set es. call_of e = C_metric)))"
  unfolding CreateContainer_def Let_def
  apply (split if_split, intro conjI impI)
   apply (rule emits_return, simp add: assms)
  apply (split if_split, intro conjI impI)
   apply (rule emits_return, simp add: assms)
  apply (rule emits_bind, rule emits_conseq [OF emits_resolveMapping [OF assms]])
  apply (split prod.split, intro allI impI, split res.split, intro conjI allI impI)
    apply (rule emits_bind, rule emits_calls [where K = "{C_metric}"], blast, rule emits_return)
    apply auto[1]
   apply (auto simp: refuse_def intro!: emits_intro)
  done

text \<open>
  C24. A container hook keeps the plugin's state well formed and touches the cache of no other
  pod. For a pod that is cached already it changes nothing and calls neither Vault nor
  Kubernetes nor the disk: the pod's containers and their restarts share one set of credentials.
\<close>

theorem CreateContainer_cache:
  assumes "plugin_ok p"
  shows "emits (CreateContainer E shared order cfg p sb ctr) (\<lambda>r es. plugin_ok (snd r) \<and>
     (\<forall>u. u \<noteq> sb_uid sb \<longrightarrow> cached (snd r) u = cached p u) \<and>
     (cached p (sb_uid sb) \<noteq> None \<longrightarrow> snd r = p \<and> (\<forall>e \<in> set es. call_of e = C_metric)))"
  using assms by (rule emits_CreateContainer)

text \<open>
  Once a pod's mapping has been resolved, every later resolution for that pod yields the same
  mapping from the cache, whatever the environment answers by then.
\<close>

lemma resolveMapping_stable:
  assumes "plugin_ok p" "run_state (resolveMapping E shared cfg p uid ns n) h = ((Ok m, p'), h')"
  shows "emits (resolveMapping E' shared' cfg p' uid ns n)
     (\<lambda>r es. r = (Ok m, p') \<and> (\<forall>e \<in> set es. call_of e = C_metric))"
proof -
  have "plugin_ok p'" "cached p' uid = Some m"
    using emitsD [OF emits_resolveMapping [OF assms(1)] assms(2)] by auto
  then show ?thesis
    by (intro emits_conseq [OF emits_resolveMapping]) auto
qed

lemma emits_Synchronize:
  assumes "plugin_ok p"
  shows "emits (Synchronize E cfg p pods) (\<lambda>p' es. plugin_ok p' \<and>
     cached p' = cached p |` set (map sb_uid pods) \<and>
     (dom (cached p) \<subseteq> set (map sb_uid pods) \<longrightarrow> p' = p \<and> es = []))"
proof -
  have "cached (fold drop_entry (stale_uids p pods) p) = cached p |` set (map sb_uid pods)"
    by (rule entries.look_keep_only [OF assms])
      (auto simp: stale_uids_def cached_def dest!: map_of_SomeD intro!: image_eqI)
  moreover have "dom (cached p) \<subseteq> set (map sb_uid pods) \<Longrightarrow> stale_uids p pods = []"
    by (auto simp: stale_uids_def cached_def dom_map_of_conv_image_fst filter_empty_conv)
  ultimately show ?thesis
    unfolding Synchronize_def Let_def
    using assms by (auto simp: entries.ok_drops intro!: emits_intro emits_any)
qed

text \<open>
  C28. After a synchronization the cache holds exactly the entries of the pods that still exist,
  unchanged; when there was nothing to drop, the state and the file on disk are left alone.
\<close>

theorem Synchronize_keeps_live:
  assumes "plugin_ok p"
  shows "emits (Synchronize E cfg p pods) (\<lambda>p' es. plugin_ok p' \<and>
     cached p' = cached p |` set (map sb_uid pods) \<and>
     (dom (cached p) \<subseteq> set (map sb_uid pods) \<longrightarrow> p' = p \<and> es = []))"
  using assms by (rule emits_Synchronize)

text \<open>The other two handlers that drop entries.\<close>

lemma emits_evictCacheEntry:
  assumes "plugin_ok p"
  shows "emits (evictCacheEntry E cfg p uid) (\<lambda>r es. plugin_ok (snd r) \<and>
     cached (snd r) = (cached p)(uid := None) \<and> (fst r \<longleftrightarrow> cached p uid \<noteq> None) \<and>
     (\<forall>e \<in> set es. call_of e = C_fs))"
  unfolding evictCacheEntry_def Let_def
  apply (rule emits_bind)
  apply (rule emits_calls [where K = "{C_fs}"], auto)[1]
  apply (rule emits_return)
  apply (auto simp: entries.ok_drop [OF assms] entries.look_drop [OF assms])
  apply (auto simp: cached_def)
  done

end
