(* ===== verification/Plugin_Safety.thy ===== *)
theory Plugin_Safety
  imports Plugin_Cache
begin

text \<open>
  The plugin's \<^verbatim>\<open>CreateContainer\<close> is fail-closed: no container starts with a placeholder in its
  environment. The file ends with runs of the plugin on concrete pods.
\<close>

section \<open>The container's environment after the hook\<close>

text \<open>
  Containerd applies an adjustment by setting the named variables. Variables have different names,
  and the names hold no placeholder.
\<close>

definition set_line :: "adjustment \<Rightarrow> string \<Rightarrow> string" where
  "set_line adj line =
     (case map_of adj (fst (splitKV line)) of
        Some v \<Rightarrow> fst (splitKV line) @ ''='' @ v | None \<Rightarrow> line)"

definition adjusted_env :: "string list \<Rightarrow> adjustment option \<Rightarrow> string list" where
  "adjusted_env env a = (case a of None \<Rightarrow> env | Some adj \<Rightarrow> map (set_line adj) env)"

definition env_ok :: "string list \<Rightarrow> bool" where
  "env_ok env \<longleftrightarrow> list_all plain_line env \<and> distinct (map (\<lambda>line. fst (splitKV line)) env)"

lemma map_of_changed_env:
  assumes "env_ok env" "length out = length env" "j < length env"
    and "\<And>i. i < length env \<Longrightarrow> fst (splitKV (out ! i)) = fst (splitKV (env ! i))"
  shows "map_of (changed_env env out) (fst (splitKV (env ! j))) =
         (if env ! j = out ! j then None else Some (snd (splitKV (out ! j))))"
proof -
  have inj: "fst (splitKV (env ! i)) = fst (splitKV (env ! j)) \<longleftrightarrow> i = j" if "i < length env" for i
    using assms(1,3) that nth_eq_iff_index_eq [of "map (\<lambda>line. fst (splitKV line)) env" i j]
    by (simp add: env_ok_def)
  have mem: "x \<in> set (changed_env env out) \<longleftrightarrow>
      (\<exists>i < length env. env ! i \<noteq> out ! i \<and> x = splitKV (out ! i))" for x
    using assms(2) by (auto simp: changed_env_def set_zip)
  have "map fst (changed_env env out) =
      map (\<lambda>x. fst (splitKV (snd x))) (filter (\<lambda>(a, b). a \<noteq> b) (zip env out))"
    by (simp add: changed_env_def split_def)
  moreover have "map (\<lambda>x. fst (splitKV (snd x))) (zip env out) = map (\<lambda>line. fst (splitKV line)) env"
    using assms(2,4) by (intro nth_equalityI) simp_all
  then have "distinct (map (\<lambda>x. fst (splitKV (snd x))) (zip env out))"
    using assms(1) by (simp add: env_ok_def)
  ultimately have keys: "distinct (map fst (changed_env env out))"
    by (simp only: distinct_map_filter)
  show ?thesis
  proof (cases "env ! j = out ! j")
    case True
    then have "fst (splitKV (env ! j)) \<notin> fst ` set (changed_env env out)"
      unfolding image_iff using mem inj assms(4) by metis
    with True show ?thesis
      by (simp add: map_of_eq_None_iff)
  next
    case False
    then have "splitKV (out ! j) \<in> set (changed_env env out)"
      using mem assms(3) by blast
    with keys have "map_of (changed_env env out) (fst (splitKV (out ! j))) = Some (snd (splitKV (out ! j)))"
      by (simp add: map_of_eq_Some_iff)
    with False show ?thesis
      using assms(3,4) by simp
  qed
qed

lemma set_line_changed:
  assumes "env_ok env" "length out = length env"
    and "\<And>i. i < length env \<Longrightarrow> fst (splitKV (out ! i)) = fst (splitKV (env ! i)) \<and> CHR ''='' \<in> set (out ! i)"
  shows "map (set_line (changed_env env out)) env = out"
proof (rule nth_equalityI)
  fix j
  assume "j < length (map (set_line (changed_env env out)) env)"
  then have j: "j < length env"
    by simp
  have names: "fst (splitKV (out ! i)) = fst (splitKV (env ! i))" if "i < length env" for i
    using assms(3) [OF that] by (rule conjunct1)
  have look: "map_of (changed_env env out) (fst (splitKV (env ! j))) =
      (if env ! j = out ! j then None else Some (snd (splitKV (out ! j))))"
    by (rule map_of_changed_env [OF assms(1,2) j names])
  show "map (set_line (changed_env env out)) env ! j = out ! j"
  proof (cases "env ! j = out ! j")
    case True
    have "map_of (changed_env env out) (fst (splitKV (env ! j))) = None"
      using look True by simp
    then have "set_line (changed_env env out) (env ! j) = env ! j"
      by (simp add: set_line_def)
    then show ?thesis
      by (simp only: nth_map [OF j] True)
  next
    case False
    have "map_of (changed_env env out) (fst (splitKV (env ! j))) = Some (snd (splitKV (out ! j)))"
      using look False by simp
    then have "set_line (changed_env env out) (env ! j) =
        fst (splitKV (out ! j)) @ CHR ''='' # snd (splitKV (out ! j))"
      using names [OF j] by (simp add: set_line_def)
    also have "\<dots> = out ! j"
      using assms(3) [OF j] by (intro splitKV_parts [symmetric]) simp
    finally show ?thesis
      by (simp only: nth_map [OF j])
  qed
qed (simp add: assms(2))

lemma adjusted_env_substituted:
  assumes "env_ok env"
  shows "map (set_line (changed_env env (Substitute order env m))) env = Substitute order env m"
proof (rule set_line_changed [OF assms])
  fix i
  assume i: "i < length env"
  then have plain: "plain_line (env ! i)"
    using assms by (simp add: env_ok_def list_all_length)
  have "CHR ''='' \<in> set (subst_line v (env ! i))" for v
    using plain splitKV_parts [of "env ! i"] subst_line_keeps_name [of "fst (splitKV (env ! i))" v]
    by (metis in_set_conv_decomp plain_line_def)
  then show "fst (splitKV (Substitute order env m ! i)) = fst (splitKV (env ! i)) \<and>
      CHR ''='' \<in> set (Substitute order env m ! i)"
    using i plain by (simp add: nth_Substitute splitKV_subst_line)
qed simp

text \<open>The pods that the plugin takes care of: those with its label, or all when no label is configured.\<close>

definition ours :: "Config \<Rightarrow> sandbox \<Rightarrow> bool" where
  "ours cfg sb \<longleftrightarrow> nri_PodLabel (NRI cfg) = '''' \<or> lookup_str (sb_labels sb) (nri_PodLabel (NRI cfg)) = ''true''"

text \<open>
  C11. For the plugin's own pods the hook is fail-closed: a container that it lets start has no
  placeholder left in its environment, whatever the fetch, the cache and the mapping are; otherwise
  the hook returns an error and containerd does not create the container. With containers of pods
  without the label, which belong to another release, it does nothing at all.
\<close>

theorem CreateContainer_no_placeholder_left:
  assumes "env_ok (nc_env ctr)"
  shows "emits (CreateContainer E shared order cfg p sb ctr) (\<lambda>r es.
     if ours cfg sb then \<forall>a. fst r = Ok a \<longrightarrow> \<not> envHasAnyPlaceholder (adjusted_env (nc_env ctr) a)
     else r = (Ok None, p) \<and> es = [])"
proof -
  have none: "\<not> envHasAnyPlaceholder out" if "find (\<lambda>e. Contains e Prefix) out = None" for out
    using that Contains_splitKV by (auto simp: find_None_iff envHasAnyPlaceholder_def list_ex_iff)
  have adjust: "emits (adjust_container order sb ctr m) (\<lambda>r es. \<forall>a. r = Ok a \<longrightarrow>
      \<not> envHasAnyPlaceholder (adjusted_env (nc_env ctr) a))" for m
    unfolding adjust_container_def refuse_def Let_def
    using adjusted_env_substituted [OF assms, of order m] none
    by (auto simp: adjusted_env_def split: option.split intro!: emits_intro)
  show ?thesis
  proof (cases "ours cfg sb")
    case True
    then have label: "\<not> (nri_PodLabel (NRI cfg) \<noteq> '''' \<and> lookup_str (sb_labels sb) (nri_PodLabel (NRI cfg)) \<noteq> ''true'')"
      by (simp add: ours_def)
    show ?thesis
      unfolding CreateContainer_def Let_def if_P [OF True] if_not_P [OF label]
      apply (split if_split, intro conjI impI)
       apply (rule emits_return, simp add: adjusted_env_def)
      apply (rule emits_bind, rule emits_any, blast)
      apply (auto simp: refuse_def split: prod.split res.split intro!: emits_intro)
       apply (rule emits_conseq [OF adjust], rule emits_return, simp)+
      done
  next
    case False
    then show ?thesis
      by (simp add: CreateContainer_def ours_def emits_return)
  qed
qed

section \<open>Examples\<close>

definition user_ph :: string where
  "user_ph = ''__VDBI_PH_0707070707070707070707070707070707070707070707070707070707070707___''"

definition pass_ph :: string where
  "pass_ph = ''__VDBI_PH_0909090909090909090909090909090909090909090909090909090909090909___''"

definition demo_mapping :: mapping where
  "demo_mapping = [(user_ph, ''alice''), (pass_ph, ''s3cret'')]"

definition demo_ctr :: nri_container where
  "demo_ctr = \<lparr>nc_name = ''app'', 
     nc_env = [''HOME=/root'', ''DSN=pg://'' @ user_ph @ '':'' @ pass_ph @ ''@db'']\<rparr>"

definition demo_sandbox :: sandbox where
  "demo_sandbox = \<lparr>sb_uid = ''u1'', sb_namespace = ''ns'', sb_name = ''p1'',
     sb_labels = [(nri_PodLabel (NRI default_config), ''true'')]\<rparr>"

definition demo_plugin :: plugin where
  "demo_plugin = put_entry ''u1'' demo_mapping ''sync'' (put_entry ''u2'' demo_mapping ''prewarm'' newPlugin)"

lemma demo_plugin_ok: "plugin_ok demo_plugin"
  by (simp add: demo_plugin_def entries.ok_put newPlugin_ok)

definition demo_create :: "(adjustment option res \<times> plugin) \<times> event list" where
  "demo_create = run_state (CreateContainer calm_env False (\<lambda>i m. rev m) default_config demo_plugin demo_sandbox demo_ctr) []"

lemma Substitute_exact_witness:
  "Substitute (\<lambda>i m. rev m) [''A=1'', ''DSN='' @ user_ph @ '':'' @ pass_ph] demo_mapping ! 1 = ''DSN=alice:s3cret''"
proof -
  let ?rest = "[(CHR ''='', Hole user_ph), (CHR '':'', Hole pass_ph)]"
  have 1: "distinct (map fst demo_mapping)" by code_simp
  have 2: "clean_values demo_mapping" by code_simp
  have 3: "line_ok (Text ''DSN'') ?rest" by code_simp
  have 4: "render (subst_hole demo_mapping) (Text ''DSN'') ?rest = ''DSN=alice:s3cret''" by code_simp
  show ?thesis
    using Substitute_exact [of "\<lambda>i m. rev m" demo_mapping 1 "[''A=1'', ''DSN='' @ user_ph @ '':'' @ pass_ph]" "Text ''DSN''" ?rest]
      1 2 3 4 by (simp add: go_range_def)
qed

lemma CreateContainer_no_placeholder_left_witness:
  "\<exists>adj. fst (fst demo_create) = Ok (Some adj) \<and> \<not> envHasAnyPlaceholder (adjusted_env (nc_env demo_ctr) (Some adj))"
proof -
  have env: "env_ok (nc_env demo_ctr)"
    by code_simp
  have label: "ours default_config demo_sandbox"
    by code_simp
  have "case fst (fst demo_create) of Ok (Some adj) \<Rightarrow> True | _ \<Rightarrow> False"
    by code_simp
  then obtain adj where adj: "fst (fst demo_create) = Ok (Some adj)"
    by (auto split: res.splits option.splits)
  then show ?thesis
    using emits_run [OF CreateContainer_no_placeholder_left [OF env,
        of calm_env False "\<lambda>i m. rev m" default_config demo_plugin demo_sandbox], folded demo_create_def] label by simp
qed

lemma CreateContainer_cache_witness:
  "snd (fst demo_create) = demo_plugin \<and> call_of ` set (snd demo_create) \<subseteq> {C_metric}"
proof -
  have "map_of (pl_cache demo_plugin) (sb_uid demo_sandbox) = Some demo_mapping"
    by code_simp
  then have "cached demo_plugin (sb_uid demo_sandbox) \<noteq> None"
    by (simp add: cached_def)
  then show ?thesis
    using emits_run [OF CreateContainer_cache [OF demo_plugin_ok,
        of calm_env False "\<lambda>i m. rev m" default_config demo_sandbox demo_ctr], folded demo_create_def]
    by blast
qed

lemma Synchronize_keeps_live_witness:
  "cached (fst (run_state (Synchronize calm_env default_config demo_plugin [demo_sandbox]) [])) ''u2'' = None"
proof -
  have "''u2'' \<notin> set (map sb_uid [demo_sandbox])"
    by code_simp
  then show ?thesis
    using emits_run [OF Synchronize_keeps_live [OF demo_plugin_ok, of calm_env default_config "[demo_sandbox]"]]
    by (auto simp: restrict_map_def)
qed

end
