(* ===== verification/Webhook_Plugin.thy ===== *)
theory Webhook_Plugin
  imports Mutator_Safety Plugin_Safety
begin

text \<open>
  The webhook and the plugin together: what the webhook writes into a pod with placeholders
  (\<^verbatim>\<open>pkg/k8smutator\<close>), the plugin reads back and replaces (\<^verbatim>\<open>pkg/nri\<close>), with the same outcome as
  the legacy delivery.
\<close>

section \<open>Lines, keys and values\<close>

definition env_line :: "env_var \<Rightarrow> string" where
  "env_line e = ev_name e @ ''='' @ ev_value e"

text \<open>
  Environment keys on which both sides agree: the webhook splits the annotation at commas, the
  plugin also trims the parts and drops empty ones.
\<close>

definition key_ok :: "string \<Rightarrow> bool" where
  "key_ok k \<longleftrightarrow> k \<noteq> [] \<and> TrimSpace k = k \<and> CHR ''='' \<notin> set k \<and> \<not> Contains k Prefix"

definition classic_ok :: "DbConfiguration \<Rightarrow> bool" where
  "classic_ok d \<longleftrightarrow> ToLower (db_Mode d) \<in> {'''', DbModeClassic} \<and>
     list_all key_ok (Split (DbUserEnvKey d) CHR '','') \<and>
     list_all key_ok (Split (DbPasswordEnvKey d) CHR '','') \<and>
     set (Split (DbUserEnvKey d) CHR '','') \<inter> set (Split (DbPasswordEnvKey d) CHR '','') = {}"

text \<open>Neither the pod's own variables nor the credentials look like placeholders.\<close>

definition pod_plain :: "pod \<Rightarrow> bool" where
  "pod_plain p \<longleftrightarrow> (\<forall>c \<in> set (pod_init_containers p) \<union> set (pod_containers p).
     \<forall>e \<in> set (c_env c). \<not> Contains (env_line e) Prefix)"

lemma splitCSV_Split:
  assumes "list_all key_ok (Split s CHR '','')"
  shows "splitCSV s = Split s CHR '',''"
proof -
  have ok: "k \<noteq> [] \<and> TrimSpace k = k" if "k \<in> set (Split s CHR '','')" for k
    using assms that by (simp add: list_all_iff key_ok_def)
  then have "s \<noteq> []"
    by (auto simp: Split_def)
  moreover have "map TrimSpace (Split s CHR '','') = Split s CHR '',''"
    using ok by (intro map_idI) blast
  moreover have "filter (\<lambda>p. p \<noteq> '''') (Split s CHR '','') = Split s CHR '',''"
    using ok by (intro filter_True) blast
  ultimately show ?thesis
    by (simp add: splitCSV_def)
qed

lemma put_all_unique:
  assumes "(k, v) \<in> set xs" "\<And>v'. (k, v') \<in> set xs \<Longrightarrow> v' = v"
  shows "map_of (put_all xs []) k = Some v"
proof -
  have "k \<in> dom (map_of (put_all xs []))"
    unfolding dom_put_all using assms(1) by (auto intro: rev_image_eqI)
  then show ?thesis
    using assms(2) put_all_value [of xs k] by auto
qed

lemma set_put_all: "set (put_all xs []) \<subseteq> set xs"
proof
  fix x
  assume x: "x \<in> set (put_all xs [])"
  have "distinct (map fst (put_all xs []))"
    by (rule distinct_put_all) simp
  with x have "map_of (put_all xs []) (fst x) = Some (snd x)"
    by simp
  then show "x \<in> set xs"
    using put_all_value by fastforce
qed

lemma put_all_exact:
  assumes "set xs = {(u, a), (w, b)}" "u \<noteq> w"
  shows "set (put_all xs []) = {(u, a), (w, b)}"
proof -
  have "map_of (put_all xs []) u = Some a"
    using assms by (intro put_all_unique) simp_all
  moreover have "map_of (put_all xs []) w = Some b"
    using assms by (intro put_all_unique) simp_all
  ultimately have "{(u, a), (w, b)} \<subseteq> set (put_all xs [])"
    by (simp add: map_of_SomeD)
  then show ?thesis
    using set_put_all [of xs] assms(1) by (intro equalityI) simp_all
qed

section \<open>Reading back what the webhook wrote\<close>

lemma classic_fields_plain: "\<not> Contains line Prefix \<Longrightarrow> classic_fields us ps line = []"
proof -
  assume "\<not> Contains line Prefix"
  then have "\<not> IsPlaceholder (snd (splitKV line))"
    using Contains_splitKV IsPlaceholder_Contains_Prefix by blast
  then show ?thesis
    by (simp add: classic_fields_def split_def Let_def)
qed

lemma classic_fields_added:
  assumes "classic_ok d" "IsPlaceholder u" "IsPlaceholder w" "e \<in> set (classic_vars d u w)"
  shows "classic_fields (Split (DbUserEnvKey d) CHR '','') (Split (DbPasswordEnvKey d) CHR '','') (env_line e) =
    (if ev_name e \<in> set (Split (DbUserEnvKey d) CHR '','') then [(u, ''username'')] else [(w, ''password'')])"
proof -
  let ?us = "Split (DbUserEnvKey d) CHR '',''" and ?ps = "Split (DbPasswordEnvKey d) CHR '',''"
  from assms(4) consider k where "e = \<lparr>ev_name = k, ev_value = u\<rparr>" "k \<in> set ?us"
    | k where "e = \<lparr>ev_name = k, ev_value = w\<rparr>" "k \<in> set ?ps"
    by (auto simp: classic_vars_def env_vars_def)
  then show ?thesis
  proof cases
    case 1
    then have "splitKV (env_line e) = (k, u)"
      using assms(1) splitKV_eq [of k u] by (simp add: env_line_def classic_ok_def key_ok_def list_all_iff)
    then show ?thesis
      using 1 assms(2) by (simp add: classic_fields_def)
  next
    case 2
    then have "splitKV (env_line e) = (k, w)" "k \<notin> set ?us"
      using assms(1) splitKV_eq [of k w] by (auto simp: env_line_def classic_ok_def key_ok_def list_all_iff)
    then show ?thesis
      using 2 assms(3) by (simp add: classic_fields_def)
  qed
qed

lemma set_pod_env_lines:
  "set (pod_env_lines p) = env_line ` (\<Union>c \<in> set (pod_init_containers p) \<union> set (pod_containers p). set (c_env c))"
  by (auto simp: pod_env_lines_def env_line_def)

lemma pod_env_lines_added:
  assumes "c \<in> set (pod_init_containers p) \<union> set (pod_containers p)"
  shows "set (pod_env_lines (add_env_all vars p)) = set (pod_env_lines p) \<union> env_line ` set vars"
  using assms by (auto simp: set_pod_env_lines add_env_all_def add_env_def)

lemma extracted_classic:
  assumes "classic_ok d" "IsPlaceholder u" "IsPlaceholder w" "u \<noteq> w" "pod_plain p"
    and "c \<in> set (pod_init_containers p) \<union> set (pod_containers p)"
  shows "set (extractPlaceholdersFromEnv (pod_env_lines (add_env_all (classic_vars d u w) p)) d) =
    {(u, ''username''), (w, ''password'')}"
proof -
  let ?us = "Split (DbUserEnvKey d) CHR '',''" and ?ps = "Split (DbPasswordEnvKey d) CHR '',''"
  let ?lines = "pod_env_lines (add_env_all (classic_vars d u w) p)"
  have old: "classic_fields ?us ?ps line = []" if "line \<in> set (pod_env_lines p)" for line
    using that assms(5) by (intro classic_fields_plain) (auto simp: set_pod_env_lines pod_plain_def)
  have "set (concat (map (classic_fields ?us ?ps) ?lines)) =
      (\<Union>e \<in> set (classic_vars d u w). set (classic_fields ?us ?ps (env_line e)))"
    using pod_env_lines_added [OF assms(6), of "classic_vars d u w"] old by auto
  also have "\<dots> = {(u, ''username''), (w, ''password'')}"
  proof -
    have user: "set (classic_fields ?us ?ps (env_line e)) = {(u, ''username'')}"
      if "e \<in> set (env_vars ?us u)" for e
    proof -
      have "e \<in> set (classic_vars d u w)" "ev_name e \<in> set ?us"
        using that by (auto simp: classic_vars_def env_vars_def)
      then show ?thesis
        by (simp add: classic_fields_added [OF assms(1-3)])
    qed
    have pass: "set (classic_fields ?us ?ps (env_line e)) = {(w, ''password'')}"
      if "e \<in> set (env_vars ?ps w)" for e
    proof -
      have "e \<in> set (classic_vars d u w)" "ev_name e \<notin> set ?us"
        using that assms(1) by (auto simp: classic_vars_def env_vars_def classic_ok_def)
      then show ?thesis
        by (simp add: classic_fields_added [OF assms(1-3)])
    qed
    have "set (env_vars ?us u) \<noteq> {}" "set (env_vars ?ps w) \<noteq> {}"
      by (simp_all add: env_vars_def Split_not_Nil)
    with user pass have new:
      "(\<Union>e \<in> set (env_vars ?us u). set (classic_fields ?us ?ps (env_line e))) = {(u, ''username'')}"
      "(\<Union>e \<in> set (env_vars ?ps w). set (classic_fields ?us ?ps (env_line e))) = {(w, ''password'')}"
      by simp_all
    show ?thesis
      unfolding classic_vars_def set_append UN_Un new by auto
  qed
  finally show ?thesis
    using assms(1,4) splitCSV_Split
    by (auto simp: extractPlaceholdersFromEnv_def Let_def classic_ok_def put_all_exact)
qed

lemma mapping_of_fields:
  assumes "set (extractPlaceholdersFromEnv (pod_env_lines p) d) = {(u, ''username''), (w, ''password'')}" "u \<noteq> w"
  shows "set (buildMappingFromPodEnv p d creds) = {(u, Username creds), (w, Password creds)}"
proof -
  let ?m = "extractPlaceholdersFromEnv (pod_env_lines p) d"
  have "set (concat (map (credential_field creds) ?m)) = (\<Union>x \<in> set ?m. set (credential_field creds x))"
    by simp
  also have "\<dots> = {(u, Username creds), (w, Password creds)}"
    unfolding assms(1) by (auto simp: credential_field_def)
  finally show ?thesis
    unfolding buildMappingFromPodEnv_def by (rule put_all_exact) (rule assms(2))
qed

lemma distinct_mapping: "distinct (map fst (buildMappingFromPodEnv p d creds))"
  unfolding buildMappingFromPodEnv_def by (rule distinct_put_all) simp

lemma subst_env_line:
  assumes "key_ok k" "IsPlaceholder v" "clean_values visit" "distinct (map fst visit)" "(v, val) \<in> set visit"
  shows "subst_line visit (env_line \<lparr>ev_name = k, ev_value = v\<rparr>) = env_line \<lparr>ev_name = k, ev_value = val\<rparr>"
proof -
  have "line_ok (Text k) [(CHR ''='', Hole v)]"
    using assms(1,2) equals_no_placeholder_char by (simp add: line_ok_def key_ok_def delimiter_def)
  from subst_line_render [OF this assms(3)] show ?thesis
    using assms(2,4,5) by (simp add: env_line_def subst_hole_def)
qed

lemma subst_classic_var:
  assumes "classic_ok d" "IsPlaceholder u" "IsPlaceholder w" "i < length (classic_vars d u w)"
    and "clean_values visit" "distinct (map fst visit)" "(u, user) \<in> set visit" "(w, pass) \<in> set visit"
  shows "subst_line visit (env_line (classic_vars d u w ! i)) = env_line (classic_vars d user pass ! i)"
proof -
  let ?us = "Split (DbUserEnvKey d) CHR '',''" and ?ps = "Split (DbPasswordEnvKey d) CHR '',''"
  have keys: "key_ok k" if "k \<in> set ?us \<union> set ?ps" for k
    using assms(1) that by (auto simp: classic_ok_def list_all_iff)
  have i: "i < length ?us + length ?ps"
    using assms(4) by (simp add: classic_vars_def env_vars_def)
  show ?thesis
  proof (cases "i < length ?us")
    case True
    then show ?thesis
      using subst_env_line [OF keys assms(2,5,6), of "?us ! i" user] assms(7)
      by (simp add: classic_vars_def env_vars_def nth_append)
  next
    case False
    then show ?thesis
      using subst_env_line [OF keys assms(3,5,6), of "?ps ! (i - length ?us)" pass] assms(8) i
      by (simp add: classic_vars_def env_vars_def nth_append)
  qed
qed

text \<open>The order in which Go visits the mapping does not matter for what it contains.\<close>

lemma credentials_visit:
  assumes "go_range order"
    and "set (extractPlaceholdersFromEnv (pod_env_lines p) d) = {(u, ''username''), (w, ''password'')}" "u \<noteq> w"
    and "\<not> Contains (Username creds) Prefix" "\<not> Contains (Password creds) Prefix"
    and visit: "visit = order (j :: nat) (buildMappingFromPodEnv p d creds)"
  shows "clean_values visit" "distinct (map fst visit)"
    "(u, Username creds) \<in> set visit" "(w, Password creds) \<in> set visit"
proof -
  have mset: "mset visit = mset (buildMappingFromPodEnv p d creds)"
    using assms(1) by (simp add: visit go_range_def)
  then have set: "set visit = {(u, Username creds), (w, Password creds)}"
    using mapping_of_fields [OF assms(2,3)] by (metis mset_eq_setD)
  then show "clean_values visit" "(u, Username creds) \<in> set visit" "(w, Password creds) \<in> set visit"
    using assms(4,5) by (auto simp: clean_values_def list_all_iff)
  show "distinct (map fst visit)"
    using distinct_mapping mset by (metis mset_map mset_eq_imp_distinct_iff)
qed

text \<open>The lines that the pod had before are not touched, so only the added variables matter.\<close>

lemma Substitute_added:
  assumes "pod_plain p" "c \<in> set (pod_init_containers p) \<union> set (pod_containers p)"
    and "length vars' = length vars"
    and "\<And>i j. i < length vars \<Longrightarrow> subst_line (order j m) (env_line (vars ! i)) = env_line (vars' ! i)"
  shows "Substitute order (map env_line (c_env (add_env vars c))) m = map env_line (c_env (add_env vars' c))"
proof (rule nth_equalityI)
  show "length (Substitute order (map env_line (c_env (add_env vars c))) m) =
      length (map env_line (c_env (add_env vars' c)))"
    using assms(3) by (simp add: add_env_def)
  fix j
  assume "j < length (Substitute order (map env_line (c_env (add_env vars c))) m)"
  then have j: "j < length (c_env c @ vars)"
    by (simp add: add_env_def)
  have "subst_line (order j m) (env_line ((c_env c @ vars) ! j)) = env_line ((c_env c @ vars') ! j)"
  proof (cases "j < length (c_env c)")
    case True
    then have "\<not> Contains (env_line (c_env c ! j)) Prefix"
      using assms(1,2) by (auto simp: pod_plain_def)
    with True show ?thesis
      by (simp add: nth_append subst_line_no_Prefix)
  qed (use j assms(4) in \<open>simp add: nth_append\<close>)
  then show "Substitute order (map env_line (c_env (add_env vars c))) m ! j =
      map env_line (c_env (add_env vars' c)) ! j"
    using j assms(3) by (simp add: nth_Substitute add_env_def flip: map_append)
qed

text \<open>
  C15. The two ways of delivering classic credentials agree. Take the pod that the webhook
  produces in NRI mode, with fresh placeholders, and the mapping that the plugin builds from that
  pod's environment for the issued credentials: then the plugin's substitution turns the
  environment of every container into the one that the webhook writes in legacy mode with the
  same credentials, whatever order Go visits the mapping in.
\<close>

theorem nri_equals_legacy_classic:
  assumes "go_range order" "classic_ok d" "pod_plain p"
    and "IsPlaceholder u" "IsPlaceholder w" "u \<noteq> w"
    and "\<not> Contains (Username creds) Prefix" "\<not> Contains (Password creds) Prefix"
    and "c \<in> set (pod_init_containers p) \<union> set (pod_containers p)"
  shows "Substitute order (map env_line (c_env (add_env (classic_vars d u w) c)))
           (buildMappingFromPodEnv (add_env_all (classic_vars d u w) p) d creds) =
         map env_line (c_env (add_env (classic_vars d (Username creds) (Password creds)) c))"
proof (rule Substitute_added [OF assms(3,9)])
  show "length (classic_vars d (Username creds) (Password creds)) = length (classic_vars d u w)"
    by (simp add: classic_vars_def env_vars_def)
  fix i j
  assume "i < length (classic_vars d u w)"
  then show "subst_line (order j (buildMappingFromPodEnv (add_env_all (classic_vars d u w) p) d creds))
      (env_line (classic_vars d u w ! i)) = env_line (classic_vars d (Username creds) (Password creds) ! i)"
    by (intro subst_classic_var assms credentials_visit [OF assms(1) extracted_classic [OF assms(2,4-6,3,9)] assms(6-8) refl])
qed

section \<open>An example\<close>

definition demo_creds :: DbCreds where
  "demo_creds = \<lparr>Username = ''alice'', Password = ''s3cret'', DbLeaseID = ''lease'', AuthLeaseID = '''',
     DbTokenID = ''orphan'', PodUUID = ''u1''\<rparr>"

definition demo_config :: DbConfiguration where
  "demo_config = \<lparr>DbURIEnvKey = '''', DbUserEnvKey = ''USER,PGUSER'', DbPasswordEnvKey = ''PASS'',
     DbName = ''pg'', db_Mode = ''Classic'', Template = '''', Role = ''ro''\<rparr>"

definition demo_container :: container where
  "demo_container = \<lparr>c_name = ''c'', c_env = [\<lparr>ev_name = ''A'', ev_value = ''1''\<rparr>]\<rparr>"

lemma nri_equals_legacy_classic_witness:
  "Substitute (\<lambda>i m. rev m) [''A=1'', ''USER='' @ user_ph, ''PGUSER='' @ user_ph, ''PASS='' @ pass_ph]
     (buildMappingFromPodEnv (add_env_all (classic_vars demo_config user_ph pass_ph) calm_pod) demo_config demo_creds) =
   [''A=1'', ''USER=alice'', ''PGUSER=alice'', ''PASS=s3cret'']"
proof -
  have "go_range (\<lambda>i m. rev m)"
    by (simp add: go_range_def)
  moreover have "classic_ok demo_config" "IsPlaceholder user_ph" "IsPlaceholder pass_ph" "user_ph \<noteq> pass_ph"
    "\<not> Contains (Username demo_creds) Prefix" "\<not> Contains (Password demo_creds) Prefix"
    by code_simp+
  moreover have "list_all (\<lambda>c. list_all (\<lambda>e. \<not> Contains (env_line e) Prefix) (c_env c))
      (pod_init_containers calm_pod @ pod_containers calm_pod)"
    by code_simp
  then have "pod_plain calm_pod"
    by (simp add: pod_plain_def list_all_iff ball_Un)
  moreover have "demo_container \<in> set (pod_init_containers calm_pod) \<union> set (pod_containers calm_pod)"
    by code_simp
  ultimately have "Substitute (\<lambda>i m. rev m)
      (map env_line (c_env (add_env (classic_vars demo_config user_ph pass_ph) demo_container)))
      (buildMappingFromPodEnv (add_env_all (classic_vars demo_config user_ph pass_ph) calm_pod) demo_config demo_creds) =
    map env_line (c_env (add_env (classic_vars demo_config (Username demo_creds) (Password demo_creds)) demo_container))"
    by - (rule nri_equals_legacy_classic; assumption)
  moreover have "map env_line (c_env (add_env (classic_vars demo_config user_ph pass_ph) demo_container)) =
      [''A=1'', ''USER='' @ user_ph, ''PGUSER='' @ user_ph, ''PASS='' @ pass_ph]"
    by code_simp
  moreover have "map env_line (c_env (add_env (classic_vars demo_config (Username demo_creds) (Password demo_creds)) demo_container)) =
      [''A=1'', ''USER=alice'', ''PGUSER=alice'', ''PASS=s3cret'']"
    by code_simp
  ultimately show ?thesis
    by (simp only:)
qed

end
