(* ===== verification/Url_Reparse.thy ===== *)
theory Url_Reparse
  imports Net_Url Placeholder
begin

text \<open>
  What \<^verbatim>\<open>net/url\<close> makes of a URL that it printed itself: the webhook prints a parsed DSN template
  with new user information, the plugin parses the result and finds that user information again.
\<close>

section \<open>Escaping and back\<close>

lemma ishex_upperhex: "n < 16 \<Longrightarrow> ishex (upperhex n)"
  by (auto simp: upperhex_def ishex_def is_digit_def less_eq_char_def)

lemma unhex_upperhex: "n < 16 \<Longrightarrow> unhex (upperhex n) = n"
  by (auto simp: upperhex_def unhex_def is_digit_def less_eq_char_def)

lemma char_halves: "char_of (16 * ((of_char c :: nat) div 16) + of_char c mod 16) = c"
  by simp

lemma of_char_halves: "(of_char c :: nat) div 16 < 16" "(of_char c :: nat) mod 16 < 16"
  by (rule less_mult_imp_div_less) simp_all

lemma percent_escaped: "shouldEscape CHR ''%'' mode"
  by (cases mode) (simp_all add: shouldEscape_def is_alnum_def is_digit_def)

lemma escape_Nil [simp]: "escape [] mode = []"
  by (simp add: escape_def)

lemma escape_Cons:
  "escape (c # cs) mode =
     (if shouldEscape c mode
      then [CHR ''%'', upperhex (of_char c div 16), upperhex (of_char c mod 16)] else [c]) @ escape cs mode"
  by (simp add: escape_def)

lemma escape_plain: "list_all (\<lambda>c. \<not> shouldEscape c mode) s \<Longrightarrow> escape s mode = s"
  by (induction s) (simp_all add: escape_Cons)

lemma length_escape: "length s \<le> length (escape s mode)"
  by (induction s) (simp_all add: escape_Cons)

lemma escape_length_iff: "length (escape s mode) = length s \<longleftrightarrow> list_all (\<lambda>c. \<not> shouldEscape c mode) s"
proof (induction s)
  case (Cons c cs)
  then show ?case
    using length_escape [of cs mode] by (auto simp: escape_Cons)
qed simp

lemma unescape_escape:
  "mode \<noteq> encodeHost \<Longrightarrow> mode \<noteq> encodeZone \<Longrightarrow> unescape (escape s mode) mode = Some s"
proof (induction s)
  case (Cons c cs)
  then show ?case
    using percent_escaped [of mode] of_char_halves [of c]
    by (auto simp: escape_Cons ishex_upperhex unhex_upperhex)
qed simp

lemma unescape_plain:
  "mode \<noteq> encodeHost \<Longrightarrow> mode \<noteq> encodeZone \<Longrightarrow> CHR ''%'' \<notin> set s \<Longrightarrow> unescape s mode = Some s"
  by (induction s) auto

text \<open>Apart from letters and digits only these characters are ever left as they are.\<close>

definition specials :: string where
  "specials = ''!$&'' @ [CHR 0x27] @ ''()*+,;=:[]<>'' @ [CHR 0x22] @ ''-_.~'' @ ''$&+,/:;=?@'' @ ''!()*''"

lemma plain_cases: "\<not> shouldEscape c mode \<Longrightarrow> is_alnum c \<or> c \<in> set specials"
proof (rule ccontr)
  assume "\<not> (is_alnum c \<or> c \<in> set specials)"
  then have "\<not> is_alnum c" "c \<notin> set ''!$&'' \<union> {CHR 0x27} \<union> set ''()*+,;=:[]<>'' \<union> {CHR 0x22}"
      "c \<notin> set ''-_.~''" "c \<notin> set ''$&+,/:;=?@''" "c \<notin> set ''!()*''"
    unfolding specials_def set_append by (simp_all only: Un_iff de_Morgan_disj set_simps(2) list.set(1)) simp_all
  then have "shouldEscape c mode"
    by (simp only: shouldEscape_def if_False if_True simp_thms)
  moreover assume "\<not> shouldEscape c mode"
  ultimately show False by contradiction
qed

text \<open>A character that needs no escaping in a host is never the result of unescaping one.\<close>

lemma shouldEscape_high:
  assumes "128 \<le> (of_char c :: nat)"
  shows "shouldEscape c mode"
proof (rule ccontr)
  assume "\<not> shouldEscape c mode"
  moreover have "\<not> is_alnum c"
    using assms by (simp add: is_alnum_def is_digit_def less_eq_char_def)
  moreover have "list_all (\<lambda>c. (of_char c :: nat) < 128) specials"
    by code_simp
  ultimately show False
    using plain_cases assms by (fastforce simp: list_all_iff)
qed

lemma unhex_less: "ishex c \<Longrightarrow> unhex c < 16"
  by (auto simp: ishex_def unhex_def is_digit_def less_eq_char_def)

lemma unescape_literal_step:
  "c \<noteq> CHR ''%'' \<Longrightarrow> unescape (c # cs) mode = Some t \<Longrightarrow> \<exists>t'. t = c # t' \<and> unescape cs mode = Some t'"
  by (simp split: if_splits) blast

lemma unescape_percent_step:
  assumes "unescape (CHR ''%'' # cs) encodeHost = Some t"
  shows "\<exists>a b rest t'. cs = a # b # rest \<and> ishex a \<and> ishex b \<and> t = char_of (16 * unhex a + unhex b) # t' \<and>
    (unhex a < 8 \<longrightarrow> a = CHR ''2'' \<and> b = CHR ''5'')"
proof -
  obtain a b rest where cs: "cs = a # b # rest"
    using assms by (cases cs; cases "tl cs") simp_all
  show ?thesis
    using assms unfolding cs by (simp split: if_splits) blast+
qed

lemma unescaped_percent_escaped:
  assumes "ishex a" "ishex b" "unhex a < 8 \<longrightarrow> a = CHR ''2'' \<and> b = CHR ''5''"
  shows "shouldEscape (char_of (16 * unhex a + unhex b)) mode"
proof (cases "unhex a < 8")
  case True
  have "(char_of (37 :: nat) :: char) = CHR ''%''"
    by code_simp
  then show ?thesis
    using assms(3) True percent_escaped [of mode] by (simp add: unhex_def is_digit_def)
next
  case False
  have "(of_char (char_of (16 * unhex a + unhex b) :: char) :: nat) = 16 * unhex a + unhex b"
    using unhex_less [OF assms(1)] unhex_less [OF assms(2)] by simp
  then show ?thesis
    using False by (intro shouldEscape_high) simp
qed

lemma unescape_host_plain:
  "unescape s encodeHost = Some t \<Longrightarrow> list_all (\<lambda>c. \<not> shouldEscape c encodeHost) t \<Longrightarrow> s = t"
proof (induction s arbitrary: t)
  case (Cons c cs)
  show ?case
  proof (cases "c = CHR ''%''")
    case True
    then show ?thesis
      using unescape_percent_step [of cs t] unescaped_percent_escaped Cons.prems by fastforce
  next
    case False
    then show ?thesis
      using unescape_literal_step [OF False Cons.prems(1)] Cons by auto
  qed
qed simp

section \<open>Printing with user information\<close>

definition query_String :: "URL \<Rightarrow> string" where
  "query_String d = (if u_ForceQuery d \<or> u_RawQuery d \<noteq> [] then ''?'' @ u_RawQuery d else [])"

definition fragment_String :: "URL \<Rightarrow> string" where
  "fragment_String d = (if u_Fragment d \<noteq> [] then ''#'' @ EscapedFragment d else [])"

definition host_path :: "URL \<Rightarrow> string" where
  "host_path d = escape (u_Host d) encodeHost @
     (if EscapedPath d \<noteq> [] \<and> hd (EscapedPath d) \<noteq> CHR ''/'' \<and> u_Host d \<noteq> [] then ''/'' else []) @ EscapedPath d"

text \<open>Everything after the at sign does not depend on the user information.\<close>

definition after_user :: "URL \<Rightarrow> string" where
  "after_user d = host_path d @ query_String d @ fragment_String d"

lemma URL_String_user:
  assumes "u_Scheme d \<noteq> []" "u_Opaque d = []"
  shows "URL_String (d\<lparr>u_User := Some (UserPassword n p)\<rparr>) =
    u_Scheme d @ ''://'' @ escape n encodeUserPassword @ '':'' @ escape p encodeUserPassword @ ''@'' @ after_user d"
proof -
  have "EscapedPath (d\<lparr>u_User := u\<rparr>) = EscapedPath d" "EscapedFragment (d\<lparr>u_User := u\<rparr>) = EscapedFragment d" for u
    by (simp_all add: EscapedPath_def EscapedFragment_def)
  then show ?thesis
    using assms
    by (simp add: URL_String_def hier_String_def authority_String_def userinfo_String_def UserPassword_def
        query_String_def fragment_String_def host_path_def after_user_def Let_def)
qed

section \<open>What parsing a template establishes\<close>

text \<open>A byte that \<^verbatim>\<open>Parse\<close> accepts before the fragment.\<close>

definition url_char :: "char \<Rightarrow> bool" where
  "url_char c \<longleftrightarrow> 32 \<le> (of_char c :: nat) \<and> c \<noteq> CHR 0x7F \<and> c \<noteq> CHR ''#''"

text \<open>
  A parsed URL with a scheme: the scheme in lower case, a path that is empty or rooted, stored as it
  was written, a host that came from \<^verbatim>\<open>parseHost\<close> or is empty, and a query without control bytes.
\<close>

definition written_path :: "URL \<Rightarrow> string \<Rightarrow> bool" where
  "written_path d p \<longleftrightarrow> unescape p encodePath = Some (u_Path d) \<and>
     u_RawPath d = (if p = escape (u_Path d) encodePath then [] else p) \<and> (p = [] \<or> hd p = CHR ''/'')"

definition parsed :: "URL \<Rightarrow> bool" where
  "parsed d \<longleftrightarrow>
     (\<exists>s. u_Scheme d = ToLower s \<and> s \<noteq> [] \<and> list_all scheme_char s \<and> is_alnum (hd s) \<and> \<not> is_digit (hd s)) \<and>
     (\<exists>p. written_path d p \<and> list_all url_char p \<and> CHR ''?'' \<notin> set p) \<and>
     (u_Host d = [] \<or> (\<exists>h. parseHost (u_Scheme d) h = Some (u_Host d))) \<and>
     list_all url_char (u_RawQuery d) \<and> (u_ForceQuery d \<longrightarrow> u_RawQuery d = [])"

lemma set_tl_dropWhile: "set (tl (dropWhile P s)) \<subseteq> set s"
  by (induction s) auto

lemma set_cut:
  "set (fst (cut sep s)) \<subseteq> set s" "set (snd (cut sep s)) \<subseteq> set s" "sep \<notin> set (fst (cut sep s))"
proof -
  show "set (snd (cut sep s)) \<subseteq> set s"
    unfolding cut_def using set_tl_dropWhile by simp
  show "set (fst (cut sep s)) \<subseteq> set s" "sep \<notin> set (fst (cut sep s))"
    unfolding cut_def by (auto dest: set_takeWhileD)
qed

lemma cut_query_eq:
  assumes "cut_query rest u = (rest', u')"
  shows "set rest' \<subseteq> set rest" "CHR ''?'' \<notin> set rest'"
    "\<exists>f q. u' = u\<lparr>u_ForceQuery := f, u_RawQuery := q\<rparr> \<and> set q \<subseteq> set rest \<union> set (u_RawQuery u) \<and>
       (u_RawQuery u = [] \<and> \<not> u_ForceQuery u \<longrightarrow> f \<longrightarrow> q = [])"
proof -
  consider "rest' = butlast rest" "CHR ''?'' \<notin> set (butlast rest)" "u' = u\<lparr>u_ForceQuery := True\<rparr>"
    | "rest' = fst (cut CHR ''?'' rest)" "u' = u\<lparr>u_RawQuery := snd (cut CHR ''?'' rest)\<rparr>"
    using assms by (auto simp: cut_query_def split: if_splits)
  then have *: "set rest' \<subseteq> set rest \<and> CHR ''?'' \<notin> set rest' \<and>
    (\<exists>f q. u' = u\<lparr>u_ForceQuery := f, u_RawQuery := q\<rparr> \<and> set q \<subseteq> set rest \<union> set (u_RawQuery u) \<and>
       (u_RawQuery u = [] \<and> \<not> u_ForceQuery u \<longrightarrow> f \<longrightarrow> q = []))"
  proof cases
    case 1
    then show ?thesis
      by (auto dest: in_set_butlastD intro!: exI [of _ True] exI [of _ "u_RawQuery u"])
  next
    case 2
    then show ?thesis
      using set_cut [of "CHR ''?''" rest]
      by (auto intro!: exI [of _ "u_ForceQuery u"] exI [of _ "snd (cut CHR ''?'' rest)"])
  qed
  then show "set rest' \<subseteq> set rest" "CHR ''?'' \<notin> set rest'"
    "\<exists>f q. u' = u\<lparr>u_ForceQuery := f, u_RawQuery := q\<rparr> \<and> set q \<subseteq> set rest \<union> set (u_RawQuery u) \<and>
       (u_RawQuery u = [] \<and> \<not> u_ForceQuery u \<longrightarrow> f \<longrightarrow> q = [])"
    by blast+
qed

lemma getScheme_eq:
  assumes "getScheme r = Some (s, rest)" "s \<noteq> []"
  shows "list_all scheme_char s" "is_alnum (hd s)" "\<not> is_digit (hd s)" "set rest \<subseteq> set r"
proof -
  let ?pre = "takeWhile scheme_char r" and ?rest = "dropWhile scheme_char r"
  have *: "s = ?pre" "rest = tl ?rest" "is_alnum (hd ?pre)" "\<not> is_digit (hd ?pre)"
    using assms by (auto simp: getScheme_def Let_def split: if_splits)
  then show "list_all scheme_char s" "is_alnum (hd s)" "\<not> is_digit (hd s)"
    by (auto simp: list_all_iff dest: set_takeWhileD)
  show "set rest \<subseteq> set r"
    unfolding *(2) by (rule set_tl_dropWhile)
qed

lemma setPath_eq:
  assumes "setPath p u = Some d"
  shows "\<exists>path. unescape p encodePath = Some path \<and>
    d = u\<lparr>u_Path := path, u_RawPath := (if p = escape path encodePath then [] else p)\<rparr>"
  using assms by (auto simp: setPath_def split: option.splits)

lemma parse_hier_cases:
  assumes "parse_hier rest u = Some d" "u_Scheme u \<noteq> []"
  obtains (opaque) "d = u\<lparr>u_Opaque := rest\<rparr>"
    | (authority) user host where
        "parseAuthority (u_Scheme u) (takeWhile (\<lambda>c. c \<noteq> CHR ''/'') (drop 2 rest)) = Some (user, host)"
        "setPath (dropWhile (\<lambda>c. c \<noteq> CHR ''/'') (drop 2 rest)) (u\<lparr>u_User := user, u_Host := host\<rparr>) = Some d"
    | (path) f where "take 1 rest = ''/''" "setPath rest (u\<lparr>u_OmitHost := f\<rparr>) = Some d"
proof -
  let ?auth = "parseAuthority (u_Scheme u) (takeWhile (\<lambda>c. c \<noteq> CHR ''/'') (drop 2 rest))"
  consider "take 1 rest \<noteq> ''/''" | "take 1 rest = ''/''" "take 2 rest = ''//''"
    | "take 1 rest = ''/''" "take 2 rest \<noteq> ''//''"
    by blast
  then show ?thesis
  proof cases
    case 1
    then have "parse_hier rest u = Some (u\<lparr>u_Opaque := rest\<rparr>)"
      using assms(2) unfolding parse_hier_def by (simp only: if_True simp_thms)
    then show ?thesis
      using assms(1) opaque by simp
  next
    case 2
    then have "parse_hier rest u = (case ?auth of None \<Rightarrow> None
      | Some (user, host) \<Rightarrow> setPath (dropWhile (\<lambda>c. c \<noteq> CHR ''/'') (drop 2 rest)) (u\<lparr>u_User := user, u_Host := host\<rparr>))"
      using assms(2) unfolding parse_hier_def Let_def by (simp only: if_True if_False simp_thms)
    then show ?thesis
      using assms(1) authority by (cases ?auth) auto
  next
    case 3
    then have "parse_hier rest u = setPath rest (u\<lparr>u_OmitHost := True\<rparr>)"
      using assms(2) unfolding parse_hier_def Let_def by (simp only: if_False simp_thms)
    then show ?thesis
      using assms(1) 3(1) path by simp
  qed
qed

lemma parse_hier_eq:
  assumes "parse_hier rest u = Some d" "u_Scheme u \<noteq> []" "u_Host u = []" "u_Path u = []" "u_RawPath u = []"
  shows "u_Scheme d = u_Scheme u \<and> u_RawQuery d = u_RawQuery u \<and> u_ForceQuery d = u_ForceQuery u \<and>
    (u_Host d = [] \<or> (\<exists>h. parseHost (u_Scheme u) h = Some (u_Host d))) \<and>
    (\<exists>p. written_path d p \<and> set p \<subseteq> set rest)"
  using assms(1,2)
proof (cases rule: parse_hier_cases)
  case opaque
  then have "written_path d []" "u_Host d = []"
    using assms(3-5) by (simp_all add: written_path_def)
  moreover have "set [] \<subseteq> set rest"
    by simp
  moreover have "u_Scheme d = u_Scheme u" "u_RawQuery d = u_RawQuery u" "u_ForceQuery d = u_ForceQuery u"
    using opaque by simp_all
  ultimately show ?thesis
    by blast
next
  case (authority user host)
  let ?p = "dropWhile (\<lambda>c. c \<noteq> CHR ''/'') (drop 2 rest)"
  obtain path where path: "unescape ?p encodePath = Some path" and
      d: "d = u\<lparr>u_User := user, u_Host := host, u_Path := path, u_RawPath := (if ?p = escape path encodePath then [] else ?p)\<rparr>"
    using setPath_eq [OF authority(2)] by auto
  have "?p = [] \<or> hd ?p = CHR ''/''"
    using hd_dropWhile [of "\<lambda>c. c \<noteq> CHR ''/''" "drop 2 rest"] by blast
  then have "written_path d ?p"
    using path by (simp add: written_path_def d)
  moreover have "set ?p \<subseteq> set rest"
    by (auto dest: set_dropWhileD in_set_dropD)
  moreover have "\<exists>h. parseHost (u_Scheme u) h = Some (u_Host d)"
    using authority(1) by (auto simp: parseAuthority_def d split: option.splits)
  moreover have "u_Scheme d = u_Scheme u" "u_RawQuery d = u_RawQuery u" "u_ForceQuery d = u_ForceQuery u"
    by (simp_all add: d)
  ultimately show ?thesis
    by blast
next
  case (path f)
  obtain path' where path': "unescape rest encodePath = Some path'" and
      d: "d = u\<lparr>u_OmitHost := f, u_Path := path', u_RawPath := (if rest = escape path' encodePath then [] else rest)\<rparr>"
    using setPath_eq [OF path(2)] by auto
  have "hd rest = CHR ''/''"
    using path(1) by (cases rest) auto
  then have "written_path d rest"
    using path' by (simp add: written_path_def d)
  moreover have "u_Scheme d = u_Scheme u" "u_RawQuery d = u_RawQuery u" "u_ForceQuery d = u_ForceQuery u"
      "u_Host d = []"
    using assms(3) by (simp_all add: d)
  ultimately show ?thesis
    by blast
qed

lemma parse_hier_scheme: "parse_hier rest u = Some d \<Longrightarrow> u_Scheme d = u_Scheme u"
  by (auto simp: parse_hier_def Let_def setPath_def split: if_splits option.splits)

lemma parse_raw_parsed:
  assumes "parse_raw r = Some d" "CHR ''#'' \<notin> set r" "u_Scheme d \<noteq> []"
  shows "parsed d"
proof -
  have chars: "url_char c" if "c \<in> set r" for c
    using assms(1,2) that by (auto simp: parse_raw_def url_char_def not_less split: if_splits)
  have "r \<noteq> ''*''"
    using assms(1,3) by (auto simp: parse_raw_def empty_URL_def split: if_splits)
  then obtain s rest rest' u where s: "getScheme r = Some (s, rest)"
    and u: "cut_query rest (empty_URL\<lparr>u_Scheme := ToLower s\<rparr>) = (rest', u)" and d: "parse_hier rest' u = Some d"
    using assms(1) by (auto simp: parse_raw_def Let_def split: if_splits option.splits prod.splits)
  obtain f q where fq: "u = empty_URL\<lparr>u_Scheme := ToLower s, u_ForceQuery := f, u_RawQuery := q\<rparr>"
      "set q \<subseteq> set rest" "f \<longrightarrow> q = []"
    using cut_query_eq(3) [OF u] by (auto simp: empty_URL_def)
  have ne: "s \<noteq> []"
    using parse_hier_scheme [OF d] assms(3) by (auto simp: fq(1))
  have scheme: "list_all scheme_char s" "is_alnum (hd s)" "\<not> is_digit (hd s)" "set rest \<subseteq> set r"
    using getScheme_eq [OF s ne] by auto
  have hier: "u_Scheme d = ToLower s" "u_RawQuery d = q" "u_ForceQuery d = f"
      "u_Host d = [] \<or> (\<exists>h. parseHost (u_Scheme d) h = Some (u_Host d))"
      "\<exists>p. written_path d p \<and> set p \<subseteq> set rest'"
    using parse_hier_eq [OF d] ne by (auto simp: fq(1) empty_URL_def ToLower_def)
  then obtain p where p: "written_path d p" "set p \<subseteq> set rest'"
    by blast
  have "list_all url_char p" "CHR ''?'' \<notin> set p" "list_all url_char q"
    using chars scheme(4) p(2) cut_query_eq(1,2) [OF u] fq(2) by (auto simp: list_all_iff)
  then show ?thesis
    unfolding parsed_def using hier(1-4) p(1) fq(3) ne scheme(1-3) by blast
qed

lemma parsed_fragment: "parsed (d\<lparr>u_Fragment := f, u_RawFragment := g\<rparr>) = parsed d"
  by (simp add: parsed_def written_path_def)

lemma Parse_parsed:
  assumes "Parse T = Inr d" "u_Scheme d \<noteq> []"
  shows "parsed d"
proof -
  obtain d0 where d0: "parse_raw (fst (cut CHR ''#'' T)) = Some d0"
      "d = d0 \<or> (\<exists>f g. d = d0\<lparr>u_Fragment := f, u_RawFragment := g\<rparr>)"
    using assms(1) by (auto simp: Parse_def setFragment_def Let_def split: option.splits prod.splits if_splits)
  then have "parsed d0"
    using parse_raw_parsed set_cut(3) assms(2) by auto
  then show ?thesis
    using d0(2) parsed_fragment by auto
qed

section \<open>The printed parts are accepted again\<close>

text \<open>What needs no escaping is harmless where it stands.\<close>

lemma plain_safe:
  assumes "\<not> shouldEscape c mode"
  shows "url_char c" "mode = encodePath \<Longrightarrow> c \<noteq> CHR ''?''"
    "mode = encodeHost \<Longrightarrow> c \<noteq> CHR ''/'' \<and> c \<noteq> CHR ''?'' \<and> c \<noteq> CHR ''@''"
proof -
  have "list_all url_char specials"
    by code_simp
  moreover have "url_char c" if "is_alnum c"
    using that by (auto simp: is_alnum_def is_digit_def less_eq_char_def url_char_def)
  ultimately show "url_char c"
    using plain_cases [OF assms] by (auto simp: list_all_iff)
  have "shouldEscape CHR ''?'' encodePath" "shouldEscape CHR ''/'' encodeHost"
      "shouldEscape CHR ''?'' encodeHost" "shouldEscape CHR ''@'' encodeHost"
    by code_simp+
  then show "mode = encodePath \<Longrightarrow> c \<noteq> CHR ''?''"
    "mode = encodeHost \<Longrightarrow> c \<noteq> CHR ''/'' \<and> c \<noteq> CHR ''?'' \<and> c \<noteq> CHR ''@''"
    using assms by metis+
qed

text \<open>Escaping adds only harmless bytes.\<close>

lemma upperhex_plain: "n < 16 \<Longrightarrow> \<not> shouldEscape (upperhex n) mode"
  by (auto simp: shouldEscape_def upperhex_def is_alnum_def is_digit_def less_eq_char_def)

lemma escape_chars:
  assumes "\<And>c. \<not> shouldEscape c mode \<Longrightarrow> P c" "P CHR ''%''" "\<And>n. n < 16 \<Longrightarrow> P (upperhex n)"
  shows "list_all P (escape s mode)"
proof (induction s)
  case (Cons c s)
  have "P (upperhex (of_char c div 16))" "P (upperhex (of_char c mod 16))"
    by (rule assms(3), rule of_char_halves)+
  then show ?case
    using Cons assms(1) [of c] assms(2) by (simp add: escape_Cons)
qed simp

lemma escaped_safe:
  "list_all url_char (escape s mode)" "mode = encodePath \<Longrightarrow> CHR ''?'' \<notin> set (escape s mode)"
proof -
  show "list_all url_char (escape s mode)"
  proof (rule escape_chars)
    show "url_char CHR ''%''"
      by (simp add: url_char_def)
  qed (auto intro: plain_safe(1) plain_safe(1) [OF upperhex_plain [of _ mode]])
  have "list_all (\<lambda>c. c \<noteq> CHR ''?'') (escape s encodePath)"
  proof (rule escape_chars)
    show "\<And>n. n < 16 \<Longrightarrow> upperhex n \<noteq> CHR ''?''"
      by (rule plain_safe(2) [OF upperhex_plain]) simp_all
  qed (auto dest: plain_safe(2))
  then show "mode = encodePath \<Longrightarrow> CHR ''?'' \<notin> set (escape s mode)"
    by (auto simp: list_all_iff)
qed

lemma EscapedPath_safe:
  assumes "written_path d p" "list_all url_char p" "CHR ''?'' \<notin> set p"
  shows "EscapedPath d = [] \<or> hd (EscapedPath d) = CHR ''/''" "list_all url_char (EscapedPath d)"
    "CHR ''?'' \<notin> set (EscapedPath d)" "unescape (EscapedPath d) encodePath \<noteq> None"
proof -
  have w: "unescape p encodePath = Some (u_Path d)" "u_RawPath d = (if p = escape (u_Path d) encodePath then [] else p)"
      "p = [] \<or> hd p = CHR ''/''"
    using assms(1) by (simp_all add: written_path_def)
  have start: "u_Path d = [] \<or> hd (u_Path d) = CHR ''/''"
  proof (cases p)
    case (Cons c cs)
    then have "c = CHR ''/''"
      using w(3) by simp
    then show ?thesis
      using unescape_literal_step [of c cs encodePath "u_Path d"] w(1) Cons by auto
  qed (use w(1) in simp)
  then have "u_Path d \<noteq> ''*''"
    by (cases "u_Path d") simp_all
  then have path: "EscapedPath d = p \<or> EscapedPath d = escape (u_Path d) encodePath"
    using w(2) by (simp add: EscapedPath_def split: if_splits)
  have slash: "\<not> shouldEscape CHR ''/'' encodePath"
    by code_simp
  have "escape (u_Path d) encodePath = [] \<or> hd (escape (u_Path d) encodePath) = CHR ''/''"
    using start slash by (cases "u_Path d") (simp_all add: escape_Cons)
  then show "EscapedPath d = [] \<or> hd (EscapedPath d) = CHR ''/''"
    using path w(3) by metis
  show "list_all url_char (EscapedPath d)"
    using path assms(2) escaped_safe(1) by metis
  show "CHR ''?'' \<notin> set (EscapedPath d)"
    using path assms(3) escaped_safe(2) by metis
  show "unescape (EscapedPath d) encodePath \<noteq> None"
    using path w(1) unescape_escape [of encodePath "u_Path d"] by fastforce
qed

lemma EscapedFragment_unescape: "unescape (EscapedFragment d) encodeFragment \<noteq> None"
  by (auto simp: EscapedFragment_def unescape_escape)

lemma parseHost_bracket:
  assumes "parseHost scheme h = Some host" "CHR ''['' \<in> set h"
  shows "CHR ''['' \<in> set host"
proof -
  obtain front inside where c: "cut_last CHR ''['' h = Some (front, inside)"
    using assms(2) by (simp add: cut_last_def)
  show ?thesis
    using assms(1) unfolding parseHost_def c
    by (simp add: Let_def split: if_splits option.splits prod.splits) auto
qed

lemma parseHost_plain:
  "parseHost scheme h = Some host \<Longrightarrow> CHR ''['' \<notin> set h \<Longrightarrow> unescape h encodeHost = Some host"
  unfolding parseHost_def cut_last_def by (simp split: if_splits)

lemma host_plain:
  assumes "parseHost scheme h = Some host" "list_all (\<lambda>c. \<not> shouldEscape c encodeHost \<and> c \<noteq> CHR ''['') host"
  shows "parseHost scheme host = Some host"
proof -
  have "CHR ''['' \<notin> set host" "list_all (\<lambda>c. \<not> shouldEscape c encodeHost) host"
    using assms(2) by (auto simp: list_all_iff)
  then have "h = host"
    using assms(1) parseHost_bracket parseHost_plain unescape_host_plain by metis
  then show ?thesis
    using assms(1) by simp
qed

section \<open>Cutting the printed URL\<close>

lemma cut_at: "sep \<notin> set a \<Longrightarrow> cut sep (a @ sep # b) = (a, b)"
  by (simp add: cut_def takeWhile_append dropWhile_append)

lemma cut_none: "sep \<notin> set a \<Longrightarrow> cut sep a = (a, [])"
  by (induction a) (auto simp: cut_def)

lemma cut_last_at: "sep \<notin> set b \<Longrightarrow> cut_last sep (a @ sep # b) = Some (a, b)"
  by (simp add: cut_last_def takeWhile_append dropWhile_append)

lemma getScheme_at:
  assumes "s \<noteq> []" "list_all scheme_char s" "is_alnum (hd s)" "\<not> is_digit (hd s)"
  shows "getScheme (s @ CHR '':'' # rest) = Some (s, rest)"
proof -
  have colon: "\<not> scheme_char CHR '':''"
    by code_simp
  then have "hd s \<noteq> CHR '':''"
    using assms(1,2) by (cases s) auto
  moreover have "takeWhile scheme_char (s @ CHR '':'' # rest) = s" "dropWhile scheme_char (s @ CHR '':'' # rest) = CHR '':'' # rest"
    using assms(2) colon by (simp_all add: takeWhile_append dropWhile_append list_all_iff)
  ultimately show ?thesis
    using assms by (simp add: getScheme_def)
qed

lemma cut_query_at:
  assumes "CHR ''?'' \<notin> set b" "q = [] \<or> (\<exists>r. q = CHR ''?'' # r)"
  shows "\<exists>u'. cut_query (b @ q) u = (b, u') \<and> u_Scheme u' = u_Scheme u"
proof (cases "suffix ''?'' (b @ q) \<and> CHR ''?'' \<notin> set (butlast (b @ q))")
  case True
  then obtain z where z: "b @ q = z @ ''?''"
    by (auto elim: suffixE)
  have "q \<noteq> []"
  proof
    assume "q = []"
    then have "CHR ''?'' \<in> set b"
      using z by simp
    with assms(1) show False ..
  qed
  then obtain r where r: "q = CHR ''?'' # r"
    using assms(2) by blast
  have "r = []"
    using True r by (cases r rule: rev_cases) (auto simp: butlast_append)
  then show ?thesis
    using True r by (simp add: cut_query_def)
next
  case False
  have "fst (cut CHR ''?'' (b @ q)) = b"
    using assms cut_at [of "CHR ''?''" b] cut_none [of "CHR ''?''" b] by auto
  then show ?thesis
    using False by (simp only: cut_query_def if_False) simp
qed

lemma lower_letter: "is_alnum (lower_char c) = is_alnum c" "is_digit (lower_char c) = is_digit c"
  by (auto simp: lower_char_def is_alnum_def is_digit_def less_eq_char_def)

lemma lower_scheme_char:
  assumes "scheme_char c"
  shows "scheme_char (lower_char c)" "url_char (lower_char c)" "lower_char c \<noteq> CHR ''?''"
proof -
  have "is_alnum (lower_char c) \<or> lower_char c \<in> set ''+-.''"
  proof (cases "is_alnum c")
    case False
    then have "c = CHR ''+'' \<or> c = CHR ''-'' \<or> c = CHR ''.''"
      using assms by (simp add: scheme_char_def)
    then have "lower_char c = c"
      by (elim disjE) (simp_all add: lower_char_def)
    then show ?thesis
      using assms by (simp add: scheme_char_def)
  qed (simp add: lower_letter)
  then show *: "scheme_char (lower_char c)"
    by (simp add: scheme_char_def)
  have "\<not> shouldEscape (lower_char c) encodePath"
    using * by (auto simp: scheme_char_def shouldEscape_def)
  then show "url_char (lower_char c)" "lower_char c \<noteq> CHR ''?''"
    by (auto intro: plain_safe(1) dest: plain_safe(2))
qed

lemma lower_scheme:
  assumes "s \<noteq> []" "list_all scheme_char s" "is_alnum (hd s)" "\<not> is_digit (hd s)"
  shows "ToLower s \<noteq> []" "list_all scheme_char (ToLower s)" "is_alnum (hd (ToLower s))" "\<not> is_digit (hd (ToLower s))"
    "list_all url_char (ToLower s)"
  using assms lower_scheme_char by (auto simp: ToLower_def list_all_iff hd_map lower_letter)

text \<open>User information that is printed and read back as it is; placeholders are.\<close>

definition user_plain :: "string \<Rightarrow> bool" where
  "user_plain s \<longleftrightarrow> list_all (\<lambda>c. is_alnum c \<or> c = CHR ''_'') s"

lemma user_plain_escape: "user_plain s \<Longrightarrow> escape s encodeUserPassword = s"
proof (rule escape_plain)
  have "\<not> shouldEscape CHR ''_'' encodeUserPassword"
    by code_simp
  then show "user_plain s \<Longrightarrow> list_all (\<lambda>c. \<not> shouldEscape c encodeUserPassword) s"
    unfolding user_plain_def by (elim list.pred_mono_strong) (auto simp: shouldEscape_def)
qed

lemma user_plain_url: "user_plain s \<Longrightarrow> list_all url_char s"
  using escaped_safe(1) [of s encodeUserPassword] by (simp add: user_plain_escape)

lemma user_plain_not: "user_plain s \<Longrightarrow> \<not> is_alnum d \<and> d \<noteq> CHR ''_'' \<Longrightarrow> d \<notin> set s"
  by (auto simp: user_plain_def list_all_iff)

lemma user_plain_separators:
  assumes "user_plain s"
  shows "CHR ''%'' \<notin> set s" "CHR ''@'' \<notin> set s" "CHR ''/'' \<notin> set s" "CHR ''?'' \<notin> set s" "CHR '':'' \<notin> set s"
  by (rule user_plain_not [OF assms], code_simp)+

lemma validUserinfo_plain: "user_plain s \<Longrightarrow> validUserinfo s"
  unfolding validUserinfo_def user_plain_def by (erule list.pred_mono_strong) auto

lemma parseUserinfo_plain:
  assumes "user_plain n" "user_plain p"
  shows "parseUserinfo (n @ CHR '':'' # p) = Some (n, Some p)"
proof -
  have "validUserinfo [CHR '':'']"
    by code_simp
  then have "validUserinfo (n @ CHR '':'' # p)"
    using validUserinfo_plain assms by (simp add: validUserinfo_def)
  then show ?thesis
    using user_plain_separators [OF assms(1)] user_plain_separators [OF assms(2)] cut_at [of "CHR '':''" n p]
      unescape_plain [of encodeUserPassword]
    by (simp add: parseUserinfo_def)
qed

section \<open>Printed and parsed back\<close>

text \<open>A DSN with a scheme, not opaque, and a host outside brackets that needs no escaping.\<close>

definition dsn_ok :: "URL \<Rightarrow> bool" where
  "dsn_ok d \<longleftrightarrow> u_Scheme d \<noteq> [] \<and> u_Opaque d = [] \<and>
     list_all (\<lambda>c. \<not> shouldEscape c encodeHost \<and> c \<noteq> CHR ''['') (u_Host d)"

lemma dsn_host:
  assumes "dsn_ok d" "parsed d"
  shows "escape (u_Host d) encodeHost = u_Host d" "parseHost (u_Scheme d) (u_Host d) = Some (u_Host d)"
    "list_all url_char (u_Host d)" "CHR ''/'' \<notin> set (u_Host d)" "CHR ''?'' \<notin> set (u_Host d)" "CHR ''@'' \<notin> set (u_Host d)"
proof -
  have plain: "list_all (\<lambda>c. \<not> shouldEscape c encodeHost) (u_Host d)"
    using assms(1) by (auto simp: dsn_ok_def list_all_iff)
  then show "escape (u_Host d) encodeHost = u_Host d"
    by (rule escape_plain)
  show "parseHost (u_Scheme d) (u_Host d) = Some (u_Host d)"
  proof (cases "u_Host d = []")
    case True
    then show ?thesis
      by (simp add: parseHost_def cut_last_def)
  next
    case False
    then obtain h where "parseHost (u_Scheme d) h = Some (u_Host d)"
      using assms(2) unfolding parsed_def by blast
    then show ?thesis
      using assms(1) unfolding dsn_ok_def by (intro host_plain) simp_all
  qed
  show "list_all url_char (u_Host d)"
    using plain plain_safe(1) by (auto simp: list_all_iff)
  have "\<forall>c \<in> set (u_Host d). c \<noteq> CHR ''/'' \<and> c \<noteq> CHR ''?'' \<and> c \<noteq> CHR ''@''"
    using plain plain_safe(3) by (simp add: list_all_iff)
  then show "CHR ''/'' \<notin> set (u_Host d)" "CHR ''?'' \<notin> set (u_Host d)" "CHR ''@'' \<notin> set (u_Host d)"
    by auto
qed

lemma dsn_path:
  assumes "parsed d"
  shows "EscapedPath d = [] \<or> hd (EscapedPath d) = CHR ''/''" "list_all url_char (EscapedPath d)"
    "CHR ''?'' \<notin> set (EscapedPath d)" "unescape (EscapedPath d) encodePath \<noteq> None"
  using assms EscapedPath_safe unfolding parsed_def by blast+

lemma until:
  assumes "sep \<notin> set a" "b = [] \<or> hd b = sep"
  shows "takeWhile (\<lambda>c. c \<noteq> sep) (a @ b) = a" "dropWhile (\<lambda>c. c \<noteq> sep) (a @ b) = b"
proof -
  have a: "x \<noteq> sep" if "x \<in> set a" for x
    using assms(1) that by blast
  have "takeWhile (\<lambda>c. c \<noteq> sep) b = []" "dropWhile (\<lambda>c. c \<noteq> sep) b = b"
    using assms(2) by (cases b; simp)+
  then show "takeWhile (\<lambda>c. c \<noteq> sep) (a @ b) = a" "dropWhile (\<lambda>c. c \<noteq> sep) (a @ b) = b"
    by (simp_all only: takeWhile_append2 [OF a] dropWhile_append2 [OF a] append_Nil2)
qed

lemma parse_hier_authority:
  assumes "u_Scheme u \<noteq> []" "take 1 r = ''/''" "take 2 r = ''//''" "drop 2 r = s"
  shows "parse_hier r u =
    (case parseAuthority (u_Scheme u) (takeWhile (\<lambda>c. c \<noteq> CHR ''/'') s) of
       None \<Rightarrow> None
     | Some (user, host) \<Rightarrow>
         setPath (dropWhile (\<lambda>c. c \<noteq> CHR ''/'') s) (u\<lparr>u_User := user, u_Host := host\<rparr>))"
  using assms(1-3) unfolding parse_hier_def Let_def assms(4) by (simp only: if_True if_False simp_thms)

text \<open>The part between the scheme and the query.\<close>

lemma parse_hier_printed:
  assumes "dsn_ok d" "parsed d" "user_plain n" "user_plain p" "u_Scheme u = u_Scheme d"
  shows "\<exists>v. parse_hier (''//'' @ (n @ CHR '':'' # p) @ CHR ''@'' # u_Host d @ EscapedPath d) u = Some v \<and>
    u_User v = Some (n, Some p)"
proof -
  let ?auth = "(n @ CHR '':'' # p) @ CHR ''@'' # u_Host d" and ?path = "EscapedPath d"
  note host = dsn_host [OF assms(1,2)]
  have noslash: "CHR ''/'' \<notin> set ?auth"
    using user_plain_separators [OF assms(3)] user_plain_separators [OF assms(4)] host(4) by simp
  have split: "takeWhile (\<lambda>c. c \<noteq> CHR ''/'') (?auth @ ?path) = ?auth"
    "dropWhile (\<lambda>c. c \<noteq> CHR ''/'') (?auth @ ?path) = ?path"
    by (rule until [OF noslash dsn_path(1) [OF assms(2)]])+
  have "cut_last CHR ''@'' ?auth = Some (n @ CHR '':'' # p, u_Host d)"
    by (rule cut_last_at) (rule host(6))
  then have auth: "parseAuthority (u_Scheme u) ?auth = Some (Some (n, Some p), u_Host d)"
    using host(2) parseUserinfo_plain [OF assms(3,4)] by (simp add: parseAuthority_def assms(5))
  obtain path where path: "unescape ?path encodePath = Some path"
    using dsn_path(4) [OF assms(2)] by blast
  let ?r = "''//'' @ ?auth @ ?path"
  have "u_Scheme u \<noteq> []"
    using assms(1,5) by (simp add: dsn_ok_def)
  moreover have "take 1 ?r = ''/''" "take 2 ?r = ''//''" "drop 2 ?r = ?auth @ ?path"
    by simp_all
  ultimately have "parse_hier ?r u = setPath ?path (u\<lparr>u_User := Some (n, Some p), u_Host := u_Host d\<rparr>)"
    by (rule trans [OF parse_hier_authority]) (simp only: split auth option.case prod.case)
  then have "parse_hier ?r u = Some (u\<lparr>u_User := Some (n, Some p), u_Host := u_Host d, u_Path := path,
        u_RawPath := (if ?path = escape path encodePath then [] else ?path)\<rparr>)"
    by (simp only: setPath_def path option.case)
  then show ?thesis
    by simp
qed

lemma host_path_eq: "dsn_ok d \<Longrightarrow> parsed d \<Longrightarrow> host_path d = u_Host d @ EscapedPath d"
  using dsn_host(1) [of d] dsn_path(1) [of d] by (auto simp: host_path_def)

lemma query_String_shape:
  assumes "parsed d"
  shows "query_String d = [] \<or> (\<exists>r. query_String d = CHR ''?'' # r)" "list_all url_char (query_String d)"
proof -
  have "list_all url_char (u_RawQuery d)" "url_char CHR ''?''"
    using assms by (simp_all add: parsed_def url_char_def)
  then show "query_String d = [] \<or> (\<exists>r. query_String d = CHR ''?'' # r)" "list_all url_char (query_String d)"
    by (simp_all add: query_String_def)
qed

text \<open>Everything before the fragment parses to a URL with the new user information.\<close>

lemma parse_raw_at:
  assumes "list_all url_char a" "a = s @ CHR '':'' # b @ q"
    and "s \<noteq> []" "list_all scheme_char s" "is_alnum (hd s)" "\<not> is_digit (hd s)"
    and "CHR ''?'' \<notin> set b" "q = [] \<or> (\<exists>r. q = CHR ''?'' # r)"
  shows "\<exists>u. u_Scheme u = ToLower s \<and> parse_raw a = parse_hier b u"
proof -
  have "32 \<le> (of_char c :: nat) \<and> c \<noteq> CHR 0x7F" if "c \<in> set a" for c
    using assms(1) that by (simp add: list_all_iff url_char_def)
  then have clean: "(\<exists>c \<in> set a. (of_char c :: nat) < 32 \<or> c = CHR 0x7F) = False"
    using not_le by blast
  have "a \<noteq> ''*''"
    using assms(2,3) by (cases s) simp_all
  moreover have "getScheme a = Some (s, b @ q)"
    unfolding assms(2) by (rule getScheme_at [OF assms(3-6)])
  moreover obtain u where u: "cut_query (b @ q) (empty_URL\<lparr>u_Scheme := ToLower s\<rparr>) = (b, u)"
      "u_Scheme u = u_Scheme (empty_URL\<lparr>u_Scheme := ToLower s\<rparr>)"
    using cut_query_at [OF assms(7,8)] by blast
  ultimately have "parse_raw a = parse_hier b u"
    by (simp only: parse_raw_def clean if_False option.case prod.case Let_def)
  then show ?thesis
    using u(2) by auto
qed

lemma parse_raw_printed:
  assumes "dsn_ok d" "parsed d" "user_plain n" "user_plain p"
    and b: "b = ''//'' @ (n @ CHR '':'' # p) @ CHR ''@'' # u_Host d @ EscapedPath d"
    and a: "a = u_Scheme d @ CHR '':'' # b @ query_String d"
  shows "list_all url_char a" "\<exists>v. parse_raw a = Some v \<and> u_User v = Some (n, Some p)"
proof -
  obtain s where s: "u_Scheme d = ToLower s" "s \<noteq> []" "list_all scheme_char s" "is_alnum (hd s)" "\<not> is_digit (hd s)"
    using assms(2) unfolding parsed_def by blast
  note scheme = lower_scheme [OF s(2-5), folded s(1)]
  have "url_char CHR ''/''" "url_char CHR '':''" "url_char CHR ''@''"
    by (simp_all add: url_char_def)
  then show chars: "list_all url_char a"
    using scheme(5) user_plain_url [OF assms(3)] user_plain_url [OF assms(4)] dsn_host(3) [OF assms(1,2)]
      dsn_path(2) [OF assms(2)] query_String_shape(2) [OF assms(2)]
    by (simp add: a b)
  have "CHR ''?'' \<notin> set b"
    using user_plain_separators(4) [OF assms(3)] user_plain_separators(4) [OF assms(4)]
      dsn_host(5) [OF assms(1,2)] dsn_path(3) [OF assms(2)] by (simp add: b)
  then obtain u where u: "u_Scheme u = ToLower (u_Scheme d)" "parse_raw a = parse_hier b u"
    using parse_raw_at [OF chars a scheme(1-4) _ query_String_shape(1) [OF assms(2)]] by blast
  have "u_Scheme u = u_Scheme d"
    by (simp only: u(1) s(1) ToLower_idem)
  then show "\<exists>v. parse_raw a = Some v \<and> u_User v = Some (n, Some p)"
    unfolding u(2) b by (rule parse_hier_printed [OF assms(1-4)])
qed

lemma Parse_printed:
  assumes "Parse T = Inr d" "dsn_ok d" "user_plain n" "user_plain p"
  shows "\<exists>v. Parse (URL_String (d\<lparr>u_User := Some (UserPassword n p)\<rparr>)) = Inr v \<and> u_User v = Some (n, Some p)"
proof -
  define b where "b = ''//'' @ (n @ CHR '':'' # p) @ CHR ''@'' # u_Host d @ EscapedPath d"
  define a where "a = u_Scheme d @ CHR '':'' # b @ query_String d"
  have d: "u_Scheme d \<noteq> []" "u_Opaque d = []"
    using assms(2) by (simp_all add: dsn_ok_def)
  have parsed: "parsed d"
    by (rule Parse_parsed [OF assms(1) d(1)])
  obtain v where v: "parse_raw a = Some v" "u_User v = Some (n, Some p)"
    using parse_raw_printed(2) [OF assms(2) parsed assms(3,4) b_def a_def] by blast
  have "CHR ''#'' \<notin> set a"
    using parse_raw_printed(1) [OF assms(2) parsed assms(3,4) b_def a_def] by (auto simp: list_all_iff url_char_def)
  then have cut: "cut CHR ''#'' (a @ fragment_String d) = (a, if u_Fragment d = [] then [] else EscapedFragment d)"
    using cut_at cut_none by (auto simp: fragment_String_def)
  have print: "URL_String (d\<lparr>u_User := Some (UserPassword n p)\<rparr>) = a @ fragment_String d"
    unfolding URL_String_user [OF d] a_def b_def after_user_def host_path_eq [OF assms(2) parsed]
    by (simp add: user_plain_escape assms(3,4))
  obtain f where "unescape (EscapedFragment d) encodeFragment = Some f"
    using EscapedFragment_unescape by blast
  then show ?thesis
    unfolding print Parse_def cut using v
    by (auto simp: setFragment_def)
qed

end
