(* ===== verification/Webhook_Plugin_Uri.thy ===== *)
theory Webhook_Plugin_Uri
  imports Webhook_Plugin Url_Reparse
begin

text \<open>
  The webhook and the plugin together in URI mode. The webhook prints the DSN template with two
  placeholders as user information, the plugin parses the value to find them, and replaces them by
  the credentials as they are, while the legacy delivery prints the credentials escaped.
\<close>

section \<open>The values\<close>

definition uri_value :: "URL \<Rightarrow> string \<Rightarrow> string \<Rightarrow> string" where
  "uri_value dsn n p = URL_String (dsn\<lparr>u_User := Some (UserPassword n p)\<rparr>)"

text \<open>The same text with the credentials put in unescaped.\<close>

definition raw_value :: "URL \<Rightarrow> string \<Rightarrow> string \<Rightarrow> string" where
  "raw_value dsn n p = u_Scheme dsn @ ''://'' @ n @ '':'' @ p @ ''@'' @ after_user dsn"

text \<open>A configuration in URI mode whose template parses to a DSN that can take user information.\<close>

definition uri_ok :: "DbConfiguration \<Rightarrow> URL \<Rightarrow> bool" where
  "uri_ok d dsn \<longleftrightarrow> ToLower (db_Mode d) = DbModeURI \<and> list_all key_ok (Split (DbURIEnvKey d) CHR '','') \<and>
     Parse (Template d) = Inr dsn \<and> dsn_ok dsn \<and> \<not> Contains (after_user dsn) Prefix"

text \<open>The pod does not set the configuration's variables itself.\<close>

definition keys_free :: "DbConfiguration \<Rightarrow> pod \<Rightarrow> bool" where
  "keys_free d p \<longleftrightarrow> (\<forall>c \<in> set (pod_init_containers p) \<union> set (pod_containers p).
     \<forall>e \<in> set (c_env c). fst (splitKV (env_line e)) \<notin> set (Split (DbURIEnvKey d) CHR '',''))"

text \<open>What the user information of a URL can hold without escaping.\<close>

definition userinfo_safe :: "string \<Rightarrow> bool" where
  "userinfo_safe s \<longleftrightarrow> list_all (\<lambda>c. \<not> shouldEscape c encodeUserPassword) s"

lemma uri_value_eq:
  "dsn_ok dsn \<Longrightarrow> uri_value dsn n p = raw_value dsn (escape n encodeUserPassword) (escape p encodeUserPassword)"
  by (simp add: uri_value_def raw_value_def dsn_ok_def URL_String_user)

lemma raw_value_eq_iff:
  assumes "dsn_ok dsn"
  shows "raw_value dsn n p = uri_value dsn n p \<longleftrightarrow> userinfo_safe n \<and> userinfo_safe p"
proof
  assume "raw_value dsn n p = uri_value dsn n p"
  then have "length (raw_value dsn n p) = length (uri_value dsn n p)"
    by simp
  then have "length (escape n encodeUserPassword) + length (escape p encodeUserPassword) = length n + length p"
    by (simp add: uri_value_eq assms raw_value_def)
  then show "userinfo_safe n \<and> userinfo_safe p"
    using length_escape [of n encodeUserPassword] length_escape [of p encodeUserPassword]
    by (simp add: userinfo_safe_def flip: escape_length_iff)
qed (simp add: uri_value_eq assms userinfo_safe_def escape_plain)

lemma placeholder_user_plain: "IsPlaceholder s \<Longrightarrow> user_plain s"
proof -
  assume "IsPlaceholder s"
  moreover have "list_all (\<lambda>c. is_alnum c \<or> c = CHR ''_'') (Prefix @ Suffix)"
    by code_simp
  moreover have "is_alnum c" if "is_hex c" for c
    using that by (auto simp: is_hex_def is_alnum_def is_digit_def less_eq_char_def)
  ultimately show ?thesis
    using IsPlaceholder_chars [of s] by (auto simp: user_plain_def list_all_iff placeholder_char_def)
qed

section \<open>Reading back what the webhook wrote\<close>

lemma uri_fields_added:
  assumes "uri_ok d dsn" "IsPlaceholder u" "IsPlaceholder w" "k \<in> set (Split (DbURIEnvKey d) CHR '','')"
  shows "uri_fields (Split (DbURIEnvKey d) CHR '','') (env_line \<lparr>ev_name = k, ev_value = uri_value dsn u w\<rparr>) =
    [(u, ''username''), (w, ''password'')]"
proof -
  have "splitKV (env_line \<lparr>ev_name = k, ev_value = uri_value dsn u w\<rparr>) = (k, uri_value dsn u w)"
    using assms(1,4) splitKV_eq [of k "uri_value dsn u w"] by (simp add: env_line_def uri_ok_def key_ok_def list_all_iff)
  moreover obtain v where "Parse (uri_value dsn u w) = Inr v" "u_User v = Some (u, Some w)"
    using Parse_printed [of "Template d" dsn u w] assms placeholder_user_plain
    by (auto simp: uri_ok_def uri_value_def)
  ultimately show ?thesis
    using assms(2-4) by (simp add: uri_fields_def)
qed

lemma uri_fields_other: "fst (splitKV line) \<notin> set ks \<Longrightarrow> uri_fields ks line = []"
  by (simp add: uri_fields_def split_beta Let_def)

lemma extracted_uri:
  assumes "uri_ok d dsn" "IsPlaceholder u" "IsPlaceholder w" "u \<noteq> w" "keys_free d p"
    and "c \<in> set (pod_init_containers p) \<union> set (pod_containers p)"
  shows "set (extractPlaceholdersFromEnv (pod_env_lines (add_env_all (uri_vars d (uri_value dsn u w)) p)) d) =
    {(u, ''username''), (w, ''password'')}"
proof -
  let ?ks = "Split (DbURIEnvKey d) CHR '',''"
  let ?vars = "uri_vars d (uri_value dsn u w)"
  have old: "uri_fields ?ks line = []" if "line \<in> set (pod_env_lines p)" for line
    using that assms(5) by (intro uri_fields_other) (auto simp: set_pod_env_lines keys_free_def)
  have new: "uri_fields ?ks (env_line e) = [(u, ''username''), (w, ''password'')]" if "e \<in> set ?vars" for e
    using that uri_fields_added [OF assms(1-3)] by (auto simp: uri_vars_def env_vars_def)
  have "set (concat (map (uri_fields ?ks) (pod_env_lines (add_env_all ?vars p)))) =
      (\<Union>e \<in> set ?vars. set (uri_fields ?ks (env_line e)))"
    using pod_env_lines_added [OF assms(6), of ?vars] old by auto
  moreover have "set ?vars \<noteq> {}"
    by (simp add: uri_vars_def env_vars_def)
  ultimately have "set (concat (map (uri_fields ?ks) (pod_env_lines (add_env_all ?vars p)))) =
      {(u, ''username''), (w, ''password'')}"
    using new by auto
  moreover have "splitCSV (DbURIEnvKey d) = ?ks" "ToLower (db_Mode d) = DbModeURI"
    using assms(1) splitCSV_Split by (simp_all add: uri_ok_def)
  moreover have "DbModeURI \<noteq> DbModeClassic" "DbModeURI \<noteq> ''''"
    by code_simp+
  ultimately show ?thesis
    using assms(4) by (simp add: extractPlaceholdersFromEnv_def put_all_exact)
qed

lemma scheme_no_Prefix:
  assumes "parsed dsn"
  shows "\<not> Contains (u_Scheme dsn) Prefix"
proof
  obtain s where s: "u_Scheme dsn = ToLower s" "list_all scheme_char (ToLower s)"
    using assms lower_scheme unfolding parsed_def by metis
  assume "Contains (u_Scheme dsn) Prefix"
  then have "CHR ''_'' \<in> set (u_Scheme dsn)"
    by (auto simp: Contains_append_iff Prefix_def)
  moreover have "\<not> scheme_char CHR ''_''"
    by code_simp
  ultimately show False
    using s by (auto simp: list_all_iff)
qed

lemma subst_uri_line:
  assumes "uri_ok d dsn" "key_ok k" "IsPlaceholder u" "IsPlaceholder w"
    and "clean_values visit" "distinct (map fst visit)" "(u, user) \<in> set visit" "(w, pass) \<in> set visit"
  shows "subst_line visit (env_line \<lparr>ev_name = k, ev_value = uri_value dsn u w\<rparr>) =
    env_line \<lparr>ev_name = k, ev_value = raw_value dsn user pass\<rparr>"
proof -
  let ?rest = "[(CHR ''='', Text (u_Scheme dsn)), (CHR '':'', Text []), (CHR ''/'', Text []), (CHR ''/'', Hole u),
      (CHR '':'', Hole w), (CHR ''@'', Text (after_user dsn))]"
  have dsn: "dsn_ok dsn" "parsed dsn"
    using assms(1) Parse_parsed by (auto simp: uri_ok_def dsn_ok_def)
  have "\<not> Contains [] Prefix" "delimiter CHR ''=''" "delimiter CHR '':''" "delimiter CHR ''/''" "delimiter CHR ''@''"
    by code_simp+
  then have ok: "line_ok (Text k) ?rest"
    using assms(1-4) scheme_no_Prefix [OF dsn(2)] by (simp add: line_ok_def key_ok_def uri_ok_def)
  have "env_line \<lparr>ev_name = k, ev_value = uri_value dsn u w\<rparr> = render id (Text k) ?rest"
    by (simp add: env_line_def uri_value_eq [OF dsn(1)] raw_value_def user_plain_escape placeholder_user_plain assms(3,4))
  moreover have "env_line \<lparr>ev_name = k, ev_value = raw_value dsn user pass\<rparr> = render (subst_hole visit) (Text k) ?rest"
    using assms(3,4,6-8) by (simp add: env_line_def raw_value_def subst_hole_def)
  ultimately show ?thesis
    using subst_line_render [OF ok assms(5)] by simp
qed

lemma Substitute_uri:
  assumes "go_range order" "uri_ok d dsn" "pod_plain p" "keys_free d p"
    and "IsPlaceholder u" "IsPlaceholder w" "u \<noteq> w"
    and "\<not> Contains (Username creds) Prefix" "\<not> Contains (Password creds) Prefix"
    and "c \<in> set (pod_init_containers p) \<union> set (pod_containers p)"
  shows "Substitute order (map env_line (c_env (add_env (uri_vars d (uri_value dsn u w)) c)))
      (buildMappingFromPodEnv (add_env_all (uri_vars d (uri_value dsn u w)) p) d creds) =
    map env_line (c_env (add_env (uri_vars d (raw_value dsn (Username creds) (Password creds))) c))"
proof (rule Substitute_added [OF assms(3,10)])
  let ?p = "add_env_all (uri_vars d (uri_value dsn u w)) p"
  show "length (uri_vars d (raw_value dsn (Username creds) (Password creds))) = length (uri_vars d (uri_value dsn u w))"
    by (simp add: uri_vars_def env_vars_def)
  fix i j
  assume "i < length (uri_vars d (uri_value dsn u w))"
  then have i: "i < length (Split (DbURIEnvKey d) CHR '','')" "key_ok (Split (DbURIEnvKey d) CHR '','' ! i)"
    using assms(2) by (simp_all add: uri_vars_def env_vars_def uri_ok_def list_all_length)
  then show "subst_line (order j (buildMappingFromPodEnv ?p d creds)) (env_line (uri_vars d (uri_value dsn u w) ! i)) =
      env_line (uri_vars d (raw_value dsn (Username creds) (Password creds)) ! i)"
    using subst_uri_line [OF assms(2) i(2) assms(5,6)
        credentials_visit [OF assms(1) extracted_uri [OF assms(2,5-7,4,10)] assms(7-9) refl]]
    by (simp add: uri_vars_def env_vars_def)
qed

lemma uri_vars_eq_iff:
  "map env_line (c_env (add_env (uri_vars d v) c)) = map env_line (c_env (add_env (uri_vars d v') c)) \<longleftrightarrow> v = v'"
proof -
  have "Split (DbURIEnvKey d) CHR '','' \<noteq> []"
    by simp
  then show ?thesis
    by (cases "Split (DbURIEnvKey d) CHR '',''") (auto simp: add_env_def uri_vars_def env_vars_def env_line_def)
qed

text \<open>
  C16. When the two ways of delivering credentials agree in URI mode. The plugin turns the environment
  that the webhook writes in NRI mode into one with the credentials put into the DSN as they are.
  That is the environment of the legacy mode exactly when user name and password need no escaping in
  the user information of a URL; otherwise the container gets another DSN, which in the example below
  does not even parse.
\<close>

theorem nri_equals_legacy_uri:
  assumes "go_range order" "uri_ok d dsn" "pod_plain p" "keys_free d p"
    and "IsPlaceholder u" "IsPlaceholder w" "u \<noteq> w"
    and "\<not> Contains (Username creds) Prefix" "\<not> Contains (Password creds) Prefix"
    and "c \<in> set (pod_init_containers p) \<union> set (pod_containers p)"
  shows "Substitute order (map env_line (c_env (add_env (uri_vars d (uri_value dsn u w)) c)))
      (buildMappingFromPodEnv (add_env_all (uri_vars d (uri_value dsn u w)) p) d creds) =
    map env_line (c_env (add_env (uri_vars d (uri_value dsn (Username creds) (Password creds))) c)) \<longleftrightarrow>
    userinfo_safe (Username creds) \<and> userinfo_safe (Password creds)"
  unfolding Substitute_uri [OF assms] uri_vars_eq_iff
  by (rule raw_value_eq_iff) (use assms(2) in \<open>simp add: uri_ok_def\<close>)

section \<open>An example\<close>

definition demo_dsn :: URL where
  "demo_dsn = empty_URL\<lparr>u_Scheme := ''postgres'', u_Host := ''db:5432'', u_Path := ''/app''\<rparr>"

definition demo_uri_config :: DbConfiguration where
  "demo_uri_config = \<lparr>DbURIEnvKey = ''DSN'', DbUserEnvKey = '''', DbPasswordEnvKey = '''',
     DbName = ''pg'', db_Mode = ''uri'', Template = ''postgres://db:5432/app'', Role = ''ro''\<rparr>"

definition slash_creds :: DbCreds where
  "slash_creds = demo_creds\<lparr>Password := ''p/w''\<rparr>"

text \<open>A password with a slash: the legacy value holds it escaped, the plugin's value is no URL.\<close>

lemma slash_values:
  "uri_value demo_dsn ''alice'' ''p/w'' = ''postgres://alice:p%2Fw@db:5432/app''"
  "Parse (raw_value demo_dsn ''alice'' ''p/w'') = Inl (Newf ''parse %q: invalid URL'' [''postgres://alice:p/w@db:5432/app''])"
  by code_simp+

lemma nri_equals_legacy_uri_witness:
  "Substitute (\<lambda>i m. rev m) [''A=1'', ''DSN=postgres://'' @ user_ph @ '':'' @ pass_ph @ ''@db:5432/app'']
     (buildMappingFromPodEnv (add_env_all (uri_vars demo_uri_config (uri_value demo_dsn user_ph pass_ph)) calm_pod)
       demo_uri_config slash_creds) \<noteq>
   [''A=1'', ''DSN=postgres://alice:p%2Fw@db:5432/app'']"
proof -
  have "go_range (\<lambda>i m. rev m)"
    by (simp add: go_range_def)
  moreover have "uri_ok demo_uri_config demo_dsn" "IsPlaceholder user_ph" "IsPlaceholder pass_ph" "user_ph \<noteq> pass_ph"
    "\<not> Contains (Username slash_creds) Prefix" "\<not> Contains (Password slash_creds) Prefix"
    by code_simp+
  moreover have "list_all (\<lambda>c. list_all (\<lambda>e. \<not> Contains (env_line e) Prefix \<and>
        fst (splitKV (env_line e)) \<notin> set (Split (DbURIEnvKey demo_uri_config) CHR '','')) (c_env c))
      (pod_init_containers calm_pod @ pod_containers calm_pod)"
    by code_simp
  then have "pod_plain calm_pod" "keys_free demo_uri_config calm_pod"
    by (simp_all add: pod_plain_def keys_free_def list_all_iff ball_Un)
  moreover have "demo_container \<in> set (pod_init_containers calm_pod) \<union> set (pod_containers calm_pod)"
    by code_simp
  ultimately have "Substitute (\<lambda>i m. rev m)
      (map env_line (c_env (add_env (uri_vars demo_uri_config (uri_value demo_dsn user_ph pass_ph)) demo_container)))
      (buildMappingFromPodEnv (add_env_all (uri_vars demo_uri_config (uri_value demo_dsn user_ph pass_ph)) calm_pod)
        demo_uri_config slash_creds) =
    map env_line (c_env (add_env (uri_vars demo_uri_config
      (uri_value demo_dsn (Username slash_creds) (Password slash_creds))) demo_container)) \<longleftrightarrow>
    userinfo_safe (Username slash_creds) \<and> userinfo_safe (Password slash_creds)"
    by - (rule nri_equals_legacy_uri; assumption)
  moreover have "\<not> userinfo_safe (Password slash_creds)"
    by code_simp
  moreover have "map env_line (c_env (add_env (uri_vars demo_uri_config (uri_value demo_dsn user_ph pass_ph)) demo_container)) =
      [''A=1'', ''DSN=postgres://'' @ user_ph @ '':'' @ pass_ph @ ''@db:5432/app'']"
    by code_simp
  moreover have "map env_line (c_env (add_env (uri_vars demo_uri_config
      (uri_value demo_dsn (Username slash_creds) (Password slash_creds))) demo_container)) =
      [''A=1'', ''DSN=postgres://alice:p%2Fw@db:5432/app'']"
    by code_simp
  ultimately show ?thesis
    by (simp only: simp_thms)
qed

end
