(* ===== verification/NRI_Background.thy ===== *)
theory NRI_Background
  imports Plugin_Cache Fetch_Cleanup
begin

text \<open>
  Files \<^verbatim>\<open>pkg/nri/prewarmer.go\<close> and \<^verbatim>\<open>pkg/nri/sweeper.go\<close>: the plugin's two background jobs. The
  prewarmer fetches credentials for labelled pods as soon as they are bound to the node, in at
  most \<open>maxConcurrent\<close> goroutines; the sweeper drops the entries of pods that the Kubernetes API no
  longer lists. A goroutine of the prewarmer is started by one step and runs its fetch in a later
  one, so deletions may come in between.
\<close>

section \<open>The sweeper\<close>

definition sweeper_interval :: int where "sweeper_interval = 5 * 60 * 1000000000"

definition node_selector :: "string \<Rightarrow> string" where
  "node_selector nodeName = ''spec.nodeName='' @ nodeName"

definition sweepOnce :: "env \<Rightarrow> Config \<Rightarrow> string \<Rightarrow> plugin \<Rightarrow> (unit res \<times> plugin) io" where
  "sweepOnce E cfg nodeName p = do {
     r \<leftarrow> perform (\<lambda>h. e_list_pods E h '''' (node_selector nodeName)) (ListPods '''' (node_selector nodeName));
     case r of
       Inl err \<Rightarrow> ret (Err (Wrap err ''list pods on node''), p)
     | Inr pods \<Rightarrow> do {
         let live = map pod_uid pods;
         let stale = filter (\<lambda>uid. uid \<notin> set live) (map fst (pl_cache p));
         let p' = fold drop_entry stale p;
         if 0 < length stale then do {
           s \<leftarrow> saveCache E (nri_CachePath (NRI cfg)) (snapshot p');
           ret (wrap_err ''save cache after sweep'' s, p') }
         else ret (Ok (), p') } }"

text \<open>\<^verbatim>\<open>Run\<close>: one sweep per tick, errors are logged; disabled without a client or a node name.\<close>

fun sweeper_Run :: "env \<Rightarrow> Config \<Rightarrow> bool \<Rightarrow> string \<Rightarrow> nat \<Rightarrow> plugin \<Rightarrow> plugin io" where
  "sweeper_Run E cfg has_client nodeName 0 p = ret p"
| "sweeper_Run E cfg has_client nodeName (Suc ticks) p =
     (if \<not> has_client \<or> nodeName = '''' then ret p
      else do {
        r \<leftarrow> sweepOnce E cfg nodeName p;
        sweeper_Run E cfg has_client nodeName ticks (snd r) })"

section \<open>The prewarmer\<close>

text \<open>What a goroutine of the prewarmer works on, and the weighted semaphore by its free slots.\<close>

record prewarm_task =
  pt_uid :: string
  pt_namespace :: string
  pt_name :: string

record prewarmer =
  pw_plugin :: plugin
  pw_maxConcurrent :: nat
  pw_acquired :: nat
  pw_running :: "prewarm_task list"

definition newPrewarmer :: "plugin \<Rightarrow> int \<Rightarrow> prewarmer" where
  "newPrewarmer p maxConcurrent =
     \<lparr>pw_plugin = p, pw_maxConcurrent = nat (if maxConcurrent \<le> 0 then 1 else maxConcurrent),
      pw_acquired = 0, pw_running = []\<rparr>"

definition fetchTimeout :: int where "fetchTimeout = 30 * 1000000000"

text \<open>The label and field selectors of the informer.\<close>

definition prewarm_selectors :: "Config \<Rightarrow> string \<Rightarrow> string \<times> string" where
  "prewarm_selectors cfg nodeName =
     (if nri_PodLabel (NRI cfg) \<noteq> '''' then nri_PodLabel (NRI cfg) @ ''=true'' else '''',
      node_selector nodeName)"

text \<open>
  \<^verbatim>\<open>Run\<close>: its result, and the selectors of the informer that it starts, if it starts one. It returns
  \<^verbatim>\<open>nil\<close> whether the context ends before or after the first listing has arrived.
\<close>

definition prewarmer_Run :: "Config \<Rightarrow> bool \<Rightarrow> string \<Rightarrow> goerr option \<Rightarrow> unit res \<times> (string \<times> string) option" where
  "prewarmer_Run cfg has_client nodeName handler_err =
     (if \<not> has_client \<or> nodeName = '''' then (Ok (), None)
      else (case handler_err of
              Some err \<Rightarrow> (Err err, None)
            | None \<Rightarrow> (Ok (), Some (prewarm_selectors cfg nodeName))))"

definition TryAcquire :: "prewarmer \<Rightarrow> prewarmer option" where
  "TryAcquire pw =
     (if pw_acquired pw + 1 \<le> pw_maxConcurrent pw
      then Some (pw\<lparr>pw_acquired := pw_acquired pw + 1\<rparr>) else None)"

text \<open>The informer's objects: anything may come, a deletion may come as a tombstone.\<close>

datatype informer_obj = PodObj pod | Tombstone informer_obj | OtherObj

fun onAdd :: "informer_obj \<Rightarrow> prewarmer \<Rightarrow> prewarmer io" where
  "onAdd (PodObj p) pw =
     (if pod_deleting p then do {
        _ \<leftarrow> metric (Inc NRIPrewarmError [''terminating_pod'']);
        ret pw }
      else (case TryAcquire pw of
              None \<Rightarrow> do {
                _ \<leftarrow> metric (Inc NRIPrewarmError [''semaphore_full'']);
                ret pw }
            | Some pw' \<Rightarrow>
                ret (pw'\<lparr>pw_running := pw_running pw' @
                  [\<lparr>pt_uid = pod_uid p, pt_namespace = pod_namespace p, pt_name = pod_name p\<rparr>]\<rparr>)))"
| "onAdd _ pw = ret pw"

text \<open>The body of the goroutine, with its deferred release; it cannot recover from a panic.\<close>

definition prewarm_fetch ::
  "env \<Rightarrow> bool \<Rightarrow> Config \<Rightarrow> prewarm_task \<Rightarrow> plugin \<Rightarrow> (unit res \<times> plugin) io" where
  "prewarm_fetch E shared cfg t p = do {
     _ \<leftarrow> metric (Inc NRIPrewarmInflight []);
     r \<leftarrow> resolveMappingWithSource E shared cfg p (pt_uid t) (pt_namespace t) (pt_name t) ''prewarm'';
     _ \<leftarrow> (case fst r of
            Ok m \<Rightarrow> metric (Inc NRIPrewarmSuccess [])
          | Err err \<Rightarrow> metric (Inc NRIPrewarmError [''vault_fetch''])
          | Panic \<Rightarrow> ret ());
     _ \<leftarrow> metric (Dec NRIPrewarmInflight []);
     ret (if fst r = Panic then Panic else Ok (), snd r) }"

definition remove_nth :: "nat \<Rightarrow> 'a list \<Rightarrow> 'a list" where
  "remove_nth i xs = take i xs @ drop (Suc i) xs"

definition finish_task :: "env \<Rightarrow> bool \<Rightarrow> Config \<Rightarrow> nat \<Rightarrow> prewarmer \<Rightarrow> prewarmer res io" where
  "finish_task E shared cfg i pw =
     (if i < length (pw_running pw) then do {
        r \<leftarrow> prewarm_fetch E shared cfg (pw_running pw ! i) (pw_plugin pw);
        ret (case fst r of
               Ok _ \<Rightarrow> Ok (pw\<lparr>pw_plugin := snd r, pw_running := remove_nth i (pw_running pw),
                             pw_acquired := pw_acquired pw - 1\<rparr>)
             | Err err \<Rightarrow> Err err
             | Panic \<Rightarrow> Panic) }
      else ret (Ok pw))"

text \<open>Only one level of tombstone is looked into.\<close>

fun deleted_pod :: "informer_obj \<Rightarrow> pod option" where
  "deleted_pod (PodObj p) = Some p"
| "deleted_pod (Tombstone (PodObj p)) = Some p"
| "deleted_pod _ = None"

definition onDelete :: "env \<Rightarrow> Config \<Rightarrow> informer_obj \<Rightarrow> prewarmer \<Rightarrow> prewarmer io" where
  "onDelete E cfg obj pw =
     (case deleted_pod obj of
        None \<Rightarrow> ret pw
      | Some p \<Rightarrow> do {
          r \<leftarrow> evictCacheEntry E cfg (pw_plugin pw) (pod_uid p);
          ret (pw\<lparr>pw_plugin := snd r\<rparr>) })"

section \<open>The background jobs and the hooks together\<close>

text \<open>
  Everything that reaches the plugin's cache: the informer's events, the completion of a prewarm
  goroutine, a sweep, and containerd's hooks.
\<close>

datatype plugin_event =
    PodAdded informer_obj
  | PrewarmDone nat
  | PodGone informer_obj
  | SweepTick
  | ContainerCreated sandbox nri_container
  | SandboxRemoved sandbox
  | Synchronized "sandbox list"

definition with_plugin :: "prewarmer \<Rightarrow> plugin io \<Rightarrow> prewarmer res io" where
  "with_plugin pw m = do { p \<leftarrow> m; ret (Ok (pw\<lparr>pw_plugin := p\<rparr>)) }"

fun plugin_step ::
  "env \<Rightarrow> bool \<Rightarrow> (nat \<Rightarrow> mapping \<Rightarrow> mapping) \<Rightarrow> Config \<Rightarrow> string \<Rightarrow> plugin_event \<Rightarrow> prewarmer \<Rightarrow> prewarmer res io" where
  "plugin_step E shared order cfg nodeName (PodAdded obj) pw = do { pw' \<leftarrow> onAdd obj pw; ret (Ok pw') }"
| "plugin_step E shared order cfg nodeName (PrewarmDone i) pw = finish_task E shared cfg i pw"
| "plugin_step E shared order cfg nodeName (PodGone obj) pw = do { pw' \<leftarrow> onDelete E cfg obj pw; ret (Ok pw') }"
| "plugin_step E shared order cfg nodeName SweepTick pw =
     with_plugin pw (sweeper_Run E cfg True nodeName 1 (pw_plugin pw))"
| "plugin_step E shared order cfg nodeName (ContainerCreated sb ctr) pw =
     do {
       r \<leftarrow> CreateContainer E shared order cfg (pw_plugin pw) sb ctr;
       ret (if fst r = Panic then Panic else Ok (pw\<lparr>pw_plugin := snd r\<rparr>)) }"
| "plugin_step E shared order cfg nodeName (SandboxRemoved sb) pw =
     with_plugin pw (RemovePodSandbox E cfg (pw_plugin pw) sb)"
| "plugin_step E shared order cfg nodeName (Synchronized pods) pw =
     with_plugin pw (Synchronize E cfg (pw_plugin pw) pods)"

fun plugin_steps ::
  "env \<Rightarrow> bool \<Rightarrow> (nat \<Rightarrow> mapping \<Rightarrow> mapping) \<Rightarrow> Config \<Rightarrow> string \<Rightarrow> plugin_event list \<Rightarrow> prewarmer \<Rightarrow> prewarmer res io" where
  "plugin_steps E shared order cfg nodeName [] pw = ret (Ok pw)"
| "plugin_steps E shared order cfg nodeName (s # ss) pw =
     check (plugin_step E shared order cfg nodeName s pw) (plugin_steps E shared order cfg nodeName ss)"

section \<open>What the sweeper drops\<close>

lemma emits_sweepOnce:
  assumes "plugin_ok p"
  shows "emits (sweepOnce E cfg nodeName p) (\<lambda>r es. plugin_ok (snd r) \<and>
     (\<forall>pods. ListPods '''' (node_selector nodeName) (Inr pods) \<in> set es \<longrightarrow>
        cached (snd r) = cached p |` set (map pod_uid pods)) \<and>
     (\<forall>err. ListPods '''' (node_selector nodeName) (Inl err) \<in> set es \<longrightarrow> snd r = p))"
proof -
  have keep: "cached (fold drop_entry (filter (\<lambda>uid. uid \<notin> live) (map fst (pl_cache p))) p) = cached p |` live"
    for live
    by (rule entries.look_keep_only [OF assms])
      (auto simp: cached_def dest!: map_of_SomeD intro!: image_eqI)
  have save: "emits (saveCache E path pods) (\<lambda>r es. \<forall>l f a. ListPods l f a \<notin> set es)" for path pods
    by (rule emits_calls [where K = "{C_fs}"]) fastforce+
  show ?thesis
    unfolding sweepOnce_def Let_def
    apply (rule emits_bind, rule emits_perform)
    apply (split sum.split, intro conjI allI impI)
     apply (rule emits_return, simp add: assms)
    apply (split if_split, intro conjI impI)
     apply (rule emits_bind, rule emits_conseq [OF save], rule emits_return)
     apply (simp add: keep entries.ok_drops [OF assms])
    apply (rule emits_return, simp)
    subgoal for a pods
      using keep [of "pod_uid ` set pods"] assms by (simp add: entries.ok_drops)
    done
qed

text \<open>
  C29. A sweep leaves exactly the entries of the pods that the API lists on the node; when the API
  does not answer, it leaves the plugin as it is.
\<close>

theorem sweepOnce_keeps_live:
  assumes "plugin_ok p"
  shows "emits (sweepOnce E cfg nodeName p) (\<lambda>r es. plugin_ok (snd r) \<and>
     (\<forall>pods. ListPods '''' (node_selector nodeName) (Inr pods) \<in> set es \<longrightarrow>
        cached (snd r) = cached p |` set (map pod_uid pods)) \<and>
     (\<forall>err. ListPods '''' (node_selector nodeName) (Inl err) \<in> set es \<longrightarrow> snd r = p))"
  using assms by (rule emits_sweepOnce)

section \<open>The prewarmer's invariant\<close>

text \<open>
  The semaphore counts the running goroutines, which are never more than configured, and the
  plugin's state is well formed.
\<close>

definition prewarmer_ok :: "prewarmer \<Rightarrow> bool" where
  "prewarmer_ok pw \<longleftrightarrow> plugin_ok (pw_plugin pw) \<and> pw_acquired pw = length (pw_running pw) \<and>
     length (pw_running pw) \<le> pw_maxConcurrent pw \<and> 0 < pw_maxConcurrent pw"

lemma newPrewarmer_ok: "plugin_ok p \<Longrightarrow> prewarmer_ok (newPrewarmer p n)"
  by (simp add: prewarmer_ok_def newPrewarmer_def)

lemma emits_onAdd:
  "prewarmer_ok pw \<Longrightarrow>
   emits (onAdd obj pw) (\<lambda>pw' es. prewarmer_ok pw' \<and> pw_maxConcurrent pw' = pw_maxConcurrent pw)"
  by (cases obj) (auto simp: prewarmer_ok_def TryAcquire_def split: option.split if_splits intro!: emits_intro)

lemma emits_prewarm_fetch:
  "plugin_ok p \<Longrightarrow> emits (prewarm_fetch E shared cfg t p) (\<lambda>r es. plugin_ok (snd r) \<and> (\<forall>err. fst r \<noteq> Err err))"
  unfolding prewarm_fetch_def
  apply (rule emits_bind, rule emits_metric)
  apply (rule emits_bind, rule emits_conseq, erule emits_resolveMappingWithSource)
  apply (auto split: res.split intro!: emits_intro)
  done

lemma length_remove_nth: "i < length xs \<Longrightarrow> length (remove_nth i xs) = length xs - 1"
  by (simp add: remove_nth_def)

lemma emits_finish_task:
  assumes "prewarmer_ok pw"
  shows "emits (finish_task E shared cfg i pw) (\<lambda>r es. \<forall>pw'. r = Ok pw' \<longrightarrow>
     prewarmer_ok pw' \<and> pw_maxConcurrent pw' = pw_maxConcurrent pw)"
proof (cases "i < length (pw_running pw)")
  case True
  have "plugin_ok (pw_plugin pw)"
    using assms by (simp add: prewarmer_ok_def)
  then show ?thesis
    unfolding finish_task_def if_P [OF True]
    apply (intro emits_bind)
    apply (rule emits_conseq, erule emits_prewarm_fetch)
    using assms True
    apply (auto simp: prewarmer_ok_def length_remove_nth split: res.split intro!: emits_intro)
    done
qed (simp add: finish_task_def emits_return assms)

text \<open>All steps preserve it; the library's lemmas for the hooks and the sweep carry the cases.\<close>

lemma emits_sweep_tick:
  assumes "plugin_ok p"
  shows "emits (sweeper_Run E cfg b nodeName n p) (\<lambda>p' es. plugin_ok p')"
  using assms
proof (induction n arbitrary: p)
  case (Suc n)
  show ?case
    unfolding sweeper_Run.simps
    apply (split if_split, intro conjI impI)
     apply (rule emits_return, rule Suc.prems)
    apply (rule emits_bind, rule emits_conseq [OF emits_sweepOnce [OF Suc.prems]])
    apply (rule emits_conseq, rule Suc.IH, simp, simp)
    done
qed (simp add: emits_return)

lemma emits_with_plugin:
  assumes "prewarmer_ok pw" "emits m (\<lambda>p es. plugin_ok p)"
  shows "emits (with_plugin pw m) (\<lambda>r es. \<forall>pw'. r = Ok pw' \<longrightarrow>
     prewarmer_ok pw' \<and> pw_maxConcurrent pw' = pw_maxConcurrent pw)"
  unfolding with_plugin_def
  by (rule emits_bind, rule emits_conseq [OF assms(2)], rule emits_return)
    (use assms(1) in \<open>auto simp: prewarmer_ok_def\<close>)

lemma emits_plugin_step:
  assumes "prewarmer_ok pw"
  shows "emits (plugin_step E shared order cfg nodeName s pw) (\<lambda>r es. \<forall>pw'. r = Ok pw' \<longrightarrow>
     prewarmer_ok pw' \<and> pw_maxConcurrent pw' = pw_maxConcurrent pw)"
proof -
  have ok: "plugin_ok (pw_plugin pw)"
    using assms by (simp add: prewarmer_ok_def)
  show ?thesis
  proof (cases s)
    case (PodAdded obj)
    show ?thesis
      unfolding PodAdded plugin_step.simps
      by (rule emits_bind, rule emits_conseq [OF emits_onAdd [OF assms]], rule emits_return) simp
  next
    case (PrewarmDone i)
    then show ?thesis
      using emits_finish_task [OF assms] by simp
  next
    case (PodGone obj)
    show ?thesis
      unfolding PodGone plugin_step.simps onDelete_def
      using assms
      by (auto simp: prewarmer_ok_def split: option.split
          intro!: emits_intro emits_conseq [OF emits_evictCacheEntry [OF ok]])
  next
    case SweepTick
    show ?thesis
      unfolding SweepTick plugin_step.simps
      by (rule emits_with_plugin [OF assms emits_sweep_tick [OF ok]])
  next
    case (ContainerCreated sb ctr)
    show ?thesis
      unfolding ContainerCreated plugin_step.simps
      apply (rule emits_bind, rule emits_conseq [OF emits_CreateContainer [OF ok]], rule emits_return)
      using assms by (auto simp: prewarmer_ok_def)
  next
    case (SandboxRemoved sb)
    have "emits (RemovePodSandbox E cfg (pw_plugin pw) sb) (\<lambda>p es. plugin_ok p)"
      unfolding RemovePodSandbox_def
      by (rule emits_bind, rule emits_conseq [OF emits_evictCacheEntry [OF ok]], rule emits_return) simp
    then show ?thesis
      using emits_with_plugin [OF assms] SandboxRemoved by simp
  next
    case (Synchronized pods)
    have "emits (Synchronize E cfg (pw_plugin pw) pods) (\<lambda>p es. plugin_ok p)"
      by (rule emits_conseq [OF emits_Synchronize [OF ok]]) simp
    then show ?thesis
      using emits_with_plugin [OF assms] Synchronized by simp
  qed
qed

lemma emits_plugin_steps:
  assumes "prewarmer_ok pw"
  shows "emits (plugin_steps E shared order cfg nodeName ss pw) (\<lambda>r es. \<forall>pw'. r = Ok pw' \<longrightarrow>
      prewarmer_ok pw' \<and> pw_maxConcurrent pw' = pw_maxConcurrent pw)"
  using assms
proof (induction ss arbitrary: pw)
  case (Cons s ss)
  show ?case
    unfolding plugin_steps.simps
    apply (rule emits_check, rule emits_conseq [OF emits_plugin_step [OF Cons.prems]])
    apply (split res.split, intro conjI allI impI)
      apply (rule emits_conseq, rule Cons.IH)
       apply auto
    done
qed (simp add: emits_return)

text \<open>
  C30. In every interleaving of informer events, finished fetches, sweeps and containerd's hooks
  the prewarmer runs at most \<open>maxConcurrent\<close> fetches, its semaphore agrees with the goroutines
  that hold it (none is lost on an error path), and the plugin's maps stay well formed.
\<close>

theorem prewarmer_invariant:
  assumes "prewarmer_ok pw"
  shows "emits (plugin_steps E shared order cfg nodeName ss pw) (\<lambda>r es. \<forall>pw'. r = Ok pw' \<longrightarrow>
     prewarmer_ok pw' \<and> length (pw_running pw') \<le> pw_maxConcurrent pw)"
  by (rule emits_conseq [OF emits_plugin_steps [OF assms]]) (auto simp: prewarmer_ok_def)

section \<open>A prewarm that finishes too late\<close>

text \<open>How a goroutine of the prewarmer ends that got its mapping.\<close>

definition prewarm_succeeded :: "event list \<Rightarrow> bool" where
  "prewarm_succeeded es \<longleftrightarrow>
     (\<exists>es0. es = es0 @ [Metric (Inc NRIPrewarmSuccess []), Metric (Dec NRIPrewarmInflight [])])"

text \<open>The API answers every listing of the node's pods, and never with the pod.\<close>

definition unlisted :: "string \<Rightarrow> string \<Rightarrow> event list \<Rightarrow> bool" where
  "unlisted nodeName uid es \<longleftrightarrow> (\<forall>a. ListPods '''' (node_selector nodeName) a \<in> set es \<longrightarrow>
     (\<exists>pods. a = Inr pods \<and> uid \<notin> pod_uid ` set pods))"

lemma emits_prewarm_fetch_cached:
  assumes "plugin_ok p" "cached p (pt_uid t) = None"
  shows "emits (prewarm_fetch E shared cfg t p) (\<lambda>r es. fst r \<noteq> Panic \<longrightarrow>
     (\<forall>before. cached (snd r) (pt_uid t) \<noteq> None \<longleftrightarrow> prewarm_succeeded (before @ es)))"
proof -
  have resolve: "emits (resolveMappingWithSource E shared cfg p (pt_uid t) ns n src) (\<lambda>r es.
      (\<forall>m. fst r = Ok m \<longrightarrow> cached (snd r) (pt_uid t) \<noteq> None) \<and>
      (\<forall>err. fst r = Err err \<longrightarrow> cached (snd r) (pt_uid t) = None))" for ns n src
    using assms(2) unfolding resolveMappingWithSource_def Let_def
    by (auto simp: cached_def split: option.split res.split
        intro!: emits_intro emits_conseq [OF emits_fetch_and_cache [OF assms(1)]])
  show ?thesis
    unfolding prewarm_fetch_def
    apply (rule emits_bind, rule emits_metric, rule emits_bind, rule emits_conseq [OF resolve])
    apply (auto simp: prewarm_succeeded_def split: res.split intro!: emits_intro)
    done
qed

lemma emits_sweep_unlisted:
  assumes "plugin_ok p" "nodeName \<noteq> ''''"
  shows "emits (sweeper_Run E cfg True nodeName 1 p) (\<lambda>p' es. unlisted nodeName uid es \<longrightarrow> cached p' uid = None)"
proof -
  have lists: "emits (sweepOnce E cfg nodeName p) (\<lambda>r es. \<exists>a. ListPods '''' (node_selector nodeName) a \<in> set es)"
    unfolding sweepOnce_def Let_def
    by (rule emits_bind, rule emits_perform) (auto split: sum.split intro!: emits_intro emits_any)
  show ?thesis
    unfolding One_nat_def sweeper_Run.simps
    apply (simp add: assms(2))
    apply (rule emits_bind, rule emits_conseq [OF emits_conj [OF emits_sweepOnce [OF assms(1)] lists]], rule emits_return)
    apply (auto simp: unlisted_def restrict_map_def)
    done
qed

lemma emits_steps_swept:
  assumes "prewarmer_ok pw" "nodeName \<noteq> ''''"
  shows "emits (plugin_steps E shared order cfg nodeName (ss @ [SweepTick]) pw) (\<lambda>r es. \<forall>pw'. r = Ok pw' \<longrightarrow>
     unlisted nodeName uid es \<longrightarrow> cached (pw_plugin pw') uid = None)"
  using assms(1)
proof (induction ss arbitrary: pw)
  case Nil
  then have ok: "plugin_ok (pw_plugin pw)"
    by (simp add: prewarmer_ok_def)
  show ?case
    unfolding append_Nil plugin_steps.simps plugin_step.simps with_plugin_def
    apply (rule emits_check, rule emits_bind, rule emits_conseq [OF emits_sweep_unlisted [OF ok assms(2)]])
    apply (auto intro!: emits_intro)
    done
next
  case (Cons s ss)
  have tail: "unlisted nodeName uid (es @ es') \<Longrightarrow> unlisted nodeName uid es'" for es es'
    by (simp add: unlisted_def)
  show ?case
    unfolding append_Cons plugin_steps.simps
    apply (rule emits_check, rule emits_conseq [OF emits_plugin_step [OF Cons.prems]])
    apply (split res.split, intro conjI allI impI)
      apply (rule emits_conseq, rule Cons.IH)
       apply (auto dest: tail)
    done
qed

text \<open>
  C31. A prewarm that is still running when its pod is deleted: the deletion evicts what is cached
  of the pod, but afterwards the pod's credentials are cached again exactly when the fetch
  succeeds. They do not stay: whatever happens then, a sweep removes them, if the API answers
  its listings and no longer lists the pod.
\<close>

theorem late_prewarm_swept:
  assumes "prewarmer_ok pw" "i < length (pw_running pw)" "pt_uid (pw_running pw ! i) = pod_uid p"
    "deleted_pod obj = Some p" "nodeName \<noteq> ''''"
  shows "emits (plugin_steps E shared order cfg nodeName [PodGone obj, PrewarmDone i] pw) (\<lambda>r es.
       \<forall>pw'. r = Ok pw' \<longrightarrow> (cached (pw_plugin pw') (pod_uid p) \<noteq> None \<longleftrightarrow> prewarm_succeeded es)) \<and>
     emits (plugin_steps E shared order cfg nodeName ([PodGone obj, PrewarmDone i] @ ss @ [SweepTick]) pw) (\<lambda>r es.
       \<forall>pw'. r = Ok pw' \<longrightarrow> unlisted nodeName (pod_uid p) es \<longrightarrow> cached (pw_plugin pw') (pod_uid p) = None)"
proof
  let ?t = "pw_running pw ! i"
  have fetch: "emits (prewarm_fetch E shared cfg ?t q) (\<lambda>r es. fst r \<noteq> Panic \<longrightarrow>
      (\<forall>before. cached (snd r) (pod_uid p) \<noteq> None \<longleftrightarrow> prewarm_succeeded (before @ es)))"
    if "plugin_ok q" "cached q (pod_uid p) = None" for q
    using emits_prewarm_fetch_cached [of q ?t] that by (simp add: assms(3))
  have ok: "plugin_ok (pw_plugin pw)"
    using assms(1) by (simp add: prewarmer_ok_def)
  show "emits (plugin_steps E shared order cfg nodeName [PodGone obj, PrewarmDone i] pw) (\<lambda>r es.
     \<forall>pw'. r = Ok pw' \<longrightarrow> (cached (pw_plugin pw') (pod_uid p) \<noteq> None \<longleftrightarrow> prewarm_succeeded es))"
    unfolding plugin_steps.simps plugin_step.simps onDelete_def assms(4) option.case finish_task_def
    apply (rule emits_check, rule emits_bind, rule emits_bind, rule emits_conseq [OF emits_evictCacheEntry [OF ok]])
    apply (intro emits_intro, simp add: assms(2), intro emits_intro)
    apply (rule emits_conseq [OF fetch])
      apply (auto split: res.split intro!: emits_intro)
    done
  show "emits (plugin_steps E shared order cfg nodeName ([PodGone obj, PrewarmDone i] @ ss @ [SweepTick]) pw) (\<lambda>r es.
     \<forall>pw'. r = Ok pw' \<longrightarrow> unlisted nodeName (pod_uid p) es \<longrightarrow> cached (pw_plugin pw') (pod_uid p) = None)"
    using emits_steps_swept [OF assms(1,5), of E shared order cfg "[PodGone obj, PrewarmDone i] @ ss"] by simp
qed

section \<open>Runs of the plugin\<close>

text \<open>A pod as the webhook leaves it in NRI mode, with the two placeholders in its environment.\<close>

definition ph_user :: string where
  "ph_user = ''__VDBI_PH_0707070707070707070707070707070707070707070707070707070707070707___''"

definition ph_pass :: string where
  "ph_pass = ''__VDBI_PH_0909090909090909090909090909090909090909090909090909090909090909___''"

definition waiting_pod :: pod where
  "waiting_pod = calm_pod\<lparr>pod_containers :=
     [\<lparr>c_name = ''c'', c_env = [\<lparr>ev_name = ''USER'', ev_value = ph_user\<rparr>, \<lparr>ev_name = ''PASS'', ev_value = ph_pass\<rparr>]\<rparr>]\<rparr>"

text \<open>The pod is gone from the API's list, but its fetch was on its way before.\<close>

definition late_env :: env where
  "late_env = calm_env\<lparr>e_get_pod := \<lambda>h ns n. Inr waiting_pod, e_list_pods := \<lambda>h l f. Inr []\<rparr>"

definition late_run :: "plugin_event list \<Rightarrow> prewarmer res \<times> event list" where
  "late_run ss = run_state (plugin_steps late_env False (\<lambda>i m. m) nri_config ''node'' ss (newPrewarmer newPlugin 50)) []"

lemma sweepOnce_keeps_live_witness:
  "cached (snd (fst (run_state (sweepOnce late_env nri_config ''node'' (put_entry ''u1'' [] ''sync'' newPlugin)) []))) = Map.empty"
proof -
  let ?p = "put_entry ''u1'' [] ''sync'' newPlugin"
  have ok: "plugin_ok ?p"
    by (simp add: entries.ok_put newPlugin_ok)
  have "ListPods '''' (node_selector ''node'') (Inr []) \<in>
      set (snd (run_state (sweepOnce late_env nri_config ''node'' ?p) []))"
    by code_simp
  then show ?thesis
    using emits_run [OF sweepOnce_keeps_live [OF ok, of late_env nri_config "''node''"]] by fastforce
qed

lemma prewarmer_invariant_witness:
  "\<exists>pw. fst (late_run [PodAdded (PodObj waiting_pod)]) = Ok pw \<and> length (pw_running pw) = 1 \<and> prewarmer_ok pw"
proof -
  have "case fst (late_run [PodAdded (PodObj waiting_pod)]) of Ok pw \<Rightarrow> length (pw_running pw) = 1 | _ \<Rightarrow> False"
    by code_simp
  then obtain pw where pw: "fst (late_run [PodAdded (PodObj waiting_pod)]) = Ok pw" "length (pw_running pw) = 1"
    by (auto split: res.splits)
  then show ?thesis
    using emits_run [OF prewarmer_invariant [OF newPrewarmer_ok [OF newPlugin_ok, of 50],
        of late_env False "\<lambda>i m. m" nri_config "''node''" "[PodAdded (PodObj waiting_pod)]"], folded late_run_def]
    by blast
qed

definition late_prewarmer :: prewarmer where
  "late_prewarmer = (newPrewarmer newPlugin 50)\<lparr>pw_acquired := 1,
     pw_running := [\<lparr>pt_uid = ''u1'', pt_namespace = ''ns'', pt_name = ''p1''\<rparr>]\<rparr>"

definition deleted_run :: "plugin_event list \<Rightarrow> prewarmer res \<times> event list" where
  "deleted_run ss = run_state (plugin_steps late_env False (\<lambda>i m. m) nri_config ''node''
     ([PodGone (Tombstone (PodObj waiting_pod)), PrewarmDone 0] @ ss) late_prewarmer) []"

lemma late_prewarm_swept_witness:
  "(\<exists>pw. fst (deleted_run []) = Ok pw \<and> cached (pw_plugin pw) ''u1'' \<noteq> None) \<and>
   (\<exists>pw. fst (deleted_run [SweepTick]) = Ok pw \<and> cached (pw_plugin pw) ''u1'' = None)"
proof -
  have ok: "prewarmer_ok late_prewarmer" "0 < length (pw_running late_prewarmer)"
    "pt_uid (pw_running late_prewarmer ! 0) = pod_uid waiting_pod"
    "deleted_pod (Tombstone (PodObj waiting_pod)) = Some waiting_pod" "''node'' \<noteq> ''''"
    by (simp_all add: prewarmer_ok_def late_prewarmer_def newPrewarmer_def newPlugin_ok waiting_pod_def calm_pod_def)
  have uid: "pod_uid waiting_pod = ''u1''"
    by (simp add: waiting_pod_def calm_pod_def)
  note both = late_prewarm_swept [OF ok, of late_env False "\<lambda>i m. m" nri_config "[]"]
  have "case deleted_run [] of (Ok pw, es) \<Rightarrow>
      drop (length es - 2) es = [Metric (Inc NRIPrewarmSuccess []), Metric (Dec NRIPrewarmInflight [])] | _ \<Rightarrow> False"
    by code_simp
  then obtain pw where pw: "fst (deleted_run []) = Ok pw" "prewarm_succeeded (snd (deleted_run []))"
    unfolding prewarm_succeeded_def by (auto split: prod.splits res.splits) (metis append_take_drop_id)
  have "case deleted_run [SweepTick] of (Ok pw, es) \<Rightarrow>
      list_all (\<lambda>e. case e of ListPods l f a \<Rightarrow> a = Inr [] | _ \<Rightarrow> True) es | _ \<Rightarrow> False"
    by code_simp
  then obtain pw' where pw': "fst (deleted_run [SweepTick]) = Ok pw'" "unlisted ''node'' ''u1'' (snd (deleted_run [SweepTick]))"
    unfolding unlisted_def by (auto simp: list_all_iff split: prod.splits res.splits) (fastforce+)
  show ?thesis
    using emits_run [OF conjunct1 [OF both]] emits_run [OF conjunct2 [OF both]] pw pw'
    unfolding uid deleted_run_def by (simp del: plugin_steps.simps)
qed

end
