(* ===== verification/NRI_Lifecycle.thy ===== *)
theory NRI_Lifecycle
  imports Connector
begin

text \<open>
  File \<^verbatim>\<open>pkg/nri/stub_lifecycle.go\<close>: the connection of the plugin to containerd, rebuilt a bounded
  number of times. First the loop of \<^verbatim>\<open>run\<close> on its own, over a script of what the stubs, the timer
  and the context do; then \<^verbatim>\<open>run\<close> and \<^verbatim>\<open>shutdown\<close> side by side as a step relation.
\<close>

section \<open>The reconnect loop\<close>

definition second :: int where "second = 1000000000"

definition reconnectBackoff :: "int list" where
  "reconnectBackoff = [1 * second, 2 * second, 5 * second, 10 * second, 30 * second]"

text \<open>
  The script: the error of the n-th construction, the error of the n-th stub's \<^verbatim>\<open>Run\<close> together with
  whether the context was cancelled when it returned, whether it is cancelled during the n-th wait.
  A trace has what is done to the stubs, the waits, and the operations on the reconnect counter.
\<close>

record stub_world =
  sw_factory :: "nat \<Rightarrow> goerr option"
  sw_run :: "nat \<Rightarrow> goerr option \<times> bool"
  sw_wait :: "nat \<Rightarrow> bool"

datatype lifecycle_event = Built nat | Ran nat | Stopped nat | Waited int | Counted metric_op

definition exhausted_error :: "goerr option \<Rightarrow> nat \<Rightarrow> goerr" where
  "exhausted_error runErr attempt =
     Wrap (case runErr of None \<Rightarrow> Newf ''ttrpc connection closed by containerd'' [] | Some e \<Rightarrow> e)
       (Sprintf ''NRI plugin disconnected %d times in a row; restarting pod'' [show_nat attempt])"

function lifecycle_loop :: "stub_world \<Rightarrow> int list \<Rightarrow> nat \<Rightarrow> unit res \<times> lifecycle_event list" where
  "lifecycle_loop w backoff attempt =
     (let (runErr, done) = sw_run w attempt
      in if done then (Ok (), [Ran attempt])
         else if length backoff \<le> attempt
         then (Err (exhausted_error runErr attempt),
               [Ran attempt, Counted (Inc NRIReconnectTotal [''attempted'']), Counted (Inc NRIReconnectTotal [''exhausted''])])
         else let wait = backoff ! attempt;
                  so_far = [Ran attempt, Counted (Inc NRIReconnectTotal [''attempted'']), Stopped attempt]
              in if sw_wait w attempt then (Ok (), so_far)
                 else (case sw_factory w (Suc attempt) of
                   Some err \<Rightarrow> (Err (Wrap err ''NRI stub reconnect failed''),
                                so_far @ [Waited wait, Counted (Inc NRIReconnectTotal [''exhausted''])])
                 | None \<Rightarrow>
                     let (r, es) = lifecycle_loop w backoff (Suc attempt)
                     in (r, so_far @ [Waited wait, Built (Suc attempt), Counted (Inc NRIReconnectTotal [''succeeded''])] @ es)))"
  by pat_completeness auto
termination
  by (relation "measure (\<lambda>(w, backoff, attempt). Suc (length backoff) - attempt)") auto

declare lifecycle_loop.simps [simp del]

definition lifecycle_run :: "stub_world \<Rightarrow> int list \<Rightarrow> unit res \<times> lifecycle_event list" where
  "lifecycle_run w backoff =
     (case sw_factory w 0 of
        Some err \<Rightarrow> (Err (Wrap err ''initial NRI stub construction''), [])
      | None \<Rightarrow> (let (r, es) = lifecycle_loop w backoff 0 in (r, Built 0 # es)))"

section \<open>What the loop guarantees\<close>

definition waited :: "lifecycle_event list \<Rightarrow> int" where
  "waited es = sum_list (map (\<lambda>e. case e of Waited t \<Rightarrow> t | _ \<Rightarrow> 0) es)"

definition runs :: "lifecycle_event list \<Rightarrow> nat" where
  "runs es = length (filter (\<lambda>e. case e of Ran n \<Rightarrow> True | _ \<Rightarrow> False) es)"

definition reconnects :: "lifecycle_event list \<Rightarrow> nat" where
  "reconnects es = length (filter (\<lambda>e. e = Counted (Inc NRIReconnectTotal [''succeeded''])) es)"

lemma trace_simps [simp]:
  "waited [] = 0" "waited (e # es) = (case e of Waited t \<Rightarrow> t | _ \<Rightarrow> 0) + waited es"
  "runs [] = 0" "runs (e # es) = (case e of Ran n \<Rightarrow> 1 | _ \<Rightarrow> 0) + runs es"
  "reconnects [] = 0" "reconnects (e # es) = (if e = Counted (Inc NRIReconnectTotal [''succeeded'']) then 1 else 0) + reconnects es"
  by (simp_all add: waited_def runs_def reconnects_def split: lifecycle_event.split)

lemma sum_drop_nth: "i < length xs \<Longrightarrow> sum_list (drop i xs) = xs ! i + sum_list (drop (Suc i) (xs :: int list))"
  by (metis Cons_nth_drop_Suc sum_list.Cons)

lemma drop_nonneg: "list_all (\<lambda>t. 0 \<le> t) xs \<Longrightarrow> 0 \<le> sum_list (drop i (xs :: int list))"
  by (auto simp: list_all_iff intro!: sum_list_nonneg dest: in_set_dropD)

text \<open>One round of the loop, by what stops it.\<close>

lemma lifecycle_loop_cases:
  assumes "lifecycle_loop w backoff attempt = (r, es)"
  obtains
    (shutdown) "snd (sw_run w attempt)" "r = Ok ()" "es = [Ran attempt]"
  | (exhausted) "\<not> snd (sw_run w attempt)" "length backoff \<le> attempt"
      "r = Err (exhausted_error (fst (sw_run w attempt)) attempt)"
      "es = [Ran attempt, Counted (Inc NRIReconnectTotal [''attempted'']), Counted (Inc NRIReconnectTotal [''exhausted''])]"
  | (interrupted) "\<not> snd (sw_run w attempt)" "attempt < length backoff" "sw_wait w attempt" "r = Ok ()"
      "es = [Ran attempt, Counted (Inc NRIReconnectTotal [''attempted'']), Stopped attempt]"
  | (broken) err where "\<not> snd (sw_run w attempt)" "attempt < length backoff" "\<not> sw_wait w attempt"
      "sw_factory w (Suc attempt) = Some err" "r = Err (Wrap err ''NRI stub reconnect failed'')"
      "es = [Ran attempt, Counted (Inc NRIReconnectTotal [''attempted'']), Stopped attempt, Waited (backoff ! attempt), Counted (Inc NRIReconnectTotal [''exhausted''])]"
  | (again) es' where "\<not> snd (sw_run w attempt)" "attempt < length backoff" "\<not> sw_wait w attempt"
      "sw_factory w (Suc attempt) = None" "lifecycle_loop w backoff (Suc attempt) = (r, es')"
      "es = [Ran attempt, Counted (Inc NRIReconnectTotal [''attempted'']), Stopped attempt, Waited (backoff ! attempt),
             Built (Suc attempt), Counted (Inc NRIReconnectTotal [''succeeded''])] @ es'"
  using assms
  by (subst (asm) lifecycle_loop.simps)
    (auto simp: Let_def not_le split: prod.splits if_splits option.splits)

lemma lifecycle_loop_bounds:
  assumes "list_all (\<lambda>t. 0 \<le> t) backoff" "attempt \<le> length backoff"
    and "lifecycle_loop w backoff attempt = (r, es)"
  shows "runs es + attempt \<le> Suc (length backoff) \<and> waited es \<le> sum_list (drop attempt backoff)"
  using assms(2,3)
proof (induction "length backoff - attempt" arbitrary: attempt r es)
  case 0
  from "0.prems"(2) show ?case
    by (cases rule: lifecycle_loop_cases) (use 0 drop_nonneg [OF assms(1)] in auto)
next
  case (Suc n)
  from Suc.prems(2) show ?case
  proof (cases rule: lifecycle_loop_cases)
    case (broken err)
    then show ?thesis
      using sum_drop_nth [of attempt backoff] drop_nonneg [OF assms(1), of "Suc attempt"] by simp
  next
    case (again es')
    then have "runs es' + Suc attempt \<le> Suc (length backoff) \<and> waited es' \<le> sum_list (drop (Suc attempt) backoff)"
      using Suc.hyps by (intro Suc.hyps(1)) auto
    with again show ?thesis
      using sum_drop_nth [of attempt backoff] by simp
  qed (use Suc.prems drop_nonneg [OF assms(1), of attempt] in auto)
qed

text \<open>
  C34. The connection loop ends by itself: with the production schedule it runs at most six stubs
  and waits at most 48 seconds in total, whatever containerd does.
\<close>

theorem lifecycle_bounded:
  "case lifecycle_run w reconnectBackoff of (r, es) \<Rightarrow> runs es \<le> 6 \<and> waited es \<le> 48 * second"
proof (cases "sw_factory w 0")
  case None
  obtain r es where loop: "lifecycle_loop w reconnectBackoff 0 = (r, es)"
    by force
  have "list_all (\<lambda>t. 0 \<le> t) reconnectBackoff"
    by (simp add: reconnectBackoff_def second_def)
  from lifecycle_loop_bounds [OF this _ loop] have "runs es \<le> 6 \<and> waited es \<le> 48 * second"
    by (simp add: reconnectBackoff_def)
  with loop None show ?thesis
    by (simp add: lifecycle_run_def)
qed (simp add: lifecycle_run_def second_def)

lemma length_reconnectBackoff: "length reconnectBackoff = 5"
  by (simp add: reconnectBackoff_def)

lemma lifecycle_loop_exhausts:
  assumes "\<And>n. \<not> snd (sw_run w n)" "\<And>n. \<not> sw_wait w n" "\<And>n. sw_factory w n = None"
    and "attempt \<le> length backoff" "lifecycle_loop w backoff attempt = (r, es)"
  shows "r = Err (exhausted_error (fst (sw_run w (length backoff))) (length backoff)) \<and>
         reconnects es = length backoff - attempt"
  using assms(4,5)
proof (induction "length backoff - attempt" arbitrary: attempt r es)
  case 0
  from "0.prems"(2) show ?case
    by (cases rule: lifecycle_loop_cases) (use 0 assms(1-3) in auto)
next
  case (Suc n)
  from Suc.prems(2) show ?case
  proof (cases rule: lifecycle_loop_cases)
    case (again es')
    then have "r = Err (exhausted_error (fst (sw_run w (length backoff))) (length backoff)) \<and>
        reconnects es' = length backoff - Suc attempt"
      using Suc.hyps by (intro Suc.hyps(1)) auto
    with again show ?thesis
      by auto
  qed (use assms(1-3) Suc.hyps(2) in auto)
qed

text \<open>
  C35. The attempt counter is never reset: without a shutdown the sixth disconnect since the start
  of the process is fatal, also when every reconnection before it succeeded and served for any
  length of time. The comment and the error message speak of disconnects \<^verbatim>\<open>in a row\<close>.
\<close>

theorem disconnects_add_up:
  assumes "\<And>n. \<not> snd (sw_run w n)" "\<And>n. \<not> sw_wait w n" "\<And>n. sw_factory w n = None"
  shows "\<exists>es. lifecycle_run w reconnectBackoff =
      (Err (exhausted_error (fst (sw_run w 5)) 5), es) \<and> reconnects es = 5"
proof -
  obtain r es where "lifecycle_loop w reconnectBackoff 0 = (r, es)"
    by force
  with lifecycle_loop_exhausts [OF assms _ this] show ?thesis
    by (simp add: lifecycle_run_def assms(3) length_reconnectBackoff)
qed

section \<open>Shutdown beside the loop\<close>

text \<open>
  The goroutine of \<^verbatim>\<open>run\<close> and the sidecar that calls \<^verbatim>\<open>shutdown\<close> when the context is cancelled. A stub
  is known by the number of its construction. \<^verbatim>\<open>Run\<close> of a stub returns when the stub was stopped or
  when containerd drops the connection; the source says that it does not heed the context. The
  \<^verbatim>\<open>select\<close> may take the timer's branch also when the context is cancelled at the same time. Each
  step names who takes it: the program's two goroutines, or from outside the signal and containerd,
  to which the failure of building a stub is put down as well.
\<close>

datatype actor = Signal | Runner | Sidecar | Containerd

datatype run_pc = Running nat | Backoff nat | Rebuilding nat | Returned

datatype sidecar_pc = Waiting | Took "nat option" | Finished

record shutdown_state =
  sh_run :: run_pc
  sh_current :: "nat option"
  sh_stopped :: "nat set"
  sh_done :: bool
  sh_sidecar :: sidecar_pc

definition run_ended :: "nat \<Rightarrow> shutdown_state \<Rightarrow> shutdown_state" where
  "run_ended n s =
     (if sh_done s then s\<lparr>sh_run := Returned\<rparr>
      else s\<lparr>sh_stopped := insert n (sh_stopped s), sh_run := Backoff n\<rparr>)"

inductive shutdown_step :: "actor \<Rightarrow> shutdown_state \<Rightarrow> shutdown_state \<Rightarrow> bool" where
  cancel: "\<not> sh_done s \<Longrightarrow> shutdown_step Signal s (s\<lparr>sh_done := True\<rparr>)"
| read_current: "sh_done s \<Longrightarrow> sh_sidecar s = Waiting \<Longrightarrow>
     shutdown_step Sidecar s (s\<lparr>sh_sidecar := Took (sh_current s)\<rparr>)"
| stop_current: "sh_sidecar s = Took (Some n) \<Longrightarrow>
     shutdown_step Sidecar s (s\<lparr>sh_stopped := insert n (sh_stopped s), sh_sidecar := Finished\<rparr>)"
| nothing_to_stop: "sh_sidecar s = Took None \<Longrightarrow> shutdown_step Sidecar s (s\<lparr>sh_sidecar := Finished\<rparr>)"
| stopped: "sh_run s = Running n \<Longrightarrow> n \<in> sh_stopped s \<Longrightarrow> shutdown_step Runner s (run_ended n s)"
| disconnected: "sh_run s = Running n \<Longrightarrow> shutdown_step Containerd s (run_ended n s)"
| exhausted: "sh_run s = Running n \<Longrightarrow> \<not> sh_done s \<Longrightarrow> shutdown_step Containerd s (s\<lparr>sh_run := Returned\<rparr>)"
| interrupted: "sh_run s = Backoff n \<Longrightarrow> sh_done s \<Longrightarrow> shutdown_step Runner s (s\<lparr>sh_run := Returned\<rparr>)"
| timer: "sh_run s = Backoff n \<Longrightarrow> shutdown_step Runner s (s\<lparr>sh_run := Rebuilding n\<rparr>)"
| rebuilt: "sh_run s = Rebuilding n \<Longrightarrow>
     shutdown_step Runner s (s\<lparr>sh_run := Running (Suc n), sh_current := Some (Suc n)\<rparr>)"
| not_rebuilt: "sh_run s = Rebuilding n \<Longrightarrow> shutdown_step Containerd s (s\<lparr>sh_run := Returned\<rparr>)"

inductive shutdown_steps :: "shutdown_state \<Rightarrow> shutdown_state \<Rightarrow> bool" where
  none: "shutdown_steps s s"
| more: "shutdown_step a s t \<Longrightarrow> shutdown_steps t u \<Longrightarrow> shutdown_steps s u"

inductive_cases shutdown_stepE: "shutdown_step a s t"

text \<open>Cancellation while a stub runs: the sidecar will stop that very stub.\<close>

definition shutting_down :: "nat \<Rightarrow> shutdown_state \<Rightarrow> bool" where
  "shutting_down n s \<longleftrightarrow> sh_done s \<and> (sh_run s = Returned \<or>
     sh_run s = Running n \<and> sh_current s = Some n \<and>
       (sh_sidecar s = Waiting \<or> sh_sidecar s = Took (Some n) \<or> sh_sidecar s = Finished \<and> n \<in> sh_stopped s))"

definition steps_left :: "shutdown_state \<Rightarrow> nat" where
  "steps_left s = (if sh_run s = Returned then 0 else 3) +
     (case sh_sidecar s of Waiting \<Rightarrow> 2 | Took _ \<Rightarrow> 1 | Finished \<Rightarrow> 0)"

lemma shutting_down_step:
  assumes "shutting_down n s" "shutdown_step a s t"
  shows "shutting_down n t \<and> steps_left t < steps_left s"
  using assms(2,1)
  by (cases rule: shutdown_stepE) (auto simp: shutting_down_def steps_left_def run_ended_def)

lemma shutting_down_progress:
  assumes "shutting_down n s" "sh_run s \<noteq> Returned"
  shows "\<exists>a t. a \<noteq> Containerd \<and> shutdown_step a s t"
proof -
  from assms consider "sh_sidecar s = Waiting" "sh_done s" | "sh_sidecar s = Took (Some n)"
    | "sh_run s = Running n" "n \<in> sh_stopped s"
    by (auto simp: shutting_down_def)
  then show ?thesis
    by cases (metis actor.distinct shutdown_step.intros)+
qed

lemma shutting_down_steps:
  "shutdown_steps s t \<Longrightarrow> shutting_down n s \<Longrightarrow> shutting_down n t \<and> steps_left t \<le> steps_left s"
  by (induction rule: shutdown_steps.induct) (auto dest: shutting_down_step)

text \<open>
  A cancellation that arrives while a stub is running shuts the loop down: in every state
  reachable from there the program has a step to take unless \<^verbatim>\<open>run\<close> has returned, and no execution
  takes more than five steps.
\<close>

theorem shutdown_while_running:
  assumes "shutdown_steps (s\<lparr>sh_run := Running n, sh_current := Some n, sh_done := True, sh_sidecar := Waiting\<rparr>) t"
  shows "(sh_run t = Returned \<or> (\<exists>a u. a \<noteq> Containerd \<and> shutdown_step a t u)) \<and>
    (\<forall>a u. shutdown_step a t u \<longrightarrow> steps_left u < steps_left t) \<and> steps_left t \<le> 5"
proof -
  have "shutting_down n (s\<lparr>sh_run := Running n, sh_current := Some n, sh_done := True, sh_sidecar := Waiting\<rparr>)"
    by (simp add: shutting_down_def)
  from shutting_down_steps [OF assms this] have "shutting_down n t" "steps_left t \<le> 5"
    by (simp_all add: steps_left_def)
  then show ?thesis
    using shutting_down_progress shutting_down_step by blast
qed

text \<open>The state in which \<^verbatim>\<open>run\<close> serves its first stub.\<close>

definition serving :: shutdown_state where
  "serving = \<lparr>sh_run = Running 0, sh_current = Some 0, sh_stopped = {}, sh_done = False, sh_sidecar = Waiting\<rparr>"

text \<open>Before the cancellation the sidecar waits, and what was stopped are old stubs.\<close>

definition before_cancel :: "shutdown_state \<Rightarrow> bool" where
  "before_cancel s \<longleftrightarrow> sh_done s \<or> sh_sidecar s = Waiting \<and>
     (case sh_run s of
        Running n \<Rightarrow> sh_current s = Some n \<and> sh_stopped s \<subseteq> {..<n}
      | Backoff n \<Rightarrow> sh_current s = Some n \<and> sh_stopped s \<subseteq> {..n}
      | Rebuilding n \<Rightarrow> sh_current s = Some n \<and> sh_stopped s \<subseteq> {..n}
      | Returned \<Rightarrow> True)"

lemma before_cancel_step: "shutdown_step a s t \<Longrightarrow> before_cancel s \<Longrightarrow> before_cancel t"
  by (erule shutdown_stepE) (auto simp: before_cancel_def run_ended_def)

lemma before_cancel_steps: "shutdown_steps s t \<Longrightarrow> before_cancel s \<Longrightarrow> before_cancel t"
  by (induction rule: shutdown_steps.induct) (auto dest: before_cancel_step)

lemma before_cancel_serving: "before_cancel serving"
  by (simp add: before_cancel_def serving_def)

text \<open>
  C36. A shutdown during any backoff can be missed: the timer's branch is taken, the sidecar stops the
  old stub and is finished, and \<^verbatim>\<open>run\<close> then serves a new stub that nobody stops. The cancelled program
  has no step left to take in that state; only containerd can end it, by dropping the connection.
\<close>

theorem shutdown_missed:
  assumes "shutdown_steps serving s" "sh_run s = Backoff n" "\<not> sh_done s"
  shows "\<exists>t. shutdown_steps s t \<and> sh_done t \<and> sh_run t = Running (Suc n) \<and>
     (\<forall>a u. shutdown_step a t u \<longrightarrow> a = Containerd)"
proof -
  have s: "sh_current s = Some n" "sh_sidecar s = Waiting" "Suc n \<notin> sh_stopped s"
    using before_cancel_steps [OF assms(1) before_cancel_serving] assms(2,3) by (auto simp: before_cancel_def)
  let ?s1 = "s\<lparr>sh_run := Rebuilding n\<rparr>"
  let ?s2 = "?s1\<lparr>sh_done := True\<rparr>"
  let ?s3 = "?s2\<lparr>sh_sidecar := Took (Some n)\<rparr>"
  let ?s4 = "?s3\<lparr>sh_stopped := insert n (sh_stopped s), sh_sidecar := Finished\<rparr>"
  let ?s5 = "?s4\<lparr>sh_run := Running (Suc n), sh_current := Some (Suc n)\<rparr>"
  have "shutdown_step Runner s ?s1" "shutdown_step Signal ?s1 ?s2"
    using timer [OF assms(2)] cancel [of ?s1] assms(3) by simp_all
  moreover have "shutdown_step Sidecar ?s2 ?s3" "shutdown_step Sidecar ?s3 ?s4"
    using read_current [of ?s2] stop_current [of ?s3 n] s(1,2) by simp_all
  moreover have "shutdown_step Runner ?s4 ?s5"
    using rebuilt [of ?s4 n] by simp
  ultimately have "shutdown_steps s ?s5"
    by (meson shutdown_steps.intros)
  moreover have "a = Containerd" if "shutdown_step a ?s5 u" for a u
    using that s(3) by (auto elim!: shutdown_stepE)
  ultimately show ?thesis
    by (intro exI [of _ ?s5]) simp
qed

section \<open>Examples\<close>

definition flaky_world :: stub_world where
  "flaky_world = \<lparr>sw_factory = \<lambda>n. None, sw_run = \<lambda>n. (None, False), sw_wait = \<lambda>n. False\<rparr>"

lemma disconnects_add_up_witness:
  "\<exists>es. lifecycle_run flaky_world reconnectBackoff =
     (Err (exhausted_error None 5), es) \<and> reconnects es = 5"
  using disconnects_add_up [of flaky_world] by (simp add: flaky_world_def)

lemma shutdown_while_running_witness:
  "steps_left (serving\<lparr>sh_done := True\<rparr>) \<le> 5"
proof -
  have "shutdown_steps (serving\<lparr>sh_run := Running 0, sh_current := Some 0, sh_done := True, sh_sidecar := Waiting\<rparr>)
      (serving\<lparr>sh_done := True\<rparr>)"
    by (simp add: serving_def shutdown_steps.none)
  from shutdown_while_running [OF this] show ?thesis
    by blast
qed

text \<open>The first stub has been disconnected, and its successor is not built yet.\<close>

definition backing_off :: shutdown_state where
  "backing_off = serving\<lparr>sh_stopped := {0}, sh_run := Backoff 0\<rparr>"

lemma shutdown_missed_witness:
  "\<exists>t. shutdown_steps backing_off t \<and> sh_done t \<and> sh_run t = Running 1 \<and>
     (\<forall>a u. shutdown_step a t u \<longrightarrow> a = Containerd)"
proof -
  have "shutdown_step Containerd serving (run_ended 0 serving)"
    by (rule disconnected) (simp add: serving_def)
  then have "shutdown_steps serving backing_off"
    by (simp add: shutdown_steps.intros backing_off_def run_ended_def serving_def)
  from shutdown_missed [OF this, of 0] show ?thesis
    by (simp add: backing_off_def serving_def)
qed

end
