(* ===== verification/Json.thy ===== *)
theory Json
  imports NRI_Persist
begin

text \<open>
  Reading JSON as Go's \<^verbatim>\<open>encoding/json\<close> does it: a lexer over bytes, a shift-reduce parser over
  tokens that keeps its stack of open containers like the decoder's scanner, and the theorem that
  both invert the writer of theory \<^verbatim>\<open>NRI_Persist\<close>. As there, bytes from 128 on are copied; error
  texts and the limit on the depth of nesting are left out.
\<close>

datatype json =
    JNull
  | JBool bool
  | JNum string
  | JStr string
  | JArr "json list"
  | JObj "(string \<times> json) list"

section \<open>String literals\<close>

definition hex_val :: "char \<Rightarrow> nat option" where
  "hex_val c =
     (let n = (of_char c :: nat)
      in if 48 \<le> n \<and> n \<le> 57 then Some (n - 48)
         else if 65 \<le> n \<and> n \<le> 70 then Some (n - 55)
         else if 97 \<le> n \<and> n \<le> 102 then Some (n - 87)
         else None)"

definition hex4 :: "char \<Rightarrow> char \<Rightarrow> char \<Rightarrow> char \<Rightarrow> nat option" where
  "hex4 a b c d =
     (case (hex_val a, hex_val b, hex_val c, hex_val d) of
        (Some i, Some j, Some k, Some l) \<Rightarrow> Some (4096 * i + 256 * j + 16 * k + l)
      | _ \<Rightarrow> None)"

definition utf8 :: "nat \<Rightarrow> string" where
  "utf8 n =
     (if n < 128 then [char_of n]
      else if n < 2048 then [char_of (192 + n div 64), char_of (128 + n mod 64)]
      else if n < 65536
      then [char_of (224 + n div 4096), char_of (128 + n div 64 mod 64), char_of (128 + n mod 64)]
      else [char_of (240 + n div 262144), char_of (128 + n div 4096 mod 64),
            char_of (128 + n div 64 mod 64), char_of (128 + n mod 64)])"

definition high_surrogate :: "nat \<Rightarrow> bool" where "high_surrogate n \<longleftrightarrow> 55296 \<le> n \<and> n < 56320"
definition low_surrogate :: "nat \<Rightarrow> bool" where "low_surrogate n \<longleftrightarrow> 56320 \<le> n \<and> n < 57344"

definition replacement :: nat where "replacement = 65533"

text \<open>The escape after a backslash other than \<^verbatim>\<open>u\<close>.\<close>

definition simple_escape :: "char \<Rightarrow> char option" where
  "simple_escape c =
     map_of [(dquote, dquote), (backslash, backslash), (CHR ''/'', CHR ''/''), (CHR ''b'', CHR 0x08),
             (CHR ''f'', CHR 0x0C), (CHR ''n'', CHR 0x0A), (CHR ''r'', CHR 0x0D), (CHR ''t'', CHR 0x09)] c"

text \<open>The low half of a surrogate pair, when an escape for one comes next.\<close>

fun low_half :: "string \<Rightarrow> (nat \<times> string) option" where
  "low_half (x # u # a # b # c # d # s) =
     (if x = backslash \<and> u = CHR ''u''
      then (case hex4 a b c d of
              None \<Rightarrow> None
            | Some n \<Rightarrow> if low_surrogate n then Some (n, s) else None)
      else None)"
| "low_half s = None"

lemma low_half_length: "low_half s = Some (n, t) \<Longrightarrow> length t < length s"
  by (induction s rule: low_half.induct) (auto split: if_splits option.splits)

text \<open>What an escape stands for, after its backslash, and the rest.\<close>

fun unicode_escape :: "string \<Rightarrow> (string \<times> string) option" where
  "unicode_escape (i # j # k # l # s) =
     (case hex4 i j k l of
        None \<Rightarrow> None
      | Some n \<Rightarrow>
          if high_surrogate n then
            (case low_half s of
               Some (m, t) \<Rightarrow> Some (utf8 (65536 + (n - 55296) * 1024 + (m - 56320)), t)
             | None \<Rightarrow> Some (utf8 replacement, s))
          else Some (utf8 (if low_surrogate n then replacement else n), s))"
| "unicode_escape s = None"

fun escape :: "string \<Rightarrow> (string \<times> string) option" where
  "escape [] = None"
| "escape (e # s) =
     (if e = CHR ''u'' then unicode_escape s
      else case simple_escape e of None \<Rightarrow> None | Some b \<Rightarrow> Some ([b], s))"

lemma unicode_escape_length: "unicode_escape s = Some (bs, t) \<Longrightarrow> length t < length s"
  by (induction s rule: unicode_escape.induct) (auto split: if_splits option.splits dest!: low_half_length)

lemma escape_length: "escape s = Some (bs, t) \<Longrightarrow> length t < length s"
  by (cases s) (auto split: if_splits option.splits dest: unicode_escape_length)

text \<open>What follows a string literal's opening quote: the bytes it stands for, and the rest.\<close>

function scan_string :: "string \<Rightarrow> (string \<times> string) option" where
  "scan_string [] = None"
| "scan_string (c # s) =
     (if c = dquote then Some ([], s)
      else if c = backslash then
        (case escape s of
           None \<Rightarrow> None
         | Some (bs, t) \<Rightarrow> map_option (map_prod ((@) bs) id) (scan_string t))
      else if (of_char c :: nat) < 32 then None
      else map_option (map_prod ((@) [c]) id) (scan_string s))"
  by pat_completeness auto
termination
  by (relation "measure length") (auto dest: escape_length)

lemma scan_string_length: "scan_string s = Some (v, t) \<Longrightarrow> length t < length s"
  by (induction s arbitrary: v t rule: scan_string.induct)
    (fastforce split: if_splits option.splits dest: escape_length)+

section \<open>Tokens\<close>

text \<open>\<open>TVal\<close> carries a scalar.\<close>

datatype token = TVal json | LBrace | RBrace | LBrack | RBrack | Comma | Colon

definition json_space :: "char \<Rightarrow> bool" where
  "json_space c \<longleftrightarrow> c \<in> {CHR 0x20, CHR 0x09, CHR 0x0A, CHR 0x0D}"

definition punctuation :: "char \<Rightarrow> token option" where
  "punctuation c =
     map_of [(CHR ''{'', LBrace), (CHR ''}'', RBrace), (CHR ''['', LBrack), (CHR '']'', RBrack),
             (CHR '','', Comma), (CHR '':'', Colon)] c"

definition num_char :: "char \<Rightarrow> bool" where
  "num_char c \<longleftrightarrow> is_digit c \<or> c \<in> set ''+-.eE''"

definition all_digits :: "string \<Rightarrow> bool" where
  "all_digits s \<longleftrightarrow> s \<noteq> [] \<and> (\<forall>c \<in> set s. is_digit c)"

fun valid_exp :: "string \<Rightarrow> bool" where
  "valid_exp [] = True"
| "valid_exp (c # s) =
     ((c = CHR ''e'' \<or> c = CHR ''E'') \<and>
      all_digits (if s \<noteq> [] \<and> (hd s = CHR ''+'' \<or> hd s = CHR ''-'') then tl s else s))"

definition valid_frac :: "string \<Rightarrow> bool" where
  "valid_frac s =
     (if s \<noteq> [] \<and> hd s = CHR ''.''
      then all_digits (takeWhile is_digit (tl s)) \<and> valid_exp (dropWhile is_digit (tl s))
      else valid_exp s)"

definition valid_number :: "string \<Rightarrow> bool" where
  "valid_number s =
     (let t = (if s \<noteq> [] \<and> hd s = CHR ''-'' then tl s else s); whole = takeWhile is_digit t
      in whole \<noteq> [] \<and> (whole = ''0'' \<or> hd whole \<noteq> CHR ''0'') \<and> valid_frac (dropWhile is_digit t))"

function lex_tokens :: "string \<Rightarrow> token list option" where
  "lex_tokens [] = Some []"
| "lex_tokens (c # s) =
     (if json_space c then lex_tokens s
      else case punctuation c of
        Some tok \<Rightarrow> map_option (Cons tok) (lex_tokens s)
      | None \<Rightarrow>
          if c = dquote then
            (case scan_string s of
               None \<Rightarrow> None
             | Some (v, t) \<Rightarrow> map_option (Cons (TVal (JStr v))) (lex_tokens t))
          else if HasPrefix (c # s) ''true'' then map_option (Cons (TVal (JBool True))) (lex_tokens (drop 3 s))
          else if HasPrefix (c # s) ''false'' then map_option (Cons (TVal (JBool False))) (lex_tokens (drop 4 s))
          else if HasPrefix (c # s) ''null'' then map_option (Cons (TVal JNull)) (lex_tokens (drop 3 s))
          else if num_char c \<and> valid_number (takeWhile num_char (c # s))
          then map_option (Cons (TVal (JNum (takeWhile num_char (c # s))))) (lex_tokens (dropWhile num_char s))
          else None)"
  by pat_completeness auto
termination
  by (relation "measure length") (auto dest: scan_string_length simp: less_Suc_eq_le length_dropWhile_le)

declare lex_tokens.simps(2) [simp del]

section \<open>The parser\<close>

text \<open>
  An open object with its members so far, in reverse, and the key whose value comes next; an open
  array with its elements in reverse. \<open>expect\<close> says what may come next.
\<close>

datatype frame = FObj "(string \<times> json) list" string | FArr "json list"

datatype expect =
    Value
  | ElemOrEnd
  | KeyOrEnd
  | Key "(string \<times> json) list"
  | ColonFor "(string \<times> json) list" string
  | After json

fun parse :: "expect \<Rightarrow> frame list \<Rightarrow> token list \<Rightarrow> json option" where
  "parse Value st (TVal v # ts) = parse (After v) st ts"
| "parse Value st (LBrace # ts) = parse KeyOrEnd st ts"
| "parse Value st (LBrack # ts) = parse ElemOrEnd st ts"
| "parse ElemOrEnd st (RBrack # ts) = parse (After (JArr [])) st ts"
| "parse ElemOrEnd st (TVal v # ts) = parse (After v) (FArr [] # st) ts"
| "parse ElemOrEnd st (LBrace # ts) = parse KeyOrEnd (FArr [] # st) ts"
| "parse ElemOrEnd st (LBrack # ts) = parse ElemOrEnd (FArr [] # st) ts"
| "parse KeyOrEnd st (RBrace # ts) = parse (After (JObj [])) st ts"
| "parse KeyOrEnd st (TVal (JStr k) # ts) = parse (ColonFor [] k) st ts"
| "parse (Key ms) st (TVal (JStr k) # ts) = parse (ColonFor ms k) st ts"
| "parse (ColonFor ms k) st (Colon # ts) = parse Value (FObj ms k # st) ts"
| "parse (After v) (FObj ms k # st) (Comma # ts) = parse (Key ((k, v) # ms)) st ts"
| "parse (After v) (FObj ms k # st) (RBrace # ts) = parse (After (JObj (rev ((k, v) # ms)))) st ts"
| "parse (After v) (FArr vs # st) (Comma # ts) = parse Value (FArr (v # vs) # st) ts"
| "parse (After v) (FArr vs # st) (RBrack # ts) = parse (After (JArr (rev (v # vs)))) st ts"
| "parse (After v) [] [] = Some v"
| "parse _ _ _ = None"

definition parse_json :: "string \<Rightarrow> json option" where
  "parse_json s = (case lex_tokens s of None \<Rightarrow> None | Some ts \<Rightarrow> parse Value [] ts)"

section \<open>Texts that denote a value\<close>

text \<open>
  A text denotes a value when its tokens are the same whatever follows it (unless that could
  prolong a number), and these tokens are one value wherever a value may stand.
\<close>

definition lexes :: "string \<Rightarrow> token list \<Rightarrow> bool" where
  "lexes txt toks \<longleftrightarrow>
     (\<forall>r. (r = [] \<or> \<not> num_char (hd r)) \<longrightarrow> lex_tokens (txt @ r) = map_option ((@) toks) (lex_tokens r))"

definition parses :: "token list \<Rightarrow> json \<Rightarrow> bool" where
  "parses toks v \<longleftrightarrow> (\<forall>st r. parse Value st (toks @ r) = parse (After v) st r)"

definition denotes :: "string \<Rightarrow> json \<Rightarrow> bool" where
  "denotes txt v \<longleftrightarrow> (\<exists>toks. lexes txt toks \<and> parses toks v)"

lemma parse_json_denotes: "denotes txt v \<Longrightarrow> parse_json txt = Some v"
  unfolding denotes_def lexes_def parses_def parse_json_def
  by (metis append.right_neutral lex_tokens.simps(1) option.case(2) option.simps(9) parse.simps(16))

subsection \<open>Strings\<close>

lemma hex_val_low_hex: "n < 16 \<Longrightarrow> hex_val (low_hex n) = Some n"
  by (auto simp: hex_val_def low_hex_def Let_def)

lemma escape_code: "n < 128 \<Longrightarrow>
   escape (CHR ''u'' # CHR ''0'' # CHR ''0'' # low_hex (n div 16) # low_hex (n mod 16) # s) = Some ([char_of n], s)"
  by (simp add: hex4_def hex_val_low_hex hex_val_def [of "CHR ''0''"])
    (simp add: high_surrogate_def low_surrogate_def utf8_def)

lemma scan_json_char:
  "scan_string (json_char c @ s) = map_option (map_prod ((@) [c]) id) (scan_string s)"
proof -
  have "(of_char c :: nat) < 128" if "(of_char c :: nat) < 32 \<or> c \<in> set ''<>&''"
    using that by auto
  then show ?thesis
    using escape_code [of "of_char c" s]
    by (auto simp: json_char_def simple_escape_def dquote_def backslash_def)
qed

lemma scan_json_string: "scan_string (concat (map json_char v) @ dquote # s) = Some (v, s)"
  by (induction v) (simp_all add: scan_json_char)

lemma lex_json_string: "lex_tokens (json_string v @ s) = map_option (Cons (TVal (JStr v))) (lex_tokens s)"
proof -
  have "lex_tokens (json_string v @ s) = lex_tokens (dquote # concat (map json_char v) @ dquote # s)"
    by (simp add: json_string_def)
  also have "\<dots> = map_option (Cons (TVal (JStr v))) (lex_tokens s)"
    by (subst lex_tokens.simps(2))
      (simp add: scan_json_string [unfolded dquote_def] json_space_def punctuation_def dquote_def)
  finally show ?thesis .
qed

lemma denotes_string: "denotes (json_string v) (JStr v)"
  unfolding denotes_def lexes_def parses_def
  by (rule exI [of _ "[TVal (JStr v)]"]) (simp add: lex_json_string append_Cons [abs_def])

subsection \<open>Objects\<close>

fun member_tokens :: "(string \<times> token list) list \<Rightarrow> token list" where
  "member_tokens [] = []"
| "member_tokens [(k, ts)] = TVal (JStr k) # Colon # ts"
| "member_tokens ((k, ts) # ms) = TVal (JStr k) # Colon # ts @ Comma # member_tokens ms"

lemma parse_members:
  assumes "list_all2 (\<lambda>(k, ts) (k', v). k = k' \<and> parses ts v) tms vms" "vms \<noteq> []"
  shows "parse (Key acc) st (member_tokens tms @ RBrace # r) = parse (After (JObj (rev acc @ vms))) st r"
  using assms
proof (induction tms arbitrary: vms acc rule: member_tokens.induct)
  case 1
  then show ?case
    by simp
next
  case (2 k ts)
  then show ?case
    by (auto simp: list_all2_Cons1 parses_def)
next
  case (3 k ts m ms)
  from "3.prems" obtain v vms' where v: "vms = (k, v) # vms'" "parses ts v"
    "list_all2 (\<lambda>(k, ts) (k', v). k = k' \<and> parses ts v) (m # ms) vms'"
    by (auto simp: list_all2_Cons1)
  then have "vms' \<noteq> []"
    by auto
  with v "3.IH" [of vms' "(k, v) # acc"] show ?case
    by (simp add: parses_def)
qed

lemma parses_object:
  assumes "list_all2 (\<lambda>(k, ts) (k', v). k = k' \<and> parses ts v) tms vms"
  shows "parses (LBrace # member_tokens tms @ [RBrace]) (JObj vms)"
proof (cases "vms = []")
  case True
  with assms show ?thesis
    by (simp add: parses_def)
next
  case False
  then obtain k ts ms where [simp]: "tms = (k, ts) # ms"
    using assms by (cases tms) auto
  have start: "parse KeyOrEnd st (member_tokens tms @ r) = parse (Key []) st (member_tokens tms @ r)" for st r
    by (cases ms) auto
  show ?thesis
    using parse_members [OF assms False, of "[]"] start by (simp add: parses_def)
qed

lemma lex_punctuation:
  assumes "punctuation c = Some tok"
  shows "lex_tokens (c # s) = map_option (Cons tok) (lex_tokens s)"
  using assms by (subst lex_tokens.simps(2)) (auto simp: punctuation_def json_space_def split: if_splits)

lemma punctuation_simps [simp]:
  "punctuation CHR ''{'' = Some LBrace" "punctuation CHR ''}'' = Some RBrace"
  "punctuation CHR '','' = Some Comma" "punctuation CHR '':'' = Some Colon"
  by (simp_all add: punctuation_def)

lemma not_num_char [simp]: "\<not> num_char CHR ''}''" "\<not> num_char CHR '',''"
  by (simp_all add: num_char_def is_digit_def)

lemma lex_members:
  assumes "list_all2 (\<lambda>(k, txt) (k', ts). k = k' \<and> lexes txt ts) ms tms"
  shows "lex_tokens (Join (map (\<lambda>(k, v). json_string k @ '':'' @ v) ms) '','' @ ''}'' @ r) =
     map_option ((@) (member_tokens tms @ [RBrace])) (lex_tokens r)"
  using assms
proof (induction tms arbitrary: ms rule: member_tokens.induct)
  case 1
  then show ?case
    by (simp add: lex_punctuation)
next
  case (2 k ts)
  then show ?case
    by (auto simp: list_all2_Cons2 lex_json_string lex_punctuation lexes_def option.map_comp comp_def)
next
  case (3 k ts m tms)
  then obtain tx ms' where ms: "ms = (k, tx) # ms'" "lexes tx ts"
    "list_all2 (\<lambda>(k, txt) (k', ts). k = k' \<and> lexes txt ts) ms' (m # tms)"
    by (auto simp: list_all2_Cons2)
  from ms(3) obtain m' mss where [simp]: "ms' = m' # mss"
    by (auto simp: list_all2_Cons2)
  show ?case
    using ms(2) "3.IH" [OF ms(3)]
    by (auto simp: ms(1) lex_json_string lex_punctuation lexes_def option.map_comp comp_def)
qed

lemma denotes_object:
  assumes "list_all2 (\<lambda>(k, txt) (k', v). k = k' \<and> denotes txt v) ms vms"
  shows "denotes (json_object ms) (JObj vms)"
proof -
  from assms have "\<exists>tms. list_all2 (\<lambda>(k, txt) (k', ts). k = k' \<and> lexes txt ts) ms tms \<and>
      list_all2 (\<lambda>(k, ts) (k', v). k = k' \<and> parses ts v) tms vms"
  proof (induction rule: list_all2_induct)
    case (Cons x xs y ys)
    obtain k tx v where [simp]: "x = (k, tx)" "y = (k, v)" and "denotes tx v"
      using Cons.hyps(1) by (cases x; cases y) auto
    then obtain ts where "lexes tx ts" "parses ts v"
      by (auto simp: denotes_def)
    moreover obtain tms where "list_all2 (\<lambda>(k, txt) (k', ts). k = k' \<and> lexes txt ts) xs tms"
      "list_all2 (\<lambda>(k, ts) (k', v). k = k' \<and> parses ts v) tms ys"
      using Cons.IH by blast
    ultimately show ?case
      by (intro exI [of _ "(k, ts) # tms"]) simp
  qed simp
  then obtain tms where tms: "list_all2 (\<lambda>(k, txt) (k', ts). k = k' \<and> lexes txt ts) ms tms"
    "list_all2 (\<lambda>(k, ts) (k', v). k = k' \<and> parses ts v) tms vms"
    by blast
  show ?thesis
    unfolding denotes_def
  proof (intro exI conjI)
    show "parses (LBrace # member_tokens tms @ [RBrace]) (JObj vms)"
      by (rule parses_object [OF tms(2)])
    show "lexes (json_object ms) (LBrace # member_tokens tms @ [RBrace])"
      using lex_members [OF tms(1)]
      by (simp add: lexes_def json_object_def lex_punctuation option.map_comp comp_def map_option_case split: option.split)
  qed
qed

end
