(* ===== verification/NRI_Run.thy ===== *)
theory NRI_Run
  imports Json Plugin_Cache
begin

text \<open>
  The start of the NRI agent: \<^verbatim>\<open>loadCache\<close> of \<^verbatim>\<open>pkg/nri/persist.go\<close> and \<^verbatim>\<open>Run\<close> of
  \<^verbatim>\<open>pkg/nri/runner.go\<close>. What the last instance saved comes back, so that pods whose tokens were
  consumed keep their credentials.
\<close>

section \<open>Decoding the document\<close>

text \<open>
  \<^verbatim>\<open>json.Unmarshal\<close> into the struct and the maps: a value of a wrong type is an error of the whole
  call, \<^verbatim>\<open>null\<close> empties a map and leaves anything else at its zero value, later keys replace earlier
  ones, and unknown fields are skipped.
\<close>

fun decode_string :: "json \<Rightarrow> string option" where
  "decode_string (JStr s) = Some s"
| "decode_string JNull = Some []"
| "decode_string _ = None"

fun decode_members :: "(json \<Rightarrow> 'a option) \<Rightarrow> (string \<times> json) list \<Rightarrow> (string \<times> 'a) list \<Rightarrow> (string \<times> 'a) list option" where
  "decode_members dec [] m = Some m"
| "decode_members dec ((k, v) # ms) m =
     (case dec v of None \<Rightarrow> None | Some a \<Rightarrow> decode_members dec ms (AList.update k a m))"

fun decode_map :: "(json \<Rightarrow> 'a option) \<Rightarrow> (string \<times> 'a) list \<Rightarrow> json \<Rightarrow> (string \<times> 'a) list option" where
  "decode_map dec m (JObj ms) = decode_members dec ms m"
| "decode_map dec m JNull = Some []"
| "decode_map dec m _ = None"

definition decode_mapping :: "json \<Rightarrow> mapping option" where
  "decode_mapping v = decode_map decode_string [] v"

text \<open>An \<^verbatim>\<open>int\<close>: a number without fraction and exponent, within 64 bits.\<close>

definition int_literal :: "string \<Rightarrow> bool" where
  "int_literal s =
     (let neg = (s \<noteq> [] \<and> hd s = CHR ''-''); t = (if neg then tl s else s);
          n = foldl (\<lambda>a c. 10 * a + digit_val c) 0 t
      in all_digits t \<and> (if neg then n \<le> 2 ^ 63 else n < 2 ^ 63))"

fun decode_version :: "json \<Rightarrow> bool" where
  "decode_version (JNum n) = int_literal n"
| "decode_version JNull = True"
| "decode_version _ = False"

text \<open>Field names match without regard to case, where the letter long s counts as an s.\<close>

definition field_name :: "string \<Rightarrow> string" where
  "field_name k = ToLower (ReplaceAll k [CHR 0xC5, CHR 0xBF] ''s'')"

fun decode_fields :: "(string \<times> json) list \<Rightarrow> pods_cache \<Rightarrow> pods_cache option" where
  "decode_fields [] pods = Some pods"
| "decode_fields ((k, v) # ms) pods =
     (if field_name k = ''version'' then (if decode_version v then decode_fields ms pods else None)
      else if field_name k = ''pods'' then
        (case decode_map decode_mapping pods v of None \<Rightarrow> None | Some pods' \<Rightarrow> decode_fields ms pods')
      else decode_fields ms pods)"

fun decode_cacheFile :: "json \<Rightarrow> pods_cache option" where
  "decode_cacheFile (JObj ms) = decode_fields ms []"
| "decode_cacheFile JNull = Some []"
| "decode_cacheFile _ = None"

definition Unmarshal :: "string \<Rightarrow> pods_cache option" where
  "Unmarshal b = (case parse_json b of None \<Rightarrow> None | Some v \<Rightarrow> decode_cacheFile v)"

text \<open>The text of a decoding error is left out.\<close>

definition json_error :: goerr where "json_error = Newf ''json'' []"

fun not_exist :: "goerr \<Rightarrow> bool" where
  "not_exist (NotExist m) = True"
| "not_exist (Wrap err m) = not_exist err"
| "not_exist (JoinErr errs) = (\<exists>err \<in> set errs. not_exist err)"
| "not_exist _ = False"

definition loadCache :: "env \<Rightarrow> string \<Rightarrow> pods_cache res io" where
  "loadCache E path = do {
     r \<leftarrow> os_ReadFile E path;
     ret (case r of
            Err err \<Rightarrow> if not_exist err then Ok [] else Err (Wrap err ''read cache file'')
          | Panic \<Rightarrow> Panic
          | Ok b \<Rightarrow> (case Unmarshal b of
                       None \<Rightarrow> Err (Wrap json_error ''parse cache file'')
                     | Some pods \<Rightarrow> Ok pods)) }"

section \<open>The start of the agent\<close>

text \<open>
  \<^verbatim>\<open>stubFor\<close>: name, index and socket under which the plugin registers; \<open>new\<close> is \<^verbatim>\<open>stub.New\<close> with
  these options.
\<close>

definition stubFor :: "(string \<Rightarrow> string \<Rightarrow> string \<Rightarrow> goerr option) \<Rightarrow> Config \<Rightarrow> unit res" where
  "stubFor new cfg =
     (let name = (if nri_PluginName (NRI cfg) = '''' then ''vault-db-injector'' else nri_PluginName (NRI cfg));
          idx = (if nri_PluginIndex (NRI cfg) = '''' then ''10'' else nri_PluginIndex (NRI cfg))
      in case new name idx (nri_SocketPath (NRI cfg)) of
           Some err \<Rightarrow> Err (Wrap err ''create NRI stub'')
         | None \<Rightarrow> Ok ())"

text \<open>The goroutines that \<^verbatim>\<open>Run\<close> starts, in this order.\<close>

datatype nri_job = SweeperJob string | PrewarmerJob string int | LifecycleJob | ShutdownSidecar

definition Run_start :: "env \<Rightarrow> Config \<Rightarrow> string \<Rightarrow> (plugin \<times> nri_job list) io" where
  "Run_start E cfg nodeName = do {
     c \<leftarrow> loadCache E (nri_CachePath (NRI cfg));
     let p = (case c of Ok pods \<Rightarrow> if 0 < length pods then newPlugin\<lparr>pl_cache := pods\<rparr> else newPlugin
              | _ \<Rightarrow> newPlugin);
     k \<leftarrow> GetKubernetesClient E;
     let background = (case k of
            Ok _ \<Rightarrow> (if nodeName \<noteq> '''' then [SweeperJob nodeName] else []) @
              (if pwc_Enabled (nri_Prewarmer (NRI cfg)) \<and> nodeName \<noteq> ''''
               then [PrewarmerJob nodeName (pwc_MaxConcurrent (nri_Prewarmer (NRI cfg)))] else [])
          | _ \<Rightarrow> []);
     ret (p, background @ [LifecycleJob, ShutdownSidecar]) }"

text \<open>What \<^verbatim>\<open>Run\<close> makes of the outcome of its group.\<close>

definition Run_result :: "goerr option \<Rightarrow> goerr option" where
  "Run_result r =
     (case r of
        None \<Rightarrow> None
      | Some err \<Rightarrow> if err_is err ContextCanceled then None else Some (Wrap err ''NRI plugin run loop''))"

section \<open>What was saved comes back\<close>

definition json_mapping :: "mapping \<Rightarrow> json" where
  "json_mapping m = JObj (map (\<lambda>(ph, v). (ph, JStr v)) (sort_key fst m))"

definition json_pods :: "pods_cache \<Rightarrow> json" where
  "json_pods pods = JObj (map (\<lambda>(uid, m). (uid, json_mapping m)) (sort_key fst pods))"

lemma denotes_version: "denotes cacheVersion (JNum ''1'')"
  unfolding denotes_def
proof (intro exI conjI)
  show "parses [TVal (JNum ''1'')] (JNum ''1'')"
    by (simp add: parses_def)
  have "valid_number ''1''"
    by code_simp
  moreover have "takeWhile num_char (CHR ''1'' # r) = ''1'' \<and> dropWhile num_char r = r"
    if "r = [] \<or> \<not> num_char (hd r)" for r
    using that by (cases r) (auto simp: num_char_def is_digit_def)
  ultimately show "lexes cacheVersion [TVal (JNum ''1'')]"
    by (auto simp: lexes_def cacheVersion_def lex_tokens.simps(2) json_space_def punctuation_def
        dquote_def HasPrefix_def num_char_def is_digit_def append_Cons [abs_def])
qed

lemma denotes_mapping:
  "denotes (json_object (map (\<lambda>(ph, v). (ph, json_string v)) (sort_key fst m))) (json_mapping m)"
  unfolding json_mapping_def
  by (rule denotes_object) (auto simp: list_all2_conv_all_nth denotes_string split: prod.split)

lemma parse_Marshal:
  "parse_json (Marshal pods) = Some (JObj [(''version'', JNum ''1''), (''pods'', json_pods pods)])"
proof (rule parse_json_denotes)
  have "denotes (json_object (map (\<lambda>(uid, m). (uid,
      json_object (map (\<lambda>(ph, val). (ph, json_string val)) (sort_key fst m)))) (sort_key fst pods))) (json_pods pods)"
    unfolding json_pods_def
    by (rule denotes_object) (auto simp: list_all2_conv_all_nth denotes_mapping split: prod.split)
  then show "denotes (Marshal pods) (JObj [(''version'', JNum ''1''), (''pods'', json_pods pods)])"
    unfolding Marshal_def by (intro denotes_object) (simp add: denotes_version)
qed

lemma update_fresh: "k \<notin> fst ` set m \<Longrightarrow> AList.update k v m = m @ [(k, v)]"
  by (induction m) auto

lemma decode_members_fresh:
  assumes "distinct (map fst xs)" "fst ` set xs \<inter> fst ` set m = {}"
    and "\<And>k a. (k, a) \<in> set xs \<Longrightarrow> dec (enc a) = Some (f a)"
  shows "decode_members dec (map (\<lambda>(k, a). (k, enc a)) xs) m = Some (m @ map (\<lambda>(k, a). (k, f a)) xs)"
  using assms
proof (induction xs arbitrary: m)
  case (Cons x xs)
  obtain k a where x: "x = (k, a)"
    by fastforce
  with Cons.prems have "dec (enc a) = Some (f a)" "AList.update k (f a) m = m @ [(k, f a)]"
    by (auto simp: update_fresh)
  with Cons.IH [of "m @ [(k, f a)]"] Cons.prems x show ?case
    by auto
qed simp

lemma distinct_sort_key: "distinct (map fst (sort_key fst xs)) = distinct (map fst xs)"
  by (metis mset_map mset_sort mset_eq_imp_distinct_iff)

lemma decode_json_mapping:
  assumes "distinct (map fst m)"
  shows "decode_mapping (json_mapping m) = Some (sort_key fst m)"
  using decode_members_fresh [of "sort_key fst m" "[]" decode_string JStr id] assms
  by (simp add: decode_mapping_def json_mapping_def distinct_sort_key)

text \<open>A cache whose maps have each key once, and its form after a round trip.\<close>

definition go_maps :: "pods_cache \<Rightarrow> bool" where
  "go_maps pods \<longleftrightarrow> distinct (map fst pods) \<and> (\<forall>(uid, m) \<in> set pods. distinct (map fst m))"

definition sorted_cache :: "pods_cache \<Rightarrow> pods_cache" where
  "sorted_cache pods = map (\<lambda>(uid, m). (uid, sort_key fst m)) (sort_key fst pods)"

lemma Unmarshal_Marshal:
  assumes "go_maps pods"
  shows "Unmarshal (Marshal pods) = Some (sorted_cache pods)"
proof -
  have "decode_mapping (json_mapping m) = Some (sort_key fst m)" if "(uid, m) \<in> set (sort_key fst pods)" for uid m
    using that assms by (auto simp: go_maps_def intro: decode_json_mapping)
  then have "decode_members decode_mapping (map (\<lambda>(k, a). (k, json_mapping a)) (sort_key fst pods)) [] =
      Some ([] @ map (\<lambda>(k, a). (k, sort_key fst a)) (sort_key fst pods))"
    using assms by (intro decode_members_fresh) (auto simp: go_maps_def distinct_sort_key)
  then have "decode_map decode_mapping [] (json_pods pods) = Some (sorted_cache pods)"
    by (simp add: json_pods_def sorted_cache_def)
  moreover have "field_name ''version'' = ''version''" "field_name ''pods'' = ''pods''" "int_literal ''1''"
    by code_simp+
  ultimately show ?thesis
    by (simp add: Unmarshal_def parse_Marshal)
qed

lemma map_of_map_snd: "map_of (map (\<lambda>(k, a). (k, f a)) xs) k = map_option f (map_of xs k)"
  by (induction xs) auto

lemma map_of_sort_key: "distinct (map fst xs) \<Longrightarrow> map_of (sort_key fst xs) = map_of xs"
  by (rule map_of_mset_eq) (simp_all add: distinct_sort_key)

lemma lookup_sorted_cache:
  assumes "go_maps pods"
  shows "map_option map_of (map_of (sorted_cache pods) uid) = map_option map_of (map_of pods uid)"
  using assms
  by (cases "map_of pods uid")
    (auto simp: sorted_cache_def map_of_map_snd map_of_sort_key go_maps_def dest!: map_of_SomeD)

lemma emits_loadCache:
  assumes "go_maps pods" "\<And>h. e_read_file E h path = Inr (Marshal pods)"
  shows "emits (loadCache E path) (\<lambda>r es. r = Ok (sorted_cache pods))"
  unfolding loadCache_def os_ReadFile_def
  using assms by (auto simp: Unmarshal_Marshal emits_def)

text \<open>
  C20. Credentials survive a restart of the agent. When the new instance finds the file that the last
  one wrote, its cache is the same map from pods to maps from placeholders to values, whatever the
  strings are, and its state is well formed; the round trip through JSON loses and adds nothing.
  It always connects to containerd, also when the Kubernetes client cannot be built.
\<close>

theorem restart_keeps_credentials:
  assumes "go_maps (pl_cache p)" "\<And>h. e_read_file E h (nri_CachePath (NRI cfg)) = Inr (Marshal (snapshot p))"
  shows "emits (Run_start E cfg nodeName) (\<lambda>(p', jobs) es. plugin_ok p' \<and>
     (\<forall>uid. map_option map_of (cached p' uid) = map_option map_of (cached p uid)) \<and>
     LifecycleJob \<in> set jobs \<and> ShutdownSidecar \<in> set jobs)"
proof -
  let ?c = "sorted_cache (pl_cache p)"
  let ?p = "if 0 < length ?c then newPlugin\<lparr>pl_cache := ?c\<rparr> else newPlugin"
  have load: "emits (loadCache E (nri_CachePath (NRI cfg))) (\<lambda>r es. r = Ok ?c)"
    using assms by (intro emits_loadCache) (simp_all add: snapshot_def)
  have "distinct (map fst ?c)"
    using assms(1) by (simp add: sorted_cache_def go_maps_def distinct_sort_key comp_def split_def)
  then have "plugin_ok ?p"
    by (simp add: plugin_ok_def newPlugin_def)
  moreover have "map_option map_of (cached ?p uid) = map_option map_of (cached p uid)" for uid
    using lookup_sorted_cache [OF assms(1), of uid] by (auto simp: cached_def newPlugin_def)
  ultimately show ?thesis
    unfolding Run_start_def GetKubernetesClient_def Let_def
    by (intro emits_bind [OF emits_conseq [OF load]]) (auto intro!: emits_intro)
qed

definition one_entry :: plugin where
  "one_entry = newPlugin\<lparr>pl_cache := [(''uid-1'', [(''ph'', ''a\"b<c'')])]\<rparr>"

lemma restart_keeps_credentials_witness:
  "map_option map_of (cached (fst (fst (run_state (Run_start
     (calm_env\<lparr>e_read_file := \<lambda>_ _. Inr (Marshal (snapshot one_entry))\<rparr>) default_config ''node'') []))) ''uid-1'')
   = Some [''ph'' \<mapsto> ''a\"b<c'']"
proof -
  have "go_maps (pl_cache one_entry)"
    by (simp add: one_entry_def go_maps_def)
  from emits_run [OF restart_keeps_credentials [OF this,
      of "calm_env\<lparr>e_read_file := \<lambda>_ _. Inr (Marshal (snapshot one_entry))\<rparr>" default_config "''node''"]]
  show ?thesis
    by (auto simp: split_beta one_entry_def cached_def)
qed

end
