(* ===== verification/Healthcheck.thy ===== *)
theory Healthcheck
  imports Connector
begin

text \<open>
  Package \<^verbatim>\<open>pkg/healthcheck\<close>: the handlers of the probes, their registration on the service's own mux,
  and the answer of the mux to a request. Time stamps and the writing of response bodies are left
  out.
\<close>

section \<open>The handlers\<close>

definition StatusHealthy :: string where "StatusHealthy = ''healthy''"
definition StatusUnhealthy :: string where "StatusUnhealthy = ''unhealthy''"
definition StatusReady :: string where "StatusReady = ''ready''"
definition StatusNotReady :: string where "StatusNotReady = ''not ready''"

record ServiceHealth =
  sh_Status :: string
  sh_Message :: string

record HealthStatus =
  hs_Status :: string
  hs_Kubernetes :: "ServiceHealth option"
  hs_Vault :: "ServiceHealth option"

definition livenessHandler :: "bool \<Rightarrow> nat" where
  "livenessHandler alive = (if alive then 200 else 500)"

definition checkKubernetesHealth :: "env \<Rightarrow> ServiceHealth io" where
  "checkKubernetesHealth E = do {
     r \<leftarrow> GetKubernetesClient E;
     ret (case r of
            Err err \<Rightarrow> \<lparr>sh_Status = StatusUnhealthy,
                        sh_Message = ''Failed to connect to Kubernetes: '' @ err_msg err\<rparr>
          | _ \<Rightarrow> \<lparr>sh_Status = StatusHealthy, sh_Message = ''''\<rparr>) }"

definition checkVaultHealth :: "env \<Rightarrow> Config \<Rightarrow> ServiceHealth io" where
  "checkVaultHealth E cfg = do {
     r \<leftarrow> CheckVaultConnectivity E (VaultAddress cfg);
     ret (case r of
            Err err \<Rightarrow> \<lparr>sh_Status = StatusUnhealthy, sh_Message = err_msg err\<rparr>
          | _ \<Rightarrow> \<lparr>sh_Status = StatusHealthy, sh_Message = ''''\<rparr>) }"

definition healthHandler :: "env \<Rightarrow> Config \<Rightarrow> (nat \<times> HealthStatus) io" where
  "healthHandler E cfg = do {
     k8sHealth \<leftarrow> checkKubernetesHealth E;
     vaultHealth \<leftarrow> checkVaultHealth E cfg;
     let health = \<lparr>hs_Status = '''', hs_Kubernetes = Some k8sHealth, hs_Vault = Some vaultHealth\<rparr>;
     ret (if sh_Status k8sHealth = StatusHealthy \<and> sh_Status vaultHealth = StatusHealthy
          then (200, health\<lparr>hs_Status := StatusHealthy\<rparr>)
          else (if sh_Status k8sHealth \<noteq> StatusHealthy \<and> sh_Status vaultHealth \<noteq> StatusHealthy then 503
                else if sh_Status k8sHealth \<noteq> StatusHealthy then 502 else 424,
                health\<lparr>hs_Status := StatusUnhealthy\<rparr>)) }"

definition readyzHandler :: "bool \<Rightarrow> nat \<times> HealthStatus" where
  "readyzHandler isReady =
     (if \<not> isReady then (503, \<lparr>hs_Status = StatusNotReady, hs_Kubernetes = None, hs_Vault = None\<rparr>)
      else (200, \<lparr>hs_Status = StatusReady, hs_Kubernetes = None, hs_Vault = None\<rparr>))"

lemmas status_defs = StatusHealthy_def StatusUnhealthy_def StatusReady_def StatusNotReady_def

section \<open>The service\<close>

text \<open>A service: whether it is ready, the liveness function by its present answer, the routes of the mux.\<close>

record Service =
  sv_isReady :: bool
  sv_liveness :: "bool option"
  sv_routes :: "string list"

definition NewService :: Service where
  "NewService = \<lparr>sv_isReady = True, sv_liveness = None, sv_routes = []\<rparr>"

definition RegisterLivenessProbe :: "bool \<Rightarrow> Service \<Rightarrow> Service" where
  "RegisterLivenessProbe alive s = s\<lparr>sv_liveness := Some alive\<rparr>"

definition RegisterHandlers :: "Service \<Rightarrow> Service" where
  "RegisterHandlers s =
     s\<lparr>sv_routes := sv_routes s @ [''/healthz'', ''/readyz''] @
        (if sv_liveness s \<noteq> None then [''/live''] else [])\<rparr>"

text \<open>The status of the answer to a request; the mux answers 404 for what is not registered.\<close>

definition ServeHTTP :: "env \<Rightarrow> Config \<Rightarrow> Service \<Rightarrow> string \<Rightarrow> nat io" where
  "ServeHTTP E cfg s path =
     (if path \<notin> set (sv_routes s) then ret 404
      else if path = ''/healthz'' then do { r \<leftarrow> healthHandler E cfg; ret (fst r) }
      else if path = ''/readyz'' then ret (fst (readyzHandler (sv_isReady s)))
      else ret (case sv_liveness s of Some alive \<Rightarrow> livenessHandler alive | None \<Rightarrow> 404))"

section \<open>What the probes tell\<close>

lemma emits_healthHandler:
  "emits (healthHandler E cfg) (\<lambda>(code, h) es.
     code = (let kube = (KubeClient None \<in> set es);
                 vlt = (NewVaultClient (VaultAddress cfg) None \<in> set es \<and>
                        SysHealth (VaultAddress cfg) (Inr (True, False)) \<in> set es)
             in if kube \<and> vlt then 200 else if vlt then 502 else if kube then 424 else 503) \<and>
     (hs_Status h = StatusHealthy) = (code = 200))"
  unfolding healthHandler_def checkKubernetesHealth_def checkVaultHealth_def GetKubernetesClient_def
    CheckVaultConnectivity_def CheckHealth_def NewClient_def NewConnector_def
  by (intro emits_intro)
    (auto simp: status_defs Let_def split: res.splits option.splits sum.splits prod.splits if_splits intro!: emits_intro)

text \<open>
  The probes tell the truth. A service with handlers answers ready; with a liveness function its
  liveness status is 200 or 500 as the function says, and without one the route does not exist; and
  the health route answers 200 exactly when the Kubernetes client can be built and Vault says that
  it is initialized and not sealed, else 502 when only Kubernetes fails, 424 when only Vault does,
  and 503 for both. Both are asked on every request.
\<close>

theorem probes_tell:
  "emits (ServeHTTP E cfg (RegisterHandlers NewService) ''/live'') (\<lambda>code es. code = 404) \<and>
   emits (ServeHTTP E cfg (RegisterHandlers (RegisterLivenessProbe alive NewService)) ''/live'')
     (\<lambda>code es. code = (if alive then 200 else 500)) \<and>
   emits (ServeHTTP E cfg (RegisterHandlers NewService) ''/readyz'') (\<lambda>code es. code = 200) \<and>
   emits (ServeHTTP E cfg (RegisterHandlers NewService) ''/healthz'') (\<lambda>code es.
     code = (let kube = (KubeClient None \<in> set es);
                 vlt = (NewVaultClient (VaultAddress cfg) None \<in> set es \<and>
                        SysHealth (VaultAddress cfg) (Inr (True, False)) \<in> set es)
             in if kube \<and> vlt then 200 else if vlt then 502 else if kube then 424 else 503))"
  unfolding ServeHTTP_def RegisterHandlers_def RegisterLivenessProbe_def NewService_def livenessHandler_def
    readyzHandler_def
  by (auto intro!: emits_intro emits_bind [OF emits_conseq [OF emits_healthHandler]] split: prod.split)

end
