(* ===== verification/Leadership.thy ===== *)
theory Leadership
  imports Healthcheck
begin

text \<open>
  Package \<^verbatim>\<open>pkg/leadership\<close>: leader election, whose loss ends the process through the liveness
  probe. The election itself is client-go's and is given by the sequence of callbacks it makes.
  Of a channel only matters whether it is closed; closing it twice panics.
\<close>

section \<open>Channels\<close>

definition close_channel :: "bool \<Rightarrow> bool res" where
  "close_channel is_closed = (if is_closed then Panic else Ok True)"

section \<open>The elector\<close>

record LeaderElector =
  le_lock :: string
  le_id :: string
  le_healthy :: bool
  le_stopChan :: bool
  le_jobs :: nat

definition NewLeaderElector :: "string \<Rightarrow> string \<Rightarrow> LeaderElector" where
  "NewLeaderElector lock podName =
     \<lparr>le_lock = lock, le_id = podName, le_healthy = True, le_stopChan = False, le_jobs = 0\<rparr>"

definition IsHealthy :: "LeaderElector \<Rightarrow> bool" where
  "IsHealthy le = le_healthy le"

text \<open>\<open>le_jobs\<close> counts the goroutines started with the leader function.\<close>

definition startLeading :: "LeaderElector \<Rightarrow> LeaderElector res io" where
  "startLeading le = do {
     _ \<leftarrow> metric (Set IsLeader [le_lock le] 1);
     ret (Ok (le\<lparr>le_jobs := Suc (le_jobs le)\<rparr>)) }"

definition stopLeading :: "LeaderElector \<Rightarrow> LeaderElector res io" where
  "stopLeading le = do {
     _ \<leftarrow> metric (Set IsLeader [le_lock le] 0);
     ret (case close_channel (le_stopChan le) of
            Ok c \<Rightarrow> Ok (le\<lparr>le_healthy := False, le_stopChan := c\<rparr>)
          | Err err \<Rightarrow> Err err
          | Panic \<Rightarrow> Panic) }"

datatype leader_callback = StartedLeading | StoppedLeading | NewLeader string

fun run_callbacks :: "leader_callback list \<Rightarrow> LeaderElector \<Rightarrow> LeaderElector res io" where
  "run_callbacks [] le = ret (Ok le)"
| "run_callbacks (StartedLeading # cbs) le = check (startLeading le) (run_callbacks cbs)"
| "run_callbacks (StoppedLeading # cbs) le = check (stopLeading le) (run_callbacks cbs)"
| "run_callbacks (NewLeader who # cbs) le = run_callbacks cbs le"

definition RunLeaderElection :: "leader_callback list \<Rightarrow> LeaderElector \<Rightarrow> LeaderElector res io" where
  "RunLeaderElection cbs le = do {
     _ \<leftarrow> metric (Inc LeaseElectionAttempts [le_lock le]);
     run_callbacks cbs le }"

text \<open>
  What client-go documents of one \<^verbatim>\<open>RunOrDie\<close>: it starts leading at most once, and calls
  \<^verbatim>\<open>OnStoppedLeading\<close> once, when it returns, which it also does when it never led. The other two
  callbacks run in goroutines of their own and may come later.
\<close>

definition election_trace :: "leader_callback list \<Rightarrow> bool" where
  "election_trace cbs \<longleftrightarrow> count_list cbs StoppedLeading \<le> 1 \<and> count_list cbs StartedLeading \<le> 1"

fun is_transition :: "leader_callback \<Rightarrow> bool" where
  "is_transition (NewLeader who) = False"
| "is_transition cb = True"

section \<open>Losing the lead\<close>

text \<open>The last value that a gauge was set to by a list of events.\<close>

fun gauge :: "metric \<Rightarrow> string list \<Rightarrow> int \<Rightarrow> event list \<Rightarrow> int" where
  "gauge m ls v [] = v"
| "gauge m ls v (Metric (Set m' ls' v') # es) = gauge m ls (if m' = m \<and> ls' = ls then v' else v) es"
| "gauge m ls v (e # es) = gauge m ls v es"

lemma count_list_zero_iff: "count_list xs x = 0 \<longleftrightarrow> x \<notin> set xs"
  by (simp add: count_list_0_iff)

lemma emits_run_callbacks:
  "count_list cbs StoppedLeading + of_bool (le_stopChan le) \<le> 1 \<Longrightarrow>
   emits (run_callbacks cbs le) (\<lambda>r es. \<exists>le'. r = Ok le' \<and>
     le_healthy le' = (le_healthy le \<and> StoppedLeading \<notin> set cbs) \<and>
     le_stopChan le' = (le_stopChan le \<or> StoppedLeading \<in> set cbs) \<and>
     le_jobs le' = le_jobs le + count_list cbs StartedLeading \<and>
     gauge IsLeader [le_lock le] v es =
       (case rev (filter is_transition cbs) of [] \<Rightarrow> v | cb # _ \<Rightarrow> of_bool (cb = StartedLeading)))"
proof (induction cbs le arbitrary: v rule: run_callbacks.induct)
  case (1 le)
  show ?case
    by (simp add: emits_return)
next
  case (2 cbs le)
  from 2 show ?case
    unfolding run_callbacks.simps startLeading_def
    apply (intro emits_intro)
    apply simp
    apply (rule emits_conseq [OF "2.IH" [of _ 1]])
     apply (auto split: list.splits simp: Cons_eq_append_conv)
    done
next
  case (3 cbs le)
  then have "\<not> le_stopChan le" "StoppedLeading \<notin> set cbs"
    by (auto simp: count_list_zero_iff [symmetric])
  then show ?case
    unfolding run_callbacks.simps stopLeading_def close_channel_def
    apply (intro emits_intro)
    apply simp
    apply (rule emits_conseq [OF "3.IH" [of _ 0]])
     apply (auto split: list.splits simp: Cons_eq_append_conv count_list_zero_iff)
    done
next
  case (4 who cbs le)
  from "4.IH" [of v] "4.prems" show ?case
    by (simp cong: if_cong)
qed

text \<open>
  C37. Losing the lead takes the pod down and nothing else does: whatever the order in which the
  callbacks of the one election arrive, the elector never panics, its liveness probe fails exactly
  when it has stopped leading, the stop channel is closed exactly then, at most one job is started,
  and the leader gauge is 1 exactly when the last of the two transitions was to lead.
\<close>

theorem lost_lead_fails_liveness:
  assumes "election_trace cbs"
  shows "emits (RunLeaderElection cbs (NewLeaderElector lock podName)) (\<lambda>r es. \<exists>le. r = Ok le \<and>
     livenessHandler (IsHealthy le) = (if StoppedLeading \<in> set cbs then 500 else 200) \<and>
     le_stopChan le = (StoppedLeading \<in> set cbs) \<and> le_jobs le = count_list cbs StartedLeading \<and>
     le_jobs le \<le> 1 \<and>
     gauge IsLeader [lock] 0 es =
       (case rev (filter is_transition cbs) of [] \<Rightarrow> 0 | cb # _ \<Rightarrow> of_bool (cb = StartedLeading)))"
  unfolding RunLeaderElection_def
  apply (rule emits_bind, rule emits_metric)
  apply (rule emits_conseq, rule emits_run_callbacks [where v = 0])
  using assms
   apply (simp add: election_trace_def NewLeaderElector_def)
  using assms
  apply (auto simp: election_trace_def NewLeaderElector_def livenessHandler_def IsHealthy_def split: list.splits)
  done

lemma lost_lead_fails_liveness_witness:
  "\<exists>le. fst (run_state (RunLeaderElection [NewLeader ''a'', StartedLeading, StoppedLeading]
     (NewLeaderElector ''lock'' ''pod'')) []) = Ok le \<and> livenessHandler (IsHealthy le) = 500"
proof -
  have "election_trace [NewLeader ''a'', StartedLeading, StoppedLeading]"
    by (simp add: election_trace_def)
  from emits_run [OF lost_lead_fails_liveness [OF this, of "''lock''" "''pod''"]] show ?thesis
    by auto
qed

end
