(* ===== verification/Logging.thy ===== *)
theory Logging
  imports Config
begin

text \<open>
  Packages \<^verbatim>\<open>pkg/logger\<close> and \<^verbatim>\<open>pkg/sentry\<close>: which lines a configured logger writes, which of them its
  hook reports to Sentry, how lines of client-go are classified, and the reporting service. logrus
  writes a line and runs its hooks when the level of the line is enabled; its levels are ordered
  from panic to trace.
\<close>

section \<open>Levels\<close>

fun level_num :: "log_level \<Rightarrow> nat" where
  "level_num PanicLevel = 0"
| "level_num FatalLevel = 1"
| "level_num ErrorLevel = 2"
| "level_num WarnLevel = 3"
| "level_num InfoLevel = 4"
| "level_num DebugLevel = 5"
| "level_num TraceLevel = 6"

instantiation log_level :: linorder
begin

definition less_eq_log_level :: "log_level \<Rightarrow> log_level \<Rightarrow> bool" where
  "less_eq_log_level l m \<longleftrightarrow> level_num l \<le> level_num m"

definition less_log_level :: "log_level \<Rightarrow> log_level \<Rightarrow> bool" where
  "less_log_level l m \<longleftrightarrow> level_num l < level_num m"

instance
proof
  fix l m :: log_level
  show "l \<le> m \<Longrightarrow> m \<le> l \<Longrightarrow> l = m"
    by (cases l; cases m) (simp_all add: less_eq_log_level_def)
qed (auto simp: less_eq_log_level_def less_log_level_def)

end

lemmas level_order = less_eq_log_level_def less_log_level_def

section \<open>Entries and the hook\<close>

text \<open>A field of an entry: an error, or another value by its text under \<^verbatim>\<open>%v\<close>.\<close>

datatype log_field = ErrField goerr | TextField string

fun field_text :: "log_field \<Rightarrow> string" where
  "field_text (ErrField err) = err_msg err"
| "field_text (TextField s) = s"

record log_entry =
  en_Level :: log_level
  en_Message :: string
  en_Data :: "(string \<times> log_field) list"

datatype sentry_level = LevelFatal | LevelError | LevelWarning | LevelInfo | LevelDebug

record sentry_event =
  se_Message :: string
  se_Level :: sentry_level
  se_Tags :: "(string \<times> string) list"
  se_Exception :: "string list"

fun sentryLevel :: "log_level \<Rightarrow> sentry_level" where
  "sentryLevel PanicLevel = LevelFatal"
| "sentryLevel FatalLevel = LevelFatal"
| "sentryLevel ErrorLevel = LevelError"
| "sentryLevel WarnLevel = LevelWarning"
| "sentryLevel InfoLevel = LevelInfo"
| "sentryLevel _ = LevelDebug"

definition NewSentryHook :: "log_level list" where
  "NewSentryHook = [PanicLevel, FatalLevel, ErrorLevel]"

text \<open>What \<^verbatim>\<open>Fire\<close> sends, given whether Sentry has a client; of an error only its text is kept here.\<close>

definition Fire :: "bool \<Rightarrow> log_entry \<Rightarrow> sentry_event list" where
  "Fire has_client entry =
     (if \<not> has_client then []
      else [\<lparr>se_Message = en_Message entry, se_Level = sentryLevel (en_Level entry),
             se_Tags = map (\<lambda>(k, v). (k, field_text v)) (en_Data entry),
             se_Exception = (case map_of (en_Data entry) ''error'' of
                               Some (ErrField err) \<Rightarrow> [err_msg err]
                             | _ \<Rightarrow> [])\<rparr>])"

section \<open>The logger\<close>

text \<open>A logger: its level, and the levels of the Sentry hook when it has one.\<close>

record logger =
  lg_level :: log_level
  lg_hook :: "log_level list option"

definition new_logger :: logger where
  "new_logger = \<lparr>lg_level = InfoLevel, lg_hook = None\<rparr>"

text \<open>One line: whether it is written, and what is reported.\<close>

definition log_line :: "logger \<Rightarrow> bool \<Rightarrow> log_entry \<Rightarrow> bool \<times> sentry_event list" where
  "log_line lg has_client entry =
     (if en_Level entry \<le> lg_level lg
      then (True, case lg_hook lg of
                    None \<Rightarrow> []
                  | Some levels \<Rightarrow> if en_Level entry \<in> set levels then Fire has_client entry else [])
      else (False, []))"

text \<open>The new logger, and the warning it writes about an unknown level before its level is set.\<close>

definition Initialize :: "Config \<Rightarrow> logger \<times> log_entry list" where
  "Initialize cfg =
     (case GetLogLevel (LogLevel cfg) of
        (level, err) \<Rightarrow>
          (\<lparr>lg_level = (if err \<noteq> None then InfoLevel else level),
            lg_hook = (if Sentry cfg then Some NewSentryHook else None)\<rparr>,
           case err of
             None \<Rightarrow> []
           | Some e \<Rightarrow> [\<lparr>en_Level = WarnLevel,
                          en_Message = Sprintf ''unknown log level %q, defaulting to info: %v''
                                         [LogLevel cfg, err_msg e],
                          en_Data = []\<rparr>]))"

section \<open>Lines of client-go\<close>

text \<open>The two regular expressions of \<^verbatim>\<open>Write\<close>: a word or a substring, ignoring case.\<close>

definition word_char :: "char \<Rightarrow> bool" where
  "word_char c = (c = CHR ''_'' \<or> is_digit c \<or>
     97 \<le> (of_char (lower_char c) :: nat) \<and> (of_char (lower_char c) :: nat) \<le> 122)"

definition boundary :: "string \<Rightarrow> nat \<Rightarrow> bool" where
  "boundary s i \<longleftrightarrow> (0 < i \<and> word_char (s ! (i - 1))) \<noteq> (i < length s \<and> word_char (s ! i))"

definition found_at :: "string \<Rightarrow> string \<Rightarrow> nat \<Rightarrow> bool" where
  "found_at w s i \<longleftrightarrow> map lower_char (take (length w) (drop i s)) = w"

definition match_word :: "string \<Rightarrow> string \<Rightarrow> bool" where
  "match_word w s \<longleftrightarrow>
     (\<exists>i \<in> set [0..<Suc (length s)]. found_at w s i \<and> boundary s i \<and> boundary s (i + length w))"

definition match_text :: "string \<Rightarrow> string \<Rightarrow> bool" where
  "match_text w s \<longleftrightarrow> (\<exists>i \<in> set [0..<Suc (length s)]. found_at w s i)"

definition Write_line :: "string \<Rightarrow> log_entry" where
  "Write_line message =
     \<lparr>en_Level = (if match_word ''error'' message then ErrorLevel
                  else if match_word ''warn'' message \<or> match_text ''warning'' message then WarnLevel
                  else InfoLevel),
      en_Message = message, en_Data = []\<rparr>"

section \<open>The reporting service\<close>

record SentryImpl =
  si_dsn :: string
  si_environment :: string
  si_enabled :: bool

definition NewSentry :: "string \<Rightarrow> bool \<Rightarrow> string \<Rightarrow> SentryImpl" where
  "NewSentry dsn sentryEnabled environment =
     \<lparr>si_dsn = dsn, si_environment = environment, si_enabled = sentryEnabled\<rparr>"

datatype sentry_report = Exception goerr | Message string

definition CaptureError :: "SentryImpl \<Rightarrow> goerr \<Rightarrow> sentry_report list" where
  "CaptureError s err = (if si_enabled s then [Exception err] else [])"

definition CaptureMessage :: "SentryImpl \<Rightarrow> string \<Rightarrow> sentry_report list" where
  "CaptureMessage s msg = (if si_enabled s then [Message msg] else [])"

text \<open>
  \<^verbatim>\<open>initSentry\<close> ends the process with status 1 through \<^verbatim>\<open>Fatalf\<close> when the client cannot be set up;
  the result is whether Sentry then has a client.
\<close>

datatype startup = Started bool | Exited nat

definition initSentry :: "(SentryImpl \<Rightarrow> goerr option) \<Rightarrow> SentryImpl \<Rightarrow> startup" where
  "initSentry sentry_Init s =
     (case sentry_Init s of Some err \<Rightarrow> Exited 1 | None \<Rightarrow> Started True)"

definition StartSentry :: "(SentryImpl \<Rightarrow> goerr option) \<Rightarrow> SentryImpl \<Rightarrow> startup" where
  "StartSentry sentry_Init s = (if si_enabled s then initSentry sentry_Init s else Started False)"

section \<open>No configuration silences an error\<close>

lemma Initialize_level:
  "lg_level (fst (Initialize cfg)) \<in> {DebugLevel, InfoLevel, WarnLevel}"
  by (auto simp: Initialize_def GetLogLevel_def split: option.splits if_splits)

lemma Initialize_hook:
  "lg_hook (fst (Initialize cfg)) = (if Sentry cfg then Some NewSentryHook else None)"
  by (simp add: Initialize_def split: prod.split)

lemma warnings_written: "en_Level entry \<le> WarnLevel \<Longrightarrow> fst (log_line (fst (Initialize cfg)) c entry)"
  using Initialize_level [of cfg] by (auto simp: log_line_def level_order)

lemma NewSentryHook_iff: "l \<in> set NewSentryHook \<longleftrightarrow> l \<le> ErrorLevel"
  by (cases l) (simp_all add: NewSentryHook_def level_order)

lemma reported_iff:
  "snd (log_line (fst (Initialize cfg)) c entry) =
     (if Sentry cfg \<and> en_Level entry \<le> ErrorLevel then Fire c entry else [])"
  using warnings_written [of entry cfg c]
  by (cases "en_Level entry \<le> ErrorLevel") (auto simp: log_line_def Initialize_hook NewSentryHook_iff level_order split: if_splits)

lemma match_word_append:
  assumes "map lower_char w' = w" "w \<noteq> []"
    and "pre = [] \<or> \<not> word_char (last pre)" "post = [] \<or> \<not> word_char (hd post)"
    and "word_char (hd w')" "word_char (last w')"
  shows "match_word w (pre @ w' @ post)"
  unfolding match_word_def
proof (rule bexI [of _ "length pre"], intro conjI)
  have [simp]: "length w = length w'" "w' \<noteq> []"
    using assms by auto
  show "found_at w (pre @ w' @ post) (length pre)"
    using assms(1) by (simp add: found_at_def)
  show "boundary (pre @ w' @ post) (length pre)"
    using assms(3,5) by (cases pre rule: rev_cases) (auto simp: boundary_def nth_append hd_conv_nth)
  show "boundary (pre @ w' @ post) (length pre + length w)"
    using assms(4,6) \<open>w' \<noteq> []\<close>
    by (cases w' rule: rev_cases; cases post) (auto simp: boundary_def nth_append)
qed simp

text \<open>
  A word of word characters is matched exactly where it occurs, in any case of letters, with no word
  character right before or right after it; the ends of the line count as such places.
\<close>

lemma word_ends: "list_all word_char w \<Longrightarrow> w \<noteq> [] \<Longrightarrow> word_char (hd w) \<and> word_char (last w)"
  by (simp add: list_all_iff)

lemma word_char_lower [simp]: "word_char (lower_char c) = word_char c"
proof (cases "65 \<le> (of_char c :: nat) \<and> (of_char c :: nat) \<le> 90")
  case True
  then have "of_char (lower_char c) = (of_char c + 32 :: nat)"
    by (simp add: lower_char_def)
  then have "word_char (lower_char c)" "word_char c"
    using True by (simp_all add: word_char_def)
  then show ?thesis
    by simp
qed (auto simp: lower_char_def)

lemma match_word_iff:
  assumes "w \<noteq> []" "list_all word_char w"
  shows "match_word w s \<longleftrightarrow> (\<exists>pre w' post. s = pre @ w' @ post \<and> map lower_char w' = w \<and>
     (pre = [] \<or> \<not> word_char (last pre)) \<and> (post = [] \<or> \<not> word_char (hd post)))"
proof
  assume "match_word w s"
  then obtain i where i: "found_at w s i" "map lower_char (take (length w) (drop i s)) = w"
    "boundary s i" "boundary s (i + length w)"
    unfolding match_word_def found_at_def by blast
  let ?w = "take (length w) (drop i s)"
  have len: "length ?w = length w" "?w \<noteq> []"
    using i(2) assms(1) by (metis length_map, metis list.map_disc_iff)
  then have fits: "i + length w \<le> length s" "i < length s"
    using assms(1) by (auto simp: min_def split: if_splits)
  have ends: "word_char (s ! i)" "word_char (s ! (i + length w - 1))"
  proof -
    have "word_char (?w ! j)" if "j < length w" for j
      using assms(2) i(2) that len(1) word_char_lower [of "?w ! j"] by (metis list_all_length nth_map)
    moreover have "i + length w - 1 = i + (length w - 1)"
      using assms(1) by (cases w) simp_all
    ultimately show "word_char (s ! i)" "word_char (s ! (i + length w - 1))"
      using assms(1) fits by fastforce+
  qed
  have "take i s = [] \<or> \<not> word_char (last (take i s))"
    using i(3) ends(1) fits by (auto simp: boundary_def last_conv_nth)
  moreover have "drop (i + length w) s = [] \<or> \<not> word_char (hd (drop (i + length w) s))"
    using i(4) ends(2) fits assms(1) by (auto simp: boundary_def hd_drop_conv_nth)
  moreover have "s = take i s @ ?w @ drop (i + length w) s"
    by (metis append_take_drop_id drop_drop add.commute)
  ultimately show "\<exists>pre w' post. s = pre @ w' @ post \<and> map lower_char w' = w \<and>
      (pre = [] \<or> \<not> word_char (last pre)) \<and> (post = [] \<or> \<not> word_char (hd post))"
    using i(2) by blast
next
  assume "\<exists>pre w' post. s = pre @ w' @ post \<and> map lower_char w' = w \<and>
     (pre = [] \<or> \<not> word_char (last pre)) \<and> (post = [] \<or> \<not> word_char (hd post))"
  then obtain pre w' post where s: "s = pre @ w' @ post" and w: "map lower_char w' = w"
    and ends: "pre = [] \<or> \<not> word_char (last pre)" "post = [] \<or> \<not> word_char (hd post)"
    by blast
  have "list_all word_char w'" "w' \<noteq> []"
    using assms w by (auto simp: list_all_iff)
  then show "match_word w s"
    unfolding s using match_word_append [OF w assms(1) ends] word_ends [of w'] by simp
qed

lemma level_if:
  "(if b then ErrorLevel else if b' then WarnLevel else InfoLevel) = ErrorLevel \<longleftrightarrow> b"
  by simp

text \<open>
  C39. No configuration silences an error: whatever log level and Sentry settings are read, a line of
  level warning or worse is written; it is reported to Sentry exactly when Sentry is on and has a
  client and the line is an error or worse, with the level error for errors and fatal for worse ones.
  And of the lines that the writer for client-go classifies, errors are exactly those with the word
  error in them, in any case of letters, at the start or the end of the line or between characters
  that do not belong to words.
\<close>

theorem errors_are_reported:
  "(en_Level entry \<le> WarnLevel \<longrightarrow> fst (log_line (fst (Initialize cfg)) has_client entry)) \<and>
   map se_Level (snd (log_line (fst (Initialize cfg)) has_client entry)) =
     (if Sentry cfg \<and> has_client \<and> en_Level entry \<le> ErrorLevel
      then [if en_Level entry = ErrorLevel then LevelError else LevelFatal] else []) \<and>
   (en_Level (Write_line message) = ErrorLevel \<longleftrightarrow> (\<exists>pre w post. message = pre @ w @ post \<and>
      map lower_char w = ''error'' \<and> (pre = [] \<or> \<not> word_char (last pre)) \<and> (post = [] \<or> \<not> word_char (hd post))))"
proof (intro conjI impI)
  show "map se_Level (snd (log_line (fst (Initialize cfg)) has_client entry)) =
     (if Sentry cfg \<and> has_client \<and> en_Level entry \<le> ErrorLevel
      then [if en_Level entry = ErrorLevel then LevelError else LevelFatal] else [])"
    by (cases "en_Level entry") (simp_all add: reported_iff Fire_def level_order)
next
  have "list_all word_char ''error''" "''error'' \<noteq> []"
    by code_simp+
  from match_word_iff [OF this(2,1), of message]
  show "en_Level (Write_line message) = ErrorLevel \<longleftrightarrow> (\<exists>pre w post. message = pre @ w @ post \<and>
      map lower_char w = ''error'' \<and> (pre = [] \<or> \<not> word_char (last pre)) \<and> (post = [] \<or> \<not> word_char (hd post)))"
    by (simp only: Write_line_def log_entry.simps level_if)
qed (rule warnings_written)

lemma errors_are_reported_witness:
  "fst (log_line (fst (Initialize default_config)) True (Write_line ''Error: failed to renew lease''))"
proof -
  have parts: "''Error: failed to renew lease'' = [] @ ''Error'' @ '': failed to renew lease''"
    "map lower_char ''Error'' = ''error''" "\<not> word_char (hd '': failed to renew lease'')"
    by code_simp+
  have "\<exists>pre w post. ''Error: failed to renew lease'' = pre @ w @ post \<and> map lower_char w = ''error'' \<and>
      (pre = [] \<or> \<not> word_char (last pre)) \<and> (post = [] \<or> \<not> word_char (hd post))"
    by (intro exI conjI, rule parts(1), rule parts(2), rule disjI1, rule refl, rule disjI2, rule parts(3))
  then have "en_Level (Write_line ''Error: failed to renew lease'') = ErrorLevel"
    by (rule errors_are_reported [THEN conjunct2, THEN conjunct2, THEN iffD2])
  then have "level_num (en_Level (Write_line ''Error: failed to renew lease'')) \<le> level_num WarnLevel"
    by (simp only: level_num.simps)
  then show ?thesis
    by (intro errors_are_reported [THEN conjunct1, rule_format]) (simp only: less_eq_log_level_def)
qed

text \<open>The sample rate is stored in the hook and never read: it changes nothing.\<close>

lemma sample_rate_ignored: "Initialize (cfg\<lparr>SentrySampleRate := rate\<rparr>) = Initialize cfg"
  by (simp add: Initialize_def split: option.split prod.split)

end
