(* ===== verification/Controller.thy ===== *)
theory Controller
  imports Leadership Logging
begin

text \<open>
  The file \<^verbatim>\<open>main.go\<close> and package \<^verbatim>\<open>pkg/controller\<close>: start-up, and which services each mode runs. The
  services themselves are modelled in other theories; here each is a value, and the outcome of
  waiting for a group of them, if the wait ends, is a parameter. Theory \<^verbatim>\<open>Service_Group\<close> says when it does.
\<close>

section \<open>Services\<close>

record LeaseLock =
  ll_Name :: string
  ll_Namespace :: string
  ll_Identity :: string

definition NewLock :: "string \<Rightarrow> string \<Rightarrow> string \<Rightarrow> LeaseLock" where
  "NewLock lockName podname namespace =
     \<lparr>ll_Name = lockName, ll_Namespace = namespace, ll_Identity = podname\<rparr>"

text \<open>What a mode starts; a health server has a liveness probe or not.\<close>

datatype service =
    HealthServer bool
  | MetricsServer
  | Webhook
  | Election LeaseLock
  | NRIAgent
  | IdleUntilShutdown

text \<open>The TCP ports that a service listens on.\<close>

fun service_ports :: "service \<Rightarrow> nat list" where
  "service_ports (HealthServer live) = [8888]"
| "service_ports MetricsServer = [8080]"
| "service_ports Webhook = [8443, 8080]"
| "service_ports _ = []"

text \<open>
  The surroundings of a run: the environment variables, the outcome of \<^verbatim>\<open>Wait\<close> for a group of
  services, and the order in which the modes of mode \<^verbatim>\<open>all\<close> finish.
\<close>

record surround =
  sr_getenv :: "string \<Rightarrow> string"
  sr_wait :: "service list \<Rightarrow> goerr option"
  sr_order :: "nat list"

text \<open>What a run started, and the error it returned.\<close>

type_synonym run_result = "service list \<times> goerr option"

section \<open>The modes\<close>

definition warnLegacyMode :: "Config \<Rightarrow> bool" where
  "warnLegacyMode cfg \<longleftrightarrow> \<not> UseProjectedSA cfg \<and> \<not> nri_Enabled (NRI cfg)"

definition buildLock :: "surround \<Rightarrow> string \<Rightarrow> (string \<times> LeaseLock) res" where
  "buildLock W lockName =
     (case GetHAEnvs (sr_getenv W) of
        Ok (podName, podNamespace) \<Rightarrow> Ok (podName, NewLock lockName podName podNamespace)
      | Err err \<Rightarrow> Err err
      | Panic \<Rightarrow> Panic)"

definition RunInjector :: "surround \<Rightarrow> Config \<Rightarrow> run_result io" where
  "RunInjector W cfg = ret (let g = [HealthServer False, Webhook] in (g, sr_wait W g))"

text \<open>\<^verbatim>\<open>RunRenewer\<close> and \<^verbatim>\<open>RunRevoker\<close> differ in the lock and in the job of the leader.\<close>

definition run_elected :: "surround \<Rightarrow> string \<Rightarrow> run_result io" where
  "run_elected W lockName =
     (case buildLock W lockName of
        Ok (podName, lock) \<Rightarrow> do {
          _ \<leftarrow> metric (Set IsLeader [ll_Name lock] 0);
          ret (let g = [Election lock, MetricsServer, HealthServer True] in (g, sr_wait W g)) }
      | Err err \<Rightarrow> ret ([], Some (Wrap err ''failed to build leader election lock''))
      | Panic \<Rightarrow> ret ([], None))"

definition RunRenewer :: "surround \<Rightarrow> run_result io" where
  "RunRenewer W = run_elected W ''lock-injector-renewer''"

definition RunRevoker :: "surround \<Rightarrow> run_result io" where
  "RunRevoker W = run_elected W ''lock-injector-revoker''"

definition RunNRI :: "surround \<Rightarrow> Config \<Rightarrow> run_result io" where
  "RunNRI W cfg =
     (if \<not> nri_Enabled (NRI cfg) then ret ([IdleUntilShutdown], Some ContextCanceled)
      else ret (let g = [HealthServer False, MetricsServer, NRIAgent]
                in (g, case sr_wait W g of
                         Some err \<Rightarrow> if err_is err ContextCanceled then None else Some err
                       | None \<Rightarrow> None)))"

text \<open>\<^verbatim>\<open>errgroup\<close>: the first error in the order in which the members finish.\<close>

definition errgroup_Wait :: "nat list \<Rightarrow> goerr option list \<Rightarrow> goerr option" where
  "errgroup_Wait order results =
     (case filter (\<lambda>i. i < length results \<and> results ! i \<noteq> None) order of
        [] \<Rightarrow> None
      | i # _ \<Rightarrow> results ! i)"

definition dispatch :: "surround \<Rightarrow> Config \<Rightarrow> run_result res io" where
  "dispatch W cfg =
     (let m = cfg_Mode cfg
      in if m = ModeInjector then do { r \<leftarrow> RunInjector W cfg; ret (Ok r) }
         else if m = ModeRenewer then do { r \<leftarrow> RunRenewer W; ret (Ok r) }
         else if m = ModeRevoker then do { r \<leftarrow> RunRevoker W; ret (Ok r) }
         else if m = ModeNRI then do { r \<leftarrow> RunNRI W cfg; ret (Ok r) }
         else if m = ModeAll then do {
           i \<leftarrow> RunInjector W cfg;
           r \<leftarrow> RunRenewer W;
           v \<leftarrow> RunRevoker W;
           n \<leftarrow> (if nri_Enabled (NRI cfg) then RunNRI W cfg else ret ([], None));
           ret (Ok (fst i @ fst r @ fst v @ fst n,
                    errgroup_Wait (sr_order W) [snd i, snd r, snd v, snd n])) }
         else ret (Err (Newf ''unknown mode %q'' [m])))"

section \<open>The process\<close>

text \<open>How \<^verbatim>\<open>run\<close> ends: it returns, or the start of Sentry ends the process.\<close>

datatype run_end = ReturnedOk | ReturnedErr goerr | ProcessExit nat

definition run_error :: "goerr option \<Rightarrow> run_end" where
  "run_error r =
     (case r of
        None \<Rightarrow> ReturnedOk
      | Some err \<Rightarrow> if err_is err ContextCanceled then ReturnedOk else ReturnedErr err)"

definition run ::
  "env \<Rightarrow> (string \<Rightarrow> Config \<Rightarrow> goerr + Config) \<Rightarrow> (Config \<Rightarrow> goerr + Config) \<Rightarrow>
   (SentryImpl \<Rightarrow> goerr option) \<Rightarrow> surround \<Rightarrow> string \<Rightarrow> (service list \<times> run_end) io" where
  "run E yaml_Unmarshal envconfig_Process sentry_Init W cfgFile = do {
     c \<leftarrow> NewConfig E yaml_Unmarshal envconfig_Process cfgFile;
     case c of
       Err err \<Rightarrow> ret ([], ReturnedErr (Wrap err ''could not parse config file''))
     | Panic \<Rightarrow> ret ([], ProcessExit 2)
     | Ok cfg \<Rightarrow>
         (case StartSentry sentry_Init (NewSentry (SentryDsn cfg) (Sentry cfg) (SentryEnvironment cfg)) of
            Exited code \<Rightarrow> ret ([], ProcessExit code)
          | Started has_client \<Rightarrow> do {
              k \<leftarrow> GetKubernetesClient E;
              case k of
                Err err \<Rightarrow> ret ([], ReturnedErr (Wrap err ''unable to create Kubernetes client''))
              | _ \<Rightarrow> do {
                  d \<leftarrow> dispatch W cfg;
                  ret (case d of
                         Ok (services, r) \<Rightarrow> (services, run_error r)
                       | Err err \<Rightarrow> ([], ReturnedErr err)
                       | Panic \<Rightarrow> ([], ProcessExit 2)) } }) }"

fun exit_status :: "run_end \<Rightarrow> nat" where
  "exit_status ReturnedOk = 0"
| "exit_status (ReturnedErr err) = 1"
| "exit_status (ProcessExit code) = code"

section \<open>Ports\<close>

definition ports :: "service list \<Rightarrow> nat list" where
  "ports services = concat (map service_ports services)"

lemma GetHAEnvs_no_panic [simp]: "GetHAEnvs getenv \<noteq> Panic"
  by (simp add: GetHAEnvs_def Let_def)

definition elected :: "surround \<Rightarrow> string \<Rightarrow> run_result" where
  "elected W lockName =
     (case GetHAEnvs (sr_getenv W) of
        Ok (podName, ns) \<Rightarrow>
          (let g = [Election (NewLock lockName podName ns), MetricsServer, HealthServer True] in (g, sr_wait W g))
      | Err err \<Rightarrow> ([], Some (Wrap err ''failed to build leader election lock''))
      | Panic \<Rightarrow> ([], None))"

lemma emits_run_elected: "emits (run_elected W lockName) (\<lambda>r es. r = elected W lockName)"
  unfolding run_elected_def buildLock_def elected_def
  by (auto simp: Let_def split: res.split prod.split intro!: emits_intro)

lemma emits_bind_value:
  "emits m (\<lambda>r es. r = v) \<Longrightarrow> (\<And>es. emits (k v) (\<lambda>b es'. P b (es @ es'))) \<Longrightarrow> emits (m \<bind> k) P"
  by (rule emits_bind, erule emits_conseq) auto

lemma ports_elected: "distinct (ports (fst (elected W lockName)))"
  and ports_elected_count: "GetHAEnvs (sr_getenv W) = Ok envs \<Longrightarrow> ports (fst (elected W lockName)) = [8080, 8888]"
  by (auto simp: elected_def ports_def Let_def split: res.split prod.split)

lemma ports_simps [simp]: "ports [] = []" "ports (x # xs) = service_ports x @ ports xs"
  "ports (xs @ ys) = ports xs @ ports ys"
  by (simp_all add: ports_def)

text \<open>
  C40. A configuration that passes validation never ends in an unknown mode. Every single mode binds
  each of its ports once. Mode \<^verbatim>\<open>all\<close> does not: with the pod's name and namespace known it wants the
  health port and the metrics port three times, and once more with NRI, of which one server each
  can get it.
\<close>

theorem dispatch_ports:
  assumes "Validate cfg = None"
  shows "emits (dispatch W cfg) (\<lambda>d es. \<exists>s. d = Ok s \<and>
     (if cfg_Mode cfg \<noteq> ModeAll then distinct (ports (fst s))
      else (\<forall>envs. GetHAEnvs (sr_getenv W) = Ok envs \<longrightarrow>
              count_list (ports (fst s)) 8888 = 3 + of_bool (nri_Enabled (NRI cfg)) \<and>
              count_list (ports (fst s)) 8080 = 3 + of_bool (nri_Enabled (NRI cfg)))))"
proof -
  have "cfg_Mode cfg \<in> {ModeAll, ModeInjector, ModeRenewer, ModeRevoker, ModeNRI}"
    using assms by (auto simp: Validate_None_iff validate_checks_def)
  then show ?thesis
    unfolding dispatch_def Let_def RunInjector_def RunRenewer_def RunRevoker_def RunNRI_def
    by (auto simp del: split_paired_Ex simp: ModeAll_def ModeInjector_def ModeRenewer_def ModeRevoker_def ModeNRI_def
        ports_elected ports_elected_count
        intro!: emits_intro emits_bind_value [OF emits_run_elected])
qed

lemma no_kube:
  "\<forall>e \<in> set es. call_of e = C_read_file \<Longrightarrow> KubeClient r \<notin> set es"
  "\<forall>e \<in> set es. call_of e = C_metric \<Longrightarrow> KubeClient r \<notin> set es"
  by auto

lemma StartSentry_exit: "StartSentry sentry_Init s = Exited code \<Longrightarrow> code = 1"
  by (simp add: StartSentry_def initSentry_def split: if_splits option.splits)

text \<open>
  C18. Nothing is served before the start-up checks have passed: a service is started only after the
  Kubernetes client was built; when that fails no service is started and the process ends with
  status 1; and a run that ends with status 0 has built the client.
\<close>

theorem run_checks_first:
  "emits (run E yaml_Unmarshal envconfig_Process sentry_Init W cfgFile) (\<lambda>(services, e) es.
     (services \<noteq> [] \<longrightarrow> KubeClient None \<in> set es) \<and>
     (\<forall>err. KubeClient (Some err) \<in> set es \<longrightarrow> services = [] \<and> exit_status e = 1) \<and>
     (exit_status e = 0 \<longrightarrow> KubeClient None \<in> set es))"
proof -
  have cfg: "calls {C_read_file} (NewConfig E yaml_Unmarshal envconfig_Process cfgFile)"
    unfolding NewConfig_def os_ReadFile_def
    by (auto split: option.splits)
  have d: "calls {C_metric} (dispatch W cfg)" for cfg
    unfolding dispatch_def RunInjector_def RunRenewer_def RunRevoker_def RunNRI_def run_elected_def Let_def
    by (auto split: res.splits prod.splits)
  show ?thesis
    unfolding run_def GetKubernetesClient_def
    apply (rule emits_bind, rule emits_calls [OF cfg])
    apply (auto simp: no_kube split: res.split startup.split dest: StartSentry_exit
        intro!: emits_intro emits_calls [OF d])
    done
qed

definition all_config :: Config where
  "all_config = default_config\<lparr>cfg_Mode := ModeAll, CertFile := ''/tls.crt'', KeyFile := ''/tls.key'',
     VaultAddress := ''https://vault:8200'', VaultAuthPath := ''kubernetes'', KubeRole := ''injector'',
     VaultSecretName := ''kv'', VaultSecretPrefix := ''injector''\<rparr>"

definition quiet :: surround where
  "quiet = \<lparr>sr_getenv = (\<lambda>_. ''x''), sr_wait = (\<lambda>_. None), sr_order = []\<rparr>"

lemma dispatch_ports_witness:
  "Validate all_config = None \<and> \<not> nri_Enabled (NRI all_config) \<and>
   (\<exists>s. fst (run_state (dispatch quiet all_config) []) = Ok s \<and> count_list (ports (fst s)) 8080 = 3)"
proof -
  have *: "Validate all_config = None" "\<not> nri_Enabled (NRI all_config)" "cfg_Mode all_config = ModeAll"
    "GetHAEnvs (sr_getenv quiet) = Ok (''x'', ''x'')"
    by code_simp+
  show ?thesis
    using emits_run [OF dispatch_ports [OF *(1), of quiet]] * by auto
qed

definition no_client :: client_go where
  "no_client = calm_client_go\<lparr>cg_NewForConfig := \<lambda>_. Some ContextCanceled\<rparr>"

lemma run_checks_first_witness:
  "exit_status (snd (fst (run_state (run (calm_env\<lparr>e_client_go := \<lambda>_. no_client\<rparr>)
     (\<lambda>_ c. Inr c) (\<lambda>_. Inr all_config) (\<lambda>_. None) quiet '''') []))) = 1"
proof -
  let ?E = "calm_env\<lparr>e_client_go := \<lambda>_. no_client\<rparr>"
  let ?run = "run_state (run ?E (\<lambda>_ c. Inr c) (\<lambda>_. Inr all_config) (\<lambda>_. None) quiet '''') []"
  have "KubeClient (Some ContextCanceled) \<in> set (snd ?run)"
    by code_simp
  then show ?thesis
    using emits_run [OF run_checks_first [of ?E "\<lambda>_ c. Inr c" "\<lambda>_. Inr all_config" "\<lambda>_. None" quiet "''''"]]
    by (auto simp: split_beta)
qed

end
