(* ===== verification/Webhook_Server.thy ===== *)
theory Webhook_Server
  imports Connector
begin

text \<open>
  File \<^verbatim>\<open>pkg/injector/injector.go\<close>: the set-up of the admission webhook, and the goroutines that it
  leaves behind as a step relation over one shared state. All of them close the same stop channel;
  closing it twice panics.
\<close>

section \<open>Set-up\<close>

definition webhookReadHeaderTimeout :: int where "webhookReadHeaderTimeout = 10 * 1000000000"
definition webhookReadTimeout :: int where "webhookReadTimeout = 30 * 1000000000"
definition webhookWriteTimeout :: int where "webhookWriteTimeout = 30 * 1000000000"
definition webhookIdleTimeout :: int where "webhookIdleTimeout = 120 * 1000000000"

record http_server =
  srv_Addr :: string
  srv_ReadHeaderTimeout :: int
  srv_ReadTimeout :: int
  srv_WriteTimeout :: int
  srv_IdleTimeout :: int

definition httpServer :: http_server where
  "httpServer =
     \<lparr>srv_Addr = ''0.0.0.0:8443'', srv_ReadHeaderTimeout = webhookReadHeaderTimeout,
      srv_ReadTimeout = webhookReadTimeout, srv_WriteTimeout = webhookWriteTimeout,
      srv_IdleTimeout = webhookIdleTimeout\<rparr>"

definition metricsServer :: http_server where
  "metricsServer =
     \<lparr>srv_Addr = '':8080'', srv_ReadHeaderTimeout = 10 * 1000000000,
      srv_ReadTimeout = 10 * 1000000000, srv_WriteTimeout = 10 * 1000000000,
      srv_IdleTimeout = webhookIdleTimeout\<rparr>"

definition caCertPath :: string where
  "caCertPath = ''/var/run/secrets/kubernetes.io/serviceaccount/ca.crt''"

definition GetKubernetesCACert :: "env \<Rightarrow> string res io" where
  "GetKubernetesCACert E = os_ReadFile E caCertPath"

text \<open>The constructors of the libraries: whether each of them fails.\<close>

record webhook_libs =
  lib_NewRecorder :: "goerr option"
  lib_NewWebhook :: "goerr option"
  lib_LoadX509KeyPair :: "string \<Rightarrow> string \<Rightarrow> goerr option"
  lib_HandlerFor :: "goerr option"

text \<open>
  The outcome of a set-up: the stop channel, what was reported to Sentry, and the result. An error
  closes the channel, which may have been closed by a cancellation meanwhile; an unreadable
  certificate file is only reported.
\<close>

record webhook_setup =
  su_stopChan :: bool
  su_reports :: "goerr list"
  su_result :: "unit res"

definition setup_failed :: "bool \<Rightarrow> goerr list \<Rightarrow> goerr \<Rightarrow> string \<Rightarrow> webhook_setup" where
  "setup_failed stopChan reports err msg =
     (if stopChan then \<lparr>su_stopChan = True, su_reports = reports, su_result = Panic\<rparr>
      else \<lparr>su_stopChan = True, su_reports = reports @ [err],
            su_result = Err (Newf (msg @ '': %w'') [err_msg err])\<rparr>)"

definition StartWebhook :: "env \<Rightarrow> webhook_libs \<Rightarrow> Config \<Rightarrow> bool \<Rightarrow> webhook_setup io" where
  "StartWebhook E L cfg stopChan =
     (case lib_NewRecorder L of
        Some err \<Rightarrow> ret (setup_failed stopChan [] err ''could not create Prometheus metrics recorder'')
      | None \<Rightarrow>
     (case lib_NewWebhook L of
        Some err \<Rightarrow> ret (setup_failed stopChan [] err ''error creating webhook'')
      | None \<Rightarrow>
     (case lib_LoadX509KeyPair L (CertFile cfg) (KeyFile cfg) of
        Some err \<Rightarrow> ret (setup_failed stopChan [] err ''failed to load server certificate'')
      | None \<Rightarrow> do {
          pool \<leftarrow> GetKubernetesCACert E;
          case pool of
            Err err \<Rightarrow> ret (setup_failed stopChan [] err ''failed to get Kubernetes CA certificate'')
          | _ \<Rightarrow> do {
          cert \<leftarrow> os_ReadFile E (CertFile cfg);
          let reports = (case cert of Err err \<Rightarrow> [err] | _ \<Rightarrow> []);
          case lib_HandlerFor L of
            Some err \<Rightarrow> ret (setup_failed stopChan reports err ''error creating webhook handler'')
          | None \<Rightarrow> ret \<lparr>su_stopChan = stopChan, su_reports = reports, su_result = Ok ()\<rparr> }})))"

text \<open>The recovery middleware: a panic of the handler becomes status 500 and a report.\<close>

definition SentryRecoveryMiddleware :: "('a + string) \<Rightarrow> ('a + nat) \<times> goerr list" where
  "SentryRecoveryMiddleware served =
     (case served of
        Inl response \<Rightarrow> (Inl response, [])
      | Inr panicked \<Rightarrow> (Inr 500, [Wrap (Newf panicked []) ''panic in webhook handler'']))"

text \<open>
  A set-up closes the channel exactly when it fails, reports every failure, and panics only when
  the channel was closed before; the bounds of the server are those that the API server needs.
\<close>

lemma StartWebhook_result:
  "emits (StartWebhook E L cfg stopChan) (\<lambda>su es.
     (su_stopChan su = (stopChan \<or> su_result su \<noteq> Ok ())) \<and>
     (\<forall>err. su_result su = Err err \<longrightarrow> \<not> stopChan \<and> su_reports su \<noteq> []) \<and>
     (su_result su = Panic \<longrightarrow> stopChan))"
  unfolding StartWebhook_def setup_failed_def GetKubernetesCACert_def os_ReadFile_def Let_def
  by (auto split: option.splits res.splits intro!: emits_intro)

lemma httpServer_bounds:
  "30 * 1000000000 \<le> srv_ReadTimeout httpServer \<and> 30 * 1000000000 \<le> srv_WriteTimeout httpServer \<and>
   90 * 1000000000 < srv_IdleTimeout httpServer"
  by (simp add: httpServer_def webhookReadTimeout_def webhookWriteTimeout_def webhookIdleTimeout_def)

section \<open>The goroutines\<close>

text \<open>
  Where each goroutine stands. A server goroutine serves, has got the error that ended serving in
  the variable \<^verbatim>\<open>err\<close> that both share, waits to send it, is about to close the channel, waits to send
  \<^verbatim>\<open>nil\<close>, or has ended; the third one selects between an error and the cancellation. A send on
  \<^verbatim>\<open>errCh\<close>, which has no buffer, takes place when the third goroutine receives.
\<close>

datatype serve_error = ServerClosed | Failed goerr

datatype server_pc = Serving | Returned | Sending serve_error | Closing | SendingNil | Ended

datatype watch_pc = Selecting | Received "serve_error option" | ShuttingDown | WatchClosing | WatchEnded

record injector =
  in_cancelled :: bool
  in_after :: bool
  in_stopChan :: bool
  in_err :: "serve_error option"
  in_shutdown :: bool
  in_webhook :: server_pc
  in_metrics :: server_pc
  in_watch :: watch_pc
  in_panicked :: bool
  in_exited :: bool

definition started :: injector where
  "started =
     \<lparr>in_cancelled = False, in_after = False, in_stopChan = False, in_err = None, in_shutdown = False,
      in_webhook = Serving, in_metrics = Serving, in_watch = Selecting,
      in_panicked = False, in_exited = False\<rparr>"

definition close_stop :: "injector \<Rightarrow> injector" where
  "close_stop s = (if in_stopChan s then s\<lparr>in_panicked := True\<rparr> else s\<lparr>in_stopChan := True\<rparr>)"

text \<open>
  \<open>cancel\<close> is the signal, \<open>after\<close> the bridge from the context to the channel in \<^verbatim>\<open>RunInjector\<close>, and
  \<open>exit\<close> the return of \<^verbatim>\<open>main\<close>, possible at any time after the cancellation. The metrics server is
  never shut down, the webhook server when the third goroutine sees the cancellation.
\<close>

inductive injector_step :: "injector \<Rightarrow> injector \<Rightarrow> bool" where
  cancel: "\<not> in_panicked s \<Longrightarrow> \<not> in_exited s \<Longrightarrow> \<not> in_cancelled s \<Longrightarrow>
    injector_step s (s\<lparr>in_cancelled := True\<rparr>)"
| after: "\<not> in_panicked s \<Longrightarrow> \<not> in_exited s \<Longrightarrow> in_cancelled s \<Longrightarrow> \<not> in_after s \<Longrightarrow>
    injector_step s (close_stop (s\<lparr>in_after := True\<rparr>))"
| exit: "\<not> in_panicked s \<Longrightarrow> \<not> in_exited s \<Longrightarrow> in_cancelled s \<Longrightarrow>
    injector_step s (s\<lparr>in_exited := True\<rparr>)"
| webhook_return: "\<not> in_panicked s \<Longrightarrow> \<not> in_exited s \<Longrightarrow> in_webhook s = Serving \<Longrightarrow>
    err = ServerClosed \<longleftrightarrow> in_shutdown s \<Longrightarrow>
    injector_step s (s\<lparr>in_err := Some err, in_webhook := Returned\<rparr>)"
| webhook_check: "\<not> in_panicked s \<Longrightarrow> \<not> in_exited s \<Longrightarrow> in_webhook s = Returned \<Longrightarrow>
    injector_step s (s\<lparr>in_webhook := (case in_err s of Some err \<Rightarrow> Sending err | None \<Rightarrow> SendingNil)\<rparr>)"
| webhook_send: "\<not> in_panicked s \<Longrightarrow> \<not> in_exited s \<Longrightarrow> in_webhook s = Sending err \<Longrightarrow> in_watch s = Selecting \<Longrightarrow>
    injector_step s (s\<lparr>in_webhook := Closing, in_watch := Received (Some err)\<rparr>)"
| webhook_close: "\<not> in_panicked s \<Longrightarrow> \<not> in_exited s \<Longrightarrow> in_webhook s = Closing \<Longrightarrow>
    injector_step s (close_stop (s\<lparr>in_webhook := SendingNil\<rparr>))"
| webhook_nil: "\<not> in_panicked s \<Longrightarrow> \<not> in_exited s \<Longrightarrow> in_webhook s = SendingNil \<Longrightarrow> in_watch s = Selecting \<Longrightarrow>
    injector_step s (s\<lparr>in_webhook := Ended, in_watch := Received None\<rparr>)"
| metrics_return: "\<not> in_panicked s \<Longrightarrow> \<not> in_exited s \<Longrightarrow> in_metrics s = Serving \<Longrightarrow>
    injector_step s (s\<lparr>in_err := Some (Failed e), in_metrics := Returned\<rparr>)"
| metrics_check: "\<not> in_panicked s \<Longrightarrow> \<not> in_exited s \<Longrightarrow> in_metrics s = Returned \<Longrightarrow>
    injector_step s (s\<lparr>in_metrics :=
      (case in_err s of Some (Failed e) \<Rightarrow> Sending (Failed e) | _ \<Rightarrow> SendingNil)\<rparr>)"
| metrics_send: "\<not> in_panicked s \<Longrightarrow> \<not> in_exited s \<Longrightarrow> in_metrics s = Sending err \<Longrightarrow> in_watch s = Selecting \<Longrightarrow>
    injector_step s (s\<lparr>in_metrics := Closing, in_watch := Received (Some err)\<rparr>)"
| metrics_close: "\<not> in_panicked s \<Longrightarrow> \<not> in_exited s \<Longrightarrow> in_metrics s = Closing \<Longrightarrow>
    injector_step s (close_stop (s\<lparr>in_metrics := Ended\<rparr>))"
| metrics_nil: "\<not> in_panicked s \<Longrightarrow> \<not> in_exited s \<Longrightarrow> in_metrics s = SendingNil \<Longrightarrow> in_watch s = Selecting \<Longrightarrow>
    injector_step s (s\<lparr>in_metrics := Ended, in_watch := Received None\<rparr>)"
| watch_error: "\<not> in_panicked s \<Longrightarrow> \<not> in_exited s \<Longrightarrow> in_watch s = Received r \<Longrightarrow>
    injector_step s ((if r = None then id else close_stop) (s\<lparr>in_watch := WatchEnded\<rparr>))"
| watch_cancelled: "\<not> in_panicked s \<Longrightarrow> \<not> in_exited s \<Longrightarrow> in_watch s = Selecting \<Longrightarrow> in_cancelled s \<Longrightarrow>
    injector_step s (s\<lparr>in_watch := ShuttingDown\<rparr>)"
| watch_shutdown: "\<not> in_panicked s \<Longrightarrow> \<not> in_exited s \<Longrightarrow> in_watch s = ShuttingDown \<Longrightarrow>
    injector_step s (s\<lparr>in_shutdown := True, in_watch := WatchClosing\<rparr>)"
| watch_close: "\<not> in_panicked s \<Longrightarrow> \<not> in_exited s \<Longrightarrow> in_watch s = WatchClosing \<Longrightarrow>
    injector_step s (close_stop (s\<lparr>in_watch := WatchEnded\<rparr>))"

text \<open>The states that can be reached after a successful set-up.\<close>

definition reached :: "injector \<Rightarrow> bool" where
  "reached s = injector_step\<^sup>*\<^sup>* started s"

section \<open>What every reachable state satisfies\<close>

text \<open>Whether a server goroutine has delivered its error; the metrics one may end without that.\<close>

fun webhook_delivered :: "server_pc \<Rightarrow> bool" where
  "webhook_delivered Closing = True"
| "webhook_delivered SendingNil = True"
| "webhook_delivered Ended = True"
| "webhook_delivered _ = False"

fun metrics_delivered :: "server_pc \<Rightarrow> bool" where
  "metrics_delivered Closing = True"
| "metrics_delivered Ended = True"
| "metrics_delivered _ = False"

text \<open>Whether the third goroutine received an error, where its end is told apart by the shutdown.\<close>

fun received :: "watch_pc \<Rightarrow> bool \<Rightarrow> bool" where
  "received (Received r) down = True"
| "received WatchEnded down = (\<not> down)"
| "received _ down = False"

definition closings :: "injector \<Rightarrow> nat" where
  "closings s = of_bool (in_after s) + of_bool (in_webhook s = SendingNil) +
     of_bool (in_metrics s = Ended) + of_bool (in_watch s = WatchEnded)"

text \<open>
  The error that ended serving is there before it is read; the webhook server is shut down only
  by the third goroutine, which no longer receives then; at most one error is delivered; and the
  channel has been closed once for each goroutine that has passed its closing.
\<close>

definition control_inv :: "injector \<Rightarrow> bool" where
  "control_inv s \<longleftrightarrow>
     (in_shutdown s \<longrightarrow> in_watch s = WatchClosing \<or> in_watch s = WatchEnded) \<and>
     (in_webhook s \<noteq> Serving \<or> in_metrics s \<noteq> Serving \<longrightarrow> in_err s \<noteq> None) \<and>
     (in_err s = Some ServerClosed \<longrightarrow> in_shutdown s) \<and>
     (in_metrics s = SendingNil \<longrightarrow> in_shutdown s) \<and>
     (in_watch s = WatchClosing \<longrightarrow> in_shutdown s) \<and>
     (in_after s \<or> in_watch s = ShuttingDown \<or> in_watch s = WatchClosing \<or> in_shutdown s \<longrightarrow> in_cancelled s)"

definition deliver_inv :: "injector \<Rightarrow> bool" where
  "deliver_inv s \<longleftrightarrow>
     in_webhook s \<noteq> Ended \<and> in_watch s \<noteq> Received None \<and>
     (received (in_watch s) (in_shutdown s) =
       (webhook_delivered (in_webhook s) \<or> metrics_delivered (in_metrics s))) \<and>
     \<not> (webhook_delivered (in_webhook s) \<and> metrics_delivered (in_metrics s))"

definition closing_inv :: "injector \<Rightarrow> bool" where
  "closing_inv s \<longleftrightarrow> in_panicked s \<or> of_bool (in_stopChan s) = closings s"

lemma close_stop_simps [simp]:
  "in_cancelled (close_stop s) = in_cancelled s" "in_after (close_stop s) = in_after s"
  "in_err (close_stop s) = in_err s" "in_shutdown (close_stop s) = in_shutdown s"
  "in_webhook (close_stop s) = in_webhook s" "in_metrics (close_stop s) = in_metrics s"
  "in_watch (close_stop s) = in_watch s" "in_exited (close_stop s) = in_exited s"
  "in_stopChan (close_stop s) = True"
  "in_panicked (close_stop s) = (in_panicked s \<or> in_stopChan s)"
  by (simp_all add: close_stop_def)

lemma control_inv_step: "injector_step s s' \<Longrightarrow> control_inv s \<Longrightarrow> control_inv s'"
  by (induction rule: injector_step.induct)
    (auto simp: control_inv_def split: option.splits serve_error.splits)

lemma deliver_inv_step: "injector_step s s' \<Longrightarrow> control_inv s \<Longrightarrow> deliver_inv s \<Longrightarrow> deliver_inv s'"
  apply (induction rule: injector_step.induct)
                  apply (simp_all add: control_inv_def deliver_inv_def split: option.splits serve_error.splits)
  apply blast
  done

lemma closing_inv_close:
  "closing_inv s \<Longrightarrow> closings s' = Suc (closings s) \<Longrightarrow> in_stopChan s' \<Longrightarrow>
   in_panicked s' = (in_panicked s \<or> in_stopChan s) \<Longrightarrow> closing_inv s'"
  by (auto simp: closing_inv_def of_bool_def split: if_splits)

lemma closing_inv_keep:
  "closing_inv s \<Longrightarrow> closings s' = closings s \<Longrightarrow> in_stopChan s' = in_stopChan s \<Longrightarrow>
   in_panicked s' = in_panicked s \<Longrightarrow> closing_inv s'"
  by (simp add: closing_inv_def)

lemma closing_inv_step:
  "injector_step s s' \<Longrightarrow> control_inv s \<Longrightarrow> deliver_inv s \<Longrightarrow> closing_inv s \<Longrightarrow> closing_inv s'"
proof (induction rule: injector_step.induct)
  case (after s)
  then show ?case
    by - (rule closing_inv_close [of s], simp_all add: closings_def)
next
  case (webhook_close s)
  then show ?case
    by - (rule closing_inv_close [of s], simp_all add: closings_def)
next
  case (metrics_close s)
  then show ?case
    by - (rule closing_inv_close [of s], simp_all add: closings_def)
next
  case (watch_error s r)
  then have "r \<noteq> None"
    by (auto simp: deliver_inv_def)
  with watch_error show ?case
    by - (rule closing_inv_close [of s], auto simp: closings_def)
next
  case (watch_close s)
  then show ?case
    by - (rule closing_inv_close [of s], simp_all add: closings_def)
next
  case (metrics_nil s)
  then show ?case
    by (auto simp: control_inv_def)
next
  case (webhook_check s)
  then have "in_err s \<noteq> None"
    by (simp add: control_inv_def)
  with webhook_check show ?case
    by - (rule closing_inv_keep [of s], auto simp: closings_def)
next
  case (webhook_nil s)
  then show ?case
    by (simp add: deliver_inv_def control_inv_def)
next
  case (metrics_check s)
  then show ?case
    by - (rule closing_inv_keep [of s], simp_all add: closings_def split: option.split serve_error.split)
qed (erule closing_inv_keep; simp add: closings_def)+

lemma invs_reached: "reached s \<Longrightarrow> control_inv s \<and> deliver_inv s \<and> closing_inv s"
  unfolding reached_def
proof (induction rule: rtranclp_induct)
  case base
  show ?case
    by (simp add: started_def control_inv_def deliver_inv_def closing_inv_def closings_def)
qed (blast intro: control_inv_step deliver_inv_step closing_inv_step)

text \<open>
  The steps that only the surroundings decide: the signal, the end of the process, and the failure
  of a server that is serving. A state is settled when nothing else is left to do.
\<close>

definition surroundings :: "injector \<Rightarrow> injector \<Rightarrow> bool" where
  "surroundings s s' \<longleftrightarrow> in_cancelled s \<noteq> in_cancelled s' \<or> in_exited s \<noteq> in_exited s' \<or>
     (in_webhook s = Serving) \<noteq> (in_webhook s' = Serving) \<or>
     (in_metrics s = Serving) \<noteq> (in_metrics s' = Serving)"

definition settled :: "injector \<Rightarrow> bool" where
  "settled s \<longleftrightarrow> (\<forall>s'. injector_step s s' \<longrightarrow> surroundings s s')"

lemma settled_stuck: "settled s \<Longrightarrow> injector_step s s' \<Longrightarrow> surroundings s s'"
  by (simp add: settled_def)

lemma settled_waits:
  assumes "settled s" "\<not> in_panicked s" "\<not> in_exited s"
  shows "in_watch s \<noteq> Received r" "in_watch s \<noteq> ShuttingDown" "in_watch s \<noteq> WatchClosing"
    and "in_cancelled s \<Longrightarrow> in_after s" "in_cancelled s \<Longrightarrow> in_watch s \<noteq> Selecting"
    and "in_webhook s \<noteq> Returned" "in_webhook s \<noteq> Closing" "in_metrics s \<noteq> Returned" "in_metrics s \<noteq> Closing"
    and "in_watch s = Selecting \<Longrightarrow> in_webhook s \<noteq> Sending err \<and> in_webhook s \<noteq> SendingNil"
    and "in_watch s = Selecting \<Longrightarrow> in_metrics s \<noteq> Sending err \<and> in_metrics s \<noteq> SendingNil"
  using settled_stuck [OF assms(1) injector_step.watch_error [OF assms(2,3), of r]]
    settled_stuck [OF assms(1) injector_step.watch_shutdown [OF assms(2,3)]]
    settled_stuck [OF assms(1) injector_step.watch_close [OF assms(2,3)]]
    settled_stuck [OF assms(1) injector_step.after [OF assms(2,3)]]
    settled_stuck [OF assms(1) injector_step.watch_cancelled [OF assms(2,3)]]
    settled_stuck [OF assms(1) injector_step.webhook_check [OF assms(2,3)]]
    settled_stuck [OF assms(1) injector_step.webhook_close [OF assms(2,3)]]
    settled_stuck [OF assms(1) injector_step.metrics_check [OF assms(2,3)]]
    settled_stuck [OF assms(1) injector_step.metrics_close [OF assms(2,3)]]
    settled_stuck [OF assms(1) injector_step.webhook_send [OF assms(2,3), of err]]
    settled_stuck [OF assms(1) injector_step.webhook_nil [OF assms(2,3)]]
    settled_stuck [OF assms(1) injector_step.metrics_send [OF assms(2,3), of err]]
    settled_stuck [OF assms(1) injector_step.metrics_nil [OF assms(2,3)]]
  by (auto simp: surroundings_def split: option.splits serve_error.splits if_splits)

text \<open>
  C17. Every stop of the webhook server is a crash. Once the signal has come or one of the two servers
  has failed, when the goroutines have run as far as they can, then either the process is gone
  already or it has panicked on closing the stop channel a second time.
\<close>

theorem every_stop_panics:
  assumes "reached s" "settled s" "\<not> in_exited s"
    and "in_cancelled s \<or> in_webhook s \<noteq> Serving \<or> in_metrics s \<noteq> Serving"
  shows "in_panicked s"
proof (rule ccontr)
  assume alive: "\<not> in_panicked s"
  have inv: "control_inv s" "deliver_inv s" "closing_inv s"
    using invs_reached [OF assms(1)] by auto
  note waits = settled_waits [OF assms(2) alive assms(3)]
  have closed: "closings s \<le> 1"
    using inv(3) alive by (simp add: closing_inv_def of_bool_def split: if_splits)
  have watch: "in_watch s = Selecting \<or> in_watch s = WatchEnded"
    using waits(1-3) by (cases "in_watch s") auto
  show False
  proof (cases "in_watch s = Selecting")
    case True
    have "in_webhook s = Serving"
      using waits True inv(2) by (cases "in_webhook s") (auto simp: deliver_inv_def)
    moreover have "in_metrics s = Serving"
      using waits True inv(2) by (cases "in_metrics s") (auto simp: deliver_inv_def)
    ultimately show False
      using assms(4) waits(5) True by simp
  next
    case False
    then have ended: "in_watch s = WatchEnded"
      using watch by simp
    show False
    proof (cases "in_cancelled s")
      case True
      then show False
        using closed ended waits(4) by (simp add: closings_def)
    next
      case False
      then have "webhook_delivered (in_webhook s) \<or> metrics_delivered (in_metrics s)"
        using inv(1,2) ended by (auto simp: control_inv_def deliver_inv_def)
      then show False
        using closed ended waits(7,9) inv(2)
        by (cases "in_webhook s"; cases "in_metrics s") (auto simp: closings_def deliver_inv_def)
    qed
  qed
qed

text \<open>A run of the metrics server's failure up to the crash, for concreteness.\<close>

definition bind_failure :: goerr where "bind_failure = Newf ''listen tcp :8080: bind: address already in use'' []"

definition crashed :: injector where
  "crashed = started\<lparr>in_err := Some (Failed bind_failure), in_metrics := Ended, in_watch := WatchEnded,
     in_stopChan := True, in_panicked := True\<rparr>"

lemma crashed_reached: "reached crashed"
proof -
  let ?s1 = "started\<lparr>in_err := Some (Failed bind_failure), in_metrics := Returned\<rparr>"
  let ?s2 = "?s1\<lparr>in_metrics := Sending (Failed bind_failure)\<rparr>"
  let ?s3 = "?s2\<lparr>in_metrics := Closing, in_watch := Received (Some (Failed bind_failure))\<rparr>"
  let ?s4 = "?s3\<lparr>in_watch := WatchEnded, in_stopChan := True\<rparr>"
  have "injector_step started ?s1"
    by (rule injector_step.metrics_return) (simp_all add: started_def)
  moreover have "injector_step ?s1 ?s2"
    using injector_step.metrics_check [of ?s1] by (simp add: started_def)
  moreover have "injector_step ?s2 ?s3"
    by (rule injector_step.metrics_send) (simp_all add: started_def)
  moreover have "injector_step ?s3 ?s4"
    using injector_step.watch_error [of ?s3] by (simp add: started_def close_stop_def)
  moreover have "injector_step ?s4 crashed"
    using injector_step.metrics_close [of ?s4] by (simp add: started_def close_stop_def crashed_def)
  ultimately show ?thesis
    unfolding reached_def by (meson rtranclp.rtrancl_refl rtranclp.rtrancl_into_rtrancl)
qed

lemma every_stop_panics_witness: "reached crashed \<and> \<not> in_cancelled crashed \<and> in_panicked crashed"
proof -
  have "settled crashed"
    by (auto simp: settled_def crashed_def elim: injector_step.cases)
  then show ?thesis
    using every_stop_panics [OF crashed_reached] crashed_reached by (simp add: crashed_def started_def)
qed

end
