(* ===== verification/Service_Group.thy ===== *)
theory Service_Group
  imports Controller Webhook_Server
begin

text \<open>
  The goroutines of one mode: the members of the \<^verbatim>\<open>errgroup\<close> that \<^verbatim>\<open>pkg/controller\<close> starts, with
  \<^verbatim>\<open>Service.Start\<close> of \<^verbatim>\<open>pkg/healthcheck\<close> and the server of \<^verbatim>\<open>pkg/metrics/metrics.go\<close> in detail. The
  question is when \<^verbatim>\<open>Wait\<close> returns, since the process ends only then.
\<close>

section \<open>The metrics server\<close>

record MetricsImpl =
  mi_registry :: "metric list"
  mi_Server :: http_server

text \<open>Times that are not set are zero, which means no limit.\<close>

definition NewMetricsService :: MetricsImpl where
  "NewMetricsService =
     \<lparr>mi_registry = Init,
      mi_Server = \<lparr>srv_Addr = ''0.0.0.0:8080'', srv_ReadHeaderTimeout = 10 * 1000000000,
        srv_ReadTimeout = 0, srv_WriteTimeout = 0, srv_IdleTimeout = 0\<rparr>\<rparr>"

text \<open>
  What is logged when \<^verbatim>\<open>ListenAndServe\<close> has returned, which it does only with an error. The function
  then returns like one that was closed.
\<close>

fun RunMetrics :: "serve_error \<Rightarrow> goerr option" where
  "RunMetrics ServerClosed = None"
| "RunMetrics (Failed err) = Some err"

section \<open>The members of a group\<close>

text \<open>
  A server's goroutine listens, has returned from \<^verbatim>\<open>ListenAndServe\<close>, or has ended, which for the health
  server means that \<^verbatim>\<open>doneCh\<close> is closed. \<^verbatim>\<open>Start\<close> selects between the context and \<^verbatim>\<open>doneCh\<close>, shuts the
  server down, and returns. A worker is the mode's own service, and has returned or not.
\<close>

datatype listen_pc = Listening | ListenReturned serve_error | ListenEnded

datatype start_pc = StartSelecting | StartShutdown | StartReturned

datatype member =
    Health start_pc listen_pc bool
  | Metrics listen_pc
  | Worker service "goerr option option"

fun member_of :: "service \<Rightarrow> member" where
  "member_of (HealthServer live) = Health StartSelecting Listening False"
| "member_of MetricsServer = Metrics Listening"
| "member_of sv = Worker sv None"

text \<open>What the member's function has returned; the two servers report no error.\<close>

fun member_result :: "member \<Rightarrow> goerr option option" where
  "member_result (Health StartReturned l shut) = Some None"
| "member_result (Metrics ListenEnded) = Some None"
| "member_result (Worker sv r) = r"
| "member_result _ = None"

text \<open>
  Which results a worker may return, given whether the context is cancelled: an election ends without
  an error, at a cancellation or when the lead is lost; the webhook fails in its set-up or waits for
  the cancellation; the agent may end in any way.
\<close>

fun worker_may :: "bool \<Rightarrow> service \<Rightarrow> goerr option \<Rightarrow> bool" where
  "worker_may cancelled (Election lock) r = (r = None)"
| "worker_may cancelled Webhook None = cancelled"
| "worker_may cancelled Webhook (Some (Wrap err msg)) = (msg = ''webhook starter failed'')"
| "worker_may cancelled Webhook (Some err) = False"
| "worker_may cancelled NRIAgent r = True"
| "worker_may cancelled IdleUntilShutdown r = (cancelled \<and> r = Some ContextCanceled)"
| "worker_may cancelled sv r = False"

datatype group_event =
    ParentCancelled
  | HealthFailed goerr
  | MetricsFailed goerr
  | WorkerReturned "goerr option"
  | Internal

inductive member_step :: "bool \<Rightarrow> member \<Rightarrow> group_event \<Rightarrow> member \<Rightarrow> bool" for cancelled where
  health_fails: "member_step cancelled (Health st Listening False) (HealthFailed err)
     (Health st (ListenReturned (Failed err)) False)"
| health_closed: "member_step cancelled (Health st Listening True) Internal
     (Health st (ListenReturned ServerClosed) True)"
| health_done: "member_step cancelled (Health st (ListenReturned err) shut) Internal (Health st ListenEnded shut)"
| start_ctx: "cancelled \<Longrightarrow>
     member_step cancelled (Health StartSelecting l shut) Internal (Health StartShutdown l True)"
| start_done: "member_step cancelled (Health StartSelecting ListenEnded shut) Internal
     (Health StartShutdown ListenEnded True)"
| start_returns: "member_step cancelled (Health StartShutdown l shut) Internal (Health StartReturned l shut)"
| metrics_fails: "member_step cancelled (Metrics Listening) (MetricsFailed err)
     (Metrics (ListenReturned (Failed err)))"
| metrics_logs: "member_step cancelled (Metrics (ListenReturned err)) Internal (Metrics ListenEnded)"
| worker_returns: "worker_may cancelled sv r \<Longrightarrow>
     member_step cancelled (Worker sv None) (WorkerReturned r) (Worker sv (Some r))"

inductive_simps health_step: "member_step cancelled (Health st l shut) e m"
inductive_simps metrics_step: "member_step cancelled (Metrics l) e m"
inductive_simps worker_step: "member_step cancelled (Worker sv r) e m"

section \<open>The group\<close>

text \<open>
  \<^verbatim>\<open>errgroup.WithContext\<close>: the first error that a member returns is kept and cancels the context of all;
  \<^verbatim>\<open>Wait\<close> returns it when every member has returned.
\<close>

record group =
  gr_members :: "member list"
  gr_cancelled :: bool
  gr_err :: "goerr option"

definition start_group :: "service list \<Rightarrow> group" where
  "start_group services = \<lparr>gr_members = map member_of services, gr_cancelled = False, gr_err = None\<rparr>"

definition note_result :: "member \<Rightarrow> group \<Rightarrow> group" where
  "note_result m g =
     (case member_result m of
        Some (Some err) \<Rightarrow>
          if gr_err g = None then g\<lparr>gr_err := Some err, gr_cancelled := True\<rparr> else g
      | _ \<Rightarrow> g)"

definition Wait :: "group \<Rightarrow> goerr option option" where
  "Wait g = (if list_all (\<lambda>m. member_result m \<noteq> None) (gr_members g) then Some (gr_err g) else None)"

inductive group_step :: "group \<Rightarrow> group_event \<Rightarrow> group \<Rightarrow> bool" where
  parent_cancels: "\<not> gr_cancelled g \<Longrightarrow> group_step g ParentCancelled (g\<lparr>gr_cancelled := True\<rparr>)"
| member_moves: "i < length (gr_members g) \<Longrightarrow> member_step (gr_cancelled g) (gr_members g ! i) e m \<Longrightarrow>
     group_step g e (note_result m (g\<lparr>gr_members := (gr_members g)[i := m]\<rparr>))"

inductive group_run :: "group \<Rightarrow> group_event list \<Rightarrow> group \<Rightarrow> bool" where
  run_none: "group_run g [] g"
| run_more: "group_run g es g' \<Longrightarrow> group_step g' e g'' \<Longrightarrow> group_run g (es @ [e]) g''"

inductive_cases group_stepE: "group_step g e g'"

lemma note_result_members [simp]: "gr_members (note_result m g) = gr_members g"
  by (simp add: note_result_def split: option.split)

lemma note_result_cancelled: "gr_cancelled g \<Longrightarrow> gr_cancelled (note_result m g)"
  by (simp add: note_result_def split: option.split)

text \<open>A step changes at most one member, and that one by a step of its own.\<close>

lemma group_step_member:
  assumes "group_step g e g'" "i < length (gr_members g)"
  shows "length (gr_members g') = length (gr_members g) \<and>
    (gr_members g' ! i = gr_members g ! i \<or> member_step (gr_cancelled g) (gr_members g ! i) e (gr_members g' ! i))"
  using assms by (cases rule: group_step.cases) (auto simp: nth_list_update)

lemma group_step_length: "group_step g e g' \<Longrightarrow> length (gr_members g') = length (gr_members g)"
  by (cases rule: group_step.cases) auto

lemma group_run_length: "group_run g es g' \<Longrightarrow> length (gr_members g') = length (gr_members g)"
  by (induction rule: group_run.induct) (auto dest: group_step_length)

section \<open>When the group is done\<close>

text \<open>How many steps a member can still make.\<close>

fun member_left :: "member \<Rightarrow> nat" where
  "member_left (Health st l shut) =
     (case st of StartSelecting \<Rightarrow> 2 | StartShutdown \<Rightarrow> 1 | StartReturned \<Rightarrow> 0) +
     (case l of Listening \<Rightarrow> 2 | ListenReturned err \<Rightarrow> 1 | ListenEnded \<Rightarrow> 0)"
| "member_left (Metrics l) = (case l of Listening \<Rightarrow> 2 | ListenReturned err \<Rightarrow> 1 | ListenEnded \<Rightarrow> 0)"
| "member_left (Worker sv r) = (if r = None then 1 else 0)"

definition steps_left :: "group \<Rightarrow> nat" where
  "steps_left g = (if gr_cancelled g then 0 else 1) + sum_list (map member_left (gr_members g))"

lemma member_step_left: "member_step c m e m' \<Longrightarrow> member_left m = Suc (member_left m')"
  by (erule member_step.cases) auto

lemma group_step_left:
  assumes "group_step g e g'"
  shows "steps_left g' < steps_left g"
  using assms
proof (cases rule: group_step.cases)
  case (member_moves i m)
  have "sum_list (map member_left ((gr_members g)[i := m])) < sum_list (map member_left (gr_members g))"
    using member_step_left [OF member_moves(3)] member_moves(2) elem_le_sum_list [of i "map member_left (gr_members g)"]
    by (simp add: map_update sum_list_update)
  then show ?thesis
    using member_moves(1) note_result_cancelled [of "g\<lparr>gr_members := (gr_members g)[i := m]\<rparr>" m]
    by (auto simp: steps_left_def)
qed (auto simp: steps_left_def)

lemma group_run_left: "group_run g es g' \<Longrightarrow> length es + steps_left g' \<le> steps_left g"
  by (induction rule: group_run.induct) (auto dest!: group_step_left)

lemma member_of_left: "member_left (member_of sv) \<le> 4"
  by (cases sv) simp_all

lemma start_group_left: "steps_left (start_group services) \<le> 1 + 4 * length services"
proof -
  have "sum_list (map member_left (map member_of services)) \<le> 4 * length services"
    by (induction services) (use member_of_left in \<open>auto intro: add_mono\<close>)
  then show ?thesis
    by (simp add: steps_left_def start_group_def)
qed

text \<open>Only these workers occur; a worker that has not returned can, once the context is cancelled.\<close>

fun member_ok :: "member \<Rightarrow> bool" where
  "member_ok (Worker sv r) = (case sv of HealthServer live \<Rightarrow> False | MetricsServer \<Rightarrow> False | _ \<Rightarrow> True)"
| "member_ok _ = True"

lemma member_ok_of: "member_ok (member_of sv)"
  by (cases sv) simp_all

lemma member_ok_step: "member_step c m e m' \<Longrightarrow> member_ok m \<Longrightarrow> member_ok m'"
  by (erule member_step.cases) auto

lemma member_settled:
  assumes "member_ok m" "member_result m = None"
  shows "\<exists>e m'. member_step True m e m'"
proof (cases m)
  case (Health st l shut)
  then show ?thesis
    using assms(2) by (cases st) (auto intro: member_step.intros)
next
  case (Metrics l)
  then show ?thesis
    using assms(2) by (cases l) (auto intro: member_step.intros)
next
  case (Worker sv r)
  then have "worker_may True sv None \<or> worker_may True sv (Some ContextCanceled)"
    using assms(1) by (cases sv) auto
  then show ?thesis
    using Worker assms(2) by (auto intro: member_step.intros)
qed

lemma group_run_ok:
  "group_run g es g' \<Longrightarrow> list_all member_ok (gr_members g) \<Longrightarrow> list_all member_ok (gr_members g')"
proof (induction rule: group_run.induct)
  case (run_more g es g' e g'')
  have "member_ok (gr_members g'' ! i)" if "i < length (gr_members g'')" for i
    using group_step_member [OF run_more.hyps(2), of i] that run_more.IH [OF run_more.prems]
      group_step_length [OF run_more.hyps(2)] member_ok_step
    by (auto simp: list_all_length)
  then show ?case
    by (simp add: list_all_length)
qed

lemma settled_waited:
  assumes "list_all member_ok (gr_members g)" "gr_cancelled g" "\<nexists>e g'. group_step g e g'"
  shows "Wait g = Some (gr_err g)"
proof -
  have "member_result (gr_members g ! i) \<noteq> None" if i: "i < length (gr_members g)" for i
  proof
    assume "member_result (gr_members g ! i) = None"
    then obtain e m' where "member_step True (gr_members g ! i) e m'"
      using i assms(1) member_settled [of "gr_members g ! i"] by (auto simp: list_all_length)
    then show False
      using assms(2,3) group_step.member_moves [OF i] by auto
  qed
  then show ?thesis
    by (simp add: Wait_def list_all_length)
qed

text \<open>A metrics server that does not fail stays where it is.\<close>

lemma metrics_stay:
  assumes "group_run g es g'" "i < length (gr_members g)" "gr_members g ! i = Metrics Listening"
    and "\<forall>err. MetricsFailed err \<notin> set es"
  shows "gr_members g' ! i = Metrics Listening"
  using assms
proof (induction rule: group_run.induct)
  case (run_more g es g' e g'')
  then have "gr_members g' ! i = Metrics Listening" "i < length (gr_members g')"
    using group_run_length by auto
  then show ?case
    using group_step_member [OF run_more.hyps(2), of i] run_more.prems(3) by (auto simp: metrics_step)
qed

lemma metrics_not_waited:
  assumes "group_run (start_group services) es g" "MetricsServer \<in> set services"
    and "\<forall>err. MetricsFailed err \<notin> set es"
  shows "Wait g = None"
proof -
  obtain i where i: "i < length services" "services ! i = MetricsServer"
    using assms(2) by (auto simp: in_set_conv_nth)
  then have "gr_members g ! i = Metrics Listening"
    using metrics_stay [OF assms(1) _ _ assms(3), of i] by (simp add: start_group_def)
  moreover have "i < length (gr_members g)"
    using group_run_length [OF assms(1)] i(1) by (simp add: start_group_def)
  ultimately show ?thesis
    by (auto simp: Wait_def list_all_length intro!: exI [of _ i])
qed

text \<open>
  C19. A group ends, except that a listening metrics server keeps it for ever. Every run of a group
  has at most one step more than four per service, and where no step is left after a cancellation,
  \<^verbatim>\<open>Wait\<close> has returned with the group's first error. But nobody shuts the metrics server down: as long
  as it has not failed by itself, \<^verbatim>\<open>Wait\<close> of a group with one (renewer, revoker, agent) does not return,
  neither after a signal nor after an error of the agent that is meant to end the process.
\<close>

theorem group_waits:
  assumes "group_run (start_group services) es g"
  shows "length es \<le> 1 + 4 * length services \<and>
    (gr_cancelled g \<and> (\<nexists>e g'. group_step g e g') \<longrightarrow> Wait g = Some (gr_err g)) \<and>
    (MetricsServer \<in> set services \<and> (\<forall>err. MetricsFailed err \<notin> set es) \<longrightarrow> Wait g = None)"
proof (intro conjI impI)
  show "length es \<le> 1 + 4 * length services"
    using group_run_left [OF assms] start_group_left [of services] by simp
  show "Wait g = Some (gr_err g)" if "gr_cancelled g \<and> (\<nexists>e g'. group_step g e g')"
    using that group_run_ok [OF assms]
    by (intro settled_waited) (auto simp: start_group_def list_all_iff member_ok_of)
  show "Wait g = None" if "MetricsServer \<in> set services \<and> (\<forall>err. MetricsFailed err \<notin> set es)"
    using that by (intro metrics_not_waited [OF assms]) auto
qed

text \<open>The agent's group after its reconnections are exhausted: all that can end has ended.\<close>

definition exhausted :: goerr where
  "exhausted = Newf ''NRI stub disconnected'' []"

definition agent_group :: group where
  "agent_group =
     \<lparr>gr_members = [Health StartReturned ListenEnded True, Metrics Listening, Worker NRIAgent (Some (Some exhausted))],
      gr_cancelled = True, gr_err = Some exhausted\<rparr>"

lemma run_first:
  assumes "group_run g es \<lparr>gr_members = m # ms, gr_cancelled = c, gr_err = r\<rparr>"
    and "member_step c m e m'" "member_result m' \<in> {None, Some None}"
  shows "group_run g (es @ [e]) \<lparr>gr_members = m' # ms, gr_cancelled = c, gr_err = r\<rparr>"
proof -
  have "group_step \<lparr>gr_members = m # ms, gr_cancelled = c, gr_err = r\<rparr> e
      (note_result m' \<lparr>gr_members = m' # ms, gr_cancelled = c, gr_err = r\<rparr>)"
    using group_step.member_moves [of 0 "\<lparr>gr_members = m # ms, gr_cancelled = c, gr_err = r\<rparr>"] assms(2) by simp
  then show ?thesis
    using run_more [OF assms(1)] assms(3) by (auto simp: note_result_def)
qed

lemma agent_group_run:
  "group_run (start_group [HealthServer False, MetricsServer, NRIAgent])
     [WorkerReturned (Some exhausted), Internal, Internal, Internal, Internal] agent_group"
proof -
  let ?g = "\<lambda>h. \<lparr>gr_members = [h, Metrics Listening, Worker NRIAgent (Some (Some exhausted))],
    gr_cancelled = True, gr_err = Some exhausted\<rparr>"
  let ?run = "group_run (start_group [HealthServer False, MetricsServer, NRIAgent])"
  let ?ev = "WorkerReturned (Some exhausted)"
  have "group_step (start_group [HealthServer False, MetricsServer, NRIAgent]) ?ev
      (?g (Health StartSelecting Listening False))"
    using group_step.member_moves [of 2 "start_group [HealthServer False, MetricsServer, NRIAgent]" ?ev
        "Worker NRIAgent (Some (Some exhausted))"] member_step.worker_returns [of False NRIAgent "Some exhausted"]
    by (simp add: start_group_def note_result_def numeral_2_eq_2)
  then have "?run [?ev] (?g (Health StartSelecting Listening False))"
    using run_more [OF run_none] by fastforce
  note run_first [OF this member_step.start_ctx, simplified]
  note run_first [OF this member_step.start_returns, simplified]
  note run_first [OF this member_step.health_closed, simplified]
  note run_first [OF this member_step.health_done, simplified]
  then show ?thesis
    by (simp add: agent_group_def)
qed

lemma group_waits_witness:
  "gr_err agent_group = Some exhausted \<and> Wait agent_group = None"
proof -
  have "Wait agent_group = None"
    using group_waits [OF agent_group_run] by simp
  then show ?thesis
    by (simp add: agent_group_def)
qed

end
