(* ===== verification/Single_Flight.thy ===== *)
theory Single_Flight
  imports Prelude
begin

text \<open>
  One key of a cache that is filled through \<^verbatim>\<open>golang.org/x/sync/singleflight\<close>, with any number of
  concurrent callers: \<^verbatim>\<open>resolveMappingWithSource\<close> of \<^verbatim>\<open>pkg/nri/plugin.go\<close> (the key is a pod's UID, the
  value its mapping) and \<^verbatim>\<open>Get\<close> of \<^verbatim>\<open>pkg/vault/bookkeeping_cache.go\<close> (a role, its token). Both look at
  the cache, enter the single-flight slot on a miss, look again there, fetch, and store; each look
  and each store is one step under the mutex. Of \<^verbatim>\<open>Do\<close> the documented behaviour is used: one caller
  executes the function while later ones wait for it, and they all get its result.
\<close>

section \<open>The callers as a step relation\<close>

text \<open>
  Where a caller stands: not started, past a miss of the first look, in the slot before the second
  look, fetching, fetched but not stored, about to leave the slot with a result, waiting for the
  caller in the slot, and back with a result. \<open>None\<close> as a result is an error.
\<close>

datatype 'v caller =
    Calling
  | Missed
  | InSlot
  | Fetching
  | Storing 'v
  | Leaving "'v option"
  | Waiting
  | Returned "'v option"

text \<open>
  The shared state: how many callers there are, the cached value of the key, the caller in the slot,
  and two counters, of the fetches that succeeded and of the removals of an entry (an eviction, or an
  entry that expired). The callers are numbered from 0.
\<close>

record 'v flight =
  fl_number :: nat
  fl_cache :: "'v option"
  fl_slot :: "nat option"
  fl_callers :: "nat \<Rightarrow> 'v caller"
  fl_fetched :: nat
  fl_dropped :: nat

definition flight_start :: "nat \<Rightarrow> 'v option \<Rightarrow> 'v flight" where
  "flight_start n v =
     \<lparr>fl_number = n, fl_cache = v, fl_slot = None, fl_callers = (\<lambda>_. Calling), fl_fetched = 0, fl_dropped = 0\<rparr>"

definition move :: "nat \<Rightarrow> 'v caller \<Rightarrow> 'v flight \<Rightarrow> 'v flight" where
  "move i pc s = s\<lparr>fl_callers := (fl_callers s)(i := pc)\<rparr>"

definition leave_slot :: "nat \<Rightarrow> 'v option \<Rightarrow> 'v flight \<Rightarrow> 'v flight" where
  "leave_slot i r s = s\<lparr>fl_slot := None,
     fl_callers := (\<lambda>j. if j = i \<or> fl_callers s j = Waiting then Returned r else fl_callers s j)\<rparr>"

inductive flight_step :: "'v flight \<Rightarrow> 'v flight \<Rightarrow> bool" where
  hit: "i < fl_number s \<Longrightarrow> fl_callers s i = Calling \<Longrightarrow> fl_cache s = Some v \<Longrightarrow>
    flight_step s (move i (Returned (Some v)) s)"
| miss: "i < fl_number s \<Longrightarrow> fl_callers s i = Calling \<Longrightarrow> fl_cache s = None \<Longrightarrow>
    flight_step s (move i Missed s)"
| enter: "fl_callers s i = Missed \<Longrightarrow> fl_slot s = None \<Longrightarrow>
    flight_step s (move i InSlot (s\<lparr>fl_slot := Some i\<rparr>))"
| wait: "fl_callers s i = Missed \<Longrightarrow> fl_slot s = Some j \<Longrightarrow> flight_step s (move i Waiting s)"
| second_hit: "fl_callers s i = InSlot \<Longrightarrow> fl_cache s = Some v \<Longrightarrow>
    flight_step s (move i (Leaving (Some v)) s)"
| second_miss: "fl_callers s i = InSlot \<Longrightarrow> fl_cache s = None \<Longrightarrow> flight_step s (move i Fetching s)"
| fetch_ok: "fl_callers s i = Fetching \<Longrightarrow>
    flight_step s (move i (Storing v) (s\<lparr>fl_fetched := Suc (fl_fetched s)\<rparr>))"
| fetch_fails: "fl_callers s i = Fetching \<Longrightarrow> flight_step s (move i (Leaving None) s)"
| store: "fl_callers s i = Storing v \<Longrightarrow>
    flight_step s (move i (Leaving (Some v)) (s\<lparr>fl_cache := Some v\<rparr>))"
| leave: "fl_callers s i = Leaving r \<Longrightarrow> flight_step s (leave_slot i r s)"
| dropped: "fl_cache s \<noteq> None \<Longrightarrow>
    flight_step s (s\<lparr>fl_cache := None, fl_dropped := Suc (fl_dropped s)\<rparr>)"

inductive_cases flight_stepE: "flight_step s s'"

section \<open>The slot holds at most one caller\<close>

fun in_slot :: "'v caller \<Rightarrow> bool" where
  "in_slot InSlot = True"
| "in_slot Fetching = True"
| "in_slot (Storing v) = True"
| "in_slot (Leaving r) = True"
| "in_slot _ = False"

fun answer :: "'v caller \<Rightarrow> 'v option" where
  "answer (Leaving r) = r"
| "answer (Returned r) = r"
| "answer _ = None"

definition slot_inv :: "'v flight \<Rightarrow> bool" where
  "slot_inv s \<longleftrightarrow> (\<forall>i. in_slot (fl_callers s i) = (fl_slot s = Some i)) \<and>
     (\<forall>i. fl_callers s i = Waiting \<longrightarrow> fl_slot s \<noteq> None)"

lemma move_simps [simp]:
  "fl_cache (move i pc s) = fl_cache s" "fl_slot (move i pc s) = fl_slot s"
  "fl_callers (move i pc s) = (fl_callers s)(i := pc)" "fl_fetched (move i pc s) = fl_fetched s"
  "fl_dropped (move i pc s) = fl_dropped s" "fl_number (move i pc s) = fl_number s"
  by (simp_all add: move_def)

lemma leave_slot_simps [simp]:
  "fl_cache (leave_slot i r s) = fl_cache s" "fl_slot (leave_slot i r s) = None"
  "fl_callers (leave_slot i r s) j = (if j = i \<or> fl_callers s j = Waiting then Returned r else fl_callers s j)"
  "fl_fetched (leave_slot i r s) = fl_fetched s" "fl_dropped (leave_slot i r s) = fl_dropped s"
  "fl_number (leave_slot i r s) = fl_number s"
  by (simp_all add: leave_slot_def)

lemma slot_inv_updates [simp]:
  "slot_inv (s\<lparr>fl_cache := c\<rparr>) = slot_inv s" "slot_inv (s\<lparr>fl_fetched := n\<rparr>) = slot_inv s"
  "slot_inv (s\<lparr>fl_dropped := n\<rparr>) = slot_inv s"
  by (simp_all add: slot_inv_def)

lemma slot_inv_move:
  "slot_inv s \<Longrightarrow> in_slot pc = in_slot (fl_callers s i) \<Longrightarrow> pc \<noteq> Waiting \<Longrightarrow> slot_inv (move i pc s)"
  by (fastforce simp add: slot_inv_def)

lemma slot_inv_enter:
  "slot_inv s \<Longrightarrow> fl_slot s = None \<Longrightarrow> slot_inv (move i InSlot (s\<lparr>fl_slot := Some i\<rparr>))"
  by (simp add: slot_inv_def eq_commute)

lemma slot_inv_wait:
  "slot_inv s \<Longrightarrow> fl_callers s i = Missed \<Longrightarrow> fl_slot s = Some j \<Longrightarrow> slot_inv (move i Waiting s)"
  by (auto simp: slot_inv_def dest: spec [of _ i])

lemma slot_inv_leave:
  assumes "slot_inv s" "fl_callers s i = Leaving r"
  shows "slot_inv (leave_slot i r s)"
proof -
  have "in_slot (fl_callers s j) \<longleftrightarrow> j = i" for j
    using assms by (metis in_slot.simps(4) option.inject slot_inv_def)
  then show ?thesis
    by (simp add: slot_inv_def)
qed

lemma in_slotD: "slot_inv s \<Longrightarrow> in_slot (fl_callers s i) \<Longrightarrow> fl_slot s = Some i"
  by (simp add: slot_inv_def)

lemma not_in_slotD: "slot_inv s \<Longrightarrow> \<not> in_slot (fl_callers s i) \<Longrightarrow> fl_slot s \<noteq> Some i"
  by (simp add: slot_inv_def)

lemma slot_inv_step: "flight_step s s' \<Longrightarrow> slot_inv s \<Longrightarrow> slot_inv s'"
  by (induction rule: flight_step.induct)
    (simp_all add: slot_inv_move slot_inv_enter slot_inv_wait slot_inv_leave)

section \<open>Fetches and answers\<close>

text \<open>
  While a caller fetches nothing is cached. A value that was fetched and not dropped since is cached
  or about to be; as long as nothing was dropped all answers are the cached value.
\<close>

definition slot_pc :: "'v flight \<Rightarrow> 'v caller" where
  "slot_pc s = (case fl_slot s of None \<Rightarrow> Calling | Some i \<Rightarrow> fl_callers s i)"

fun fetch_at :: "'v caller \<Rightarrow> bool \<Rightarrow> nat \<Rightarrow> nat \<Rightarrow> bool" where
  "fetch_at Fetching c f d = (\<not> c \<and> f \<le> d)"
| "fetch_at (Storing v) c f d = (\<not> c \<and> f \<le> Suc d)"
| "fetch_at _ c f d = (f \<le> d + of_bool c)"

definition fetch_inv :: "'v flight \<Rightarrow> bool" where
  "fetch_inv s = fetch_at (slot_pc s) (fl_cache s \<noteq> None) (fl_fetched s) (fl_dropped s)"

definition answer_inv :: "'v flight \<Rightarrow> bool" where
  "answer_inv s \<longleftrightarrow>
     (fl_dropped s = 0 \<longrightarrow> (\<forall>i v. answer (fl_callers s i) = Some v \<longrightarrow> fl_cache s = Some v))"

lemma slot_pc_free [simp]: "slot_pc (leave_slot i r s) = Calling" "fl_slot s = None \<Longrightarrow> slot_pc s = Calling"
  by (simp_all add: slot_pc_def)

lemma slot_pc_in: "slot_inv s \<Longrightarrow> in_slot (fl_callers s i) \<Longrightarrow> slot_pc s = fl_callers s i"
  by (simp add: slot_pc_def slot_inv_def)

lemma slot_pc_move [simp]: "slot_pc (move i pc s) = (if fl_slot s = Some i then pc else slot_pc s)"
  by (simp add: slot_pc_def split: option.split)

lemma slot_pc_updates [simp]: "slot_pc (s\<lparr>fl_cache := c\<rparr>) = slot_pc s" "slot_pc (s\<lparr>fl_fetched := n\<rparr>) = slot_pc s"
  "slot_pc (s\<lparr>fl_dropped := n\<rparr>) = slot_pc s"
  by (simp_all add: slot_pc_def split: option.split)

lemma fetch_inv_outside:
  "slot_inv s \<Longrightarrow> \<not> in_slot (fl_callers s i) \<Longrightarrow> fetch_inv s \<Longrightarrow> fetch_inv (move i pc s)"
  using not_in_slotD [of s i] by (simp add: fetch_inv_def)

lemma fetch_inv_at:
  "fl_callers s i = pc \<Longrightarrow> in_slot pc \<Longrightarrow> slot_inv s \<Longrightarrow> fetch_inv s \<Longrightarrow>
     fl_slot s = Some i \<and> fetch_at pc (fl_cache s \<noteq> None) (fl_fetched s) (fl_dropped s)"
  using slot_pc_in [of s i] in_slotD [of s i] by (simp add: fetch_inv_def)

lemma fetch_inv_step:
  assumes "flight_step s s'" "slot_inv s" "fetch_inv s"
  shows "fetch_inv s'"
  using assms
proof (induction rule: flight_step.induct)
  case (dropped s)
  then show ?case
    by (cases "slot_pc s") (auto simp: fetch_inv_def)
next
  case (enter s i)
  then show ?case
    by (simp add: fetch_inv_def)
qed (simp_all add: fetch_inv_outside, (frule fetch_inv_at, simp, assumption, assumption, simp add: fetch_inv_def)+)

lemma answer_inv_step:
  assumes "flight_step s s'" "slot_inv s" "fetch_inv s" "answer_inv s"
  shows "answer_inv s'"
  using assms
proof (induction rule: flight_step.induct)
  case (store s i v)
  then have "fl_cache s = None"
    using fetch_inv_at [of s i "Storing v"] by simp
  with store show ?case
    by (auto simp: answer_inv_def)
next
  case (leave s i r)
  then have "fl_dropped s = 0 \<Longrightarrow> r = Some v \<Longrightarrow> fl_cache s = Some v" for v
    by (metis answer.simps(1) answer_inv_def)
  with leave show ?case
    by (auto simp: answer_inv_def)
qed (auto simp: answer_inv_def split: if_splits)

definition flight_reached :: "nat \<Rightarrow> 'v option \<Rightarrow> 'v flight \<Rightarrow> bool" where
  "flight_reached n v s = flight_step\<^sup>*\<^sup>* (flight_start n v) s"

lemma flight_invs: "flight_reached n v s \<Longrightarrow> slot_inv s \<and> fetch_inv s \<and> answer_inv s"
  unfolding flight_reached_def
proof (induction rule: rtranclp_induct)
  case base
  show ?case
    by (simp add: flight_start_def slot_inv_def fetch_inv_def slot_pc_def answer_inv_def)
qed (blast intro: slot_inv_step fetch_inv_step answer_inv_step)

text \<open>
  C26. However many containers of a pod are created at once, its credentials are fetched once: of any
  number of concurrent callers, in every interleaving, more than one fetch succeeds only if the
  entry was dropped in between, and as long as nothing was dropped every caller that got an answer
  got the same value, the cached one. The same holds for the bookkeeping token.
\<close>

theorem fetched_once:
  assumes "flight_reached n v0 s"
  shows "fl_fetched s \<le> Suc (fl_dropped s) \<and>
     (fl_dropped s = 0 \<longrightarrow> fl_callers s i = Returned (Some v) \<longrightarrow> fl_cache s = Some v)"
proof (intro conjI impI)
  have inv: "fetch_inv s" "answer_inv s"
    using flight_invs [OF assms] by auto
  then show "fl_fetched s \<le> Suc (fl_dropped s)"
    by (cases "slot_pc s") (auto simp: fetch_inv_def of_bool_def split: if_splits)
  show "fl_cache s = Some v" if "fl_dropped s = 0" "fl_callers s i = Returned (Some v)"
    using that inv(2) unfolding answer_inv_def by (metis answer.simps(2))
qed

section \<open>Every call returns\<close>

text \<open>
  A measure of what is left to do: of a caller, the steps up to its return, where a store counts
  once more because it makes a removal possible; and the removal of what is cached.
\<close>

fun caller_left :: "'v caller \<Rightarrow> nat" where
  "caller_left Calling = 7"
| "caller_left Missed = 6"
| "caller_left InSlot = 5"
| "caller_left Fetching = 4"
| "caller_left (Storing v) = 3"
| "caller_left (Leaving r) = 1"
| "caller_left Waiting = 1"
| "caller_left (Returned r) = 0"

definition callers_left :: "'v flight \<Rightarrow> nat" where
  "callers_left s = (\<Sum>i < fl_number s. caller_left (fl_callers s i))"

definition flight_left :: "'v flight \<Rightarrow> nat" where
  "flight_left s = callers_left s + of_bool (fl_cache s \<noteq> None)"

text \<open>Who is not one of the callers never starts.\<close>

definition number_inv :: "'v flight \<Rightarrow> bool" where
  "number_inv s \<longleftrightarrow> (\<forall>i. fl_callers s i \<noteq> Calling \<longrightarrow> i < fl_number s)"

lemma number_inv_step: "flight_step s s' \<Longrightarrow> number_inv s \<Longrightarrow> number_inv s' \<and> fl_number s' = fl_number s"
  by (induction rule: flight_step.induct) (auto simp: number_inv_def)

lemma flight_left_updates [simp]:
  "callers_left (s\<lparr>fl_slot := x\<rparr>) = callers_left s" "callers_left (s\<lparr>fl_fetched := n\<rparr>) = callers_left s"
  "callers_left (s\<lparr>fl_cache := c\<rparr>) = callers_left s" "callers_left (s\<lparr>fl_dropped := n\<rparr>) = callers_left s"
  by (simp_all add: callers_left_def)

lemma callers_left_move:
  assumes "i < fl_number s"
  shows "callers_left (move i pc s) + caller_left (fl_callers s i) = callers_left s + caller_left pc"
proof -
  let ?rest = "\<Sum>j \<in> {..<fl_number s} - {i}. caller_left (fl_callers s j)"
  have "callers_left s = caller_left (fl_callers s i) + ?rest"
    using assms by (simp add: callers_left_def sum.remove)
  moreover have "callers_left (move i pc s) = caller_left pc + ?rest"
    using assms by (simp add: callers_left_def sum.remove [of _ i])
  ultimately show ?thesis
    by simp
qed

lemma callers_left_leave:
  assumes "i < fl_number s" "fl_callers s i = Leaving r"
  shows "callers_left (leave_slot i r s) < callers_left s"
  unfolding callers_left_def leave_slot_simps(6)
proof (rule sum_strict_mono_ex1)
  show "\<exists>a \<in> {..<fl_number s}. caller_left (fl_callers (leave_slot i r s) a) < caller_left (fl_callers s a)"
    using assms by (intro bexI [of _ i]) simp_all
qed simp_all

lemma flight_left_move:
  "i < fl_number s \<Longrightarrow> fl_callers s i = pc \<Longrightarrow> caller_left pc' < caller_left pc \<Longrightarrow>
   flight_left (move i pc' s) < flight_left s"
  using callers_left_move [of i s pc'] by (simp add: flight_left_def)

lemma flight_left_store:
  "i < fl_number s \<Longrightarrow> fl_callers s i = Storing v \<Longrightarrow>
   flight_left (move i (Leaving (Some v)) (s\<lparr>fl_cache := Some v\<rparr>)) < flight_left s"
  using callers_left_move [of i "s\<lparr>fl_cache := Some v\<rparr>" "Leaving (Some v)"] by (simp add: flight_left_def)

lemma flight_left_fields [simp]:
  "flight_left (s\<lparr>fl_slot := x\<rparr>) = flight_left s" "flight_left (s\<lparr>fl_fetched := n\<rparr>) = flight_left s"
  by (simp_all add: flight_left_def)

lemma flight_left_step:
  assumes "flight_step s s'" "number_inv s"
  shows "flight_left s' < flight_left s"
proof -
  have started: "fl_callers s i = pc \<Longrightarrow> pc \<noteq> Calling \<Longrightarrow> i < fl_number s" for i pc
    using assms(2) by (auto simp: number_inv_def)
  show ?thesis
    using assms(1)
  proof (cases rule: flight_step.cases)
    case (hit i v)
    then show ?thesis by (simp add: flight_left_move)
  next
    case (miss i)
    then show ?thesis by (simp add: flight_left_move)
  next
    case (enter i)
    then show ?thesis
      using flight_left_move [of i "s\<lparr>fl_slot := Some i\<rparr>" Missed InSlot] started [of i] by simp
  next
    case (fetch_ok i v)
    then show ?thesis
      using flight_left_move [of i "s\<lparr>fl_fetched := Suc (fl_fetched s)\<rparr>" Fetching "Storing v"] started [of i] by simp
  next
    case (store i v)
    then show ?thesis
      using flight_left_store [of i s v] started [of i] by simp
  next
    case (leave i r)
    then show ?thesis
      using callers_left_leave [of i s r] started [of i] by (simp add: flight_left_def)
  next
    case dropped
    then show ?thesis by (simp add: flight_left_def)
  qed (use started in \<open>simp add: flight_left_move\<close>)+
qed

lemma flight_run_left:
  "(flight_step ^^ k) (flight_start n v) s \<Longrightarrow>
   number_inv s \<and> fl_number s = n \<and> k + flight_left s \<le> Suc (7 * n)"
proof (induction k arbitrary: s)
  case 0
  then have "s = flight_start n v"
    by simp
  then show ?case
    by (simp add: flight_start_def number_inv_def flight_left_def callers_left_def)
next
  case (Suc k)
  then obtain u where "(flight_step ^^ k) (flight_start n v) u" "flight_step u s"
    by auto
  with Suc.IH [of u] number_inv_step [of u s] flight_left_step [of u s] show ?case
    by auto
qed

text \<open>A caller that has not returned can move, or waits for the one in the slot, which can.\<close>

lemma slot_moves:
  assumes "in_slot (fl_callers s j)"
  shows "\<exists>s'. flight_step s s' \<and> fl_dropped s' = fl_dropped s"
proof (cases "fl_callers s j")
  case InSlot
  then show ?thesis
    using flight_step.second_hit [OF InSlot] flight_step.second_miss [OF InSlot]
    by (cases "fl_cache s") (metis move_simps(5))+
next
  case Fetching
  then show ?thesis
    using flight_step.fetch_fails [OF Fetching] by (metis move_simps(5))
next
  case (Storing w)
  then show ?thesis
    using flight_step.store [OF Storing] by fastforce
next
  case (Leaving r)
  then show ?thesis
    using flight_step.leave [OF Leaving] by (metis leave_slot_simps(5))
qed (use assms in auto)

lemma caller_moves:
  assumes "slot_inv s" "i < fl_number s" "\<nexists>r. fl_callers s i = Returned r"
  shows "\<exists>s'. flight_step s s' \<and> fl_dropped s' = fl_dropped s"
proof -
  consider j where "in_slot (fl_callers s j)" | "fl_callers s i = Calling" | "fl_callers s i = Missed"
    using assms(1,3) unfolding slot_inv_def by (cases "fl_callers s i") (metis in_slot.simps not_None_eq)+
  then show ?thesis
  proof cases
    case (1 j)
    then show ?thesis
      by (rule slot_moves)
  next
    case 2
    then show ?thesis
      using flight_step.hit [OF assms(2) 2] flight_step.miss [OF assms(2) 2]
      by (cases "fl_cache s") (metis move_simps(5))+
  next
    case 3
    then show ?thesis
      using flight_step.enter [OF 3] flight_step.wait [OF 3]
      by (cases "fl_slot s") fastforce+
  qed
qed

text \<open>
  C27. Every call returns: \<open>n\<close> concurrent calls for one key make at most 7n + 1 steps in all, removals
  of the entry included, in whatever order; and where no step is left but the removal of an entry,
  each of them has returned and the slot is free. So no caller is ever stuck, neither in the queue for
  the slot nor waiting for a result, whether the fetch fails or succeeds.
\<close>

theorem all_callers_return:
  assumes "(flight_step ^^ k) (flight_start n v) s"
  shows "k \<le> Suc (7 * n) \<and>
    ((\<forall>s'. flight_step s s' \<longrightarrow> fl_dropped s' \<noteq> fl_dropped s) \<longrightarrow>
       fl_slot s = None \<and> (\<forall>i < n. \<exists>r. fl_callers s i = Returned r))"
proof (intro conjI impI allI)
  have inv: "slot_inv s" "fl_number s = n"
    using assms flight_invs [of n v s] flight_run_left [OF assms] unfolding flight_reached_def
    by (auto dest: relpowp_imp_rtranclp)
  show "k \<le> Suc (7 * n)"
    using flight_run_left [OF assms] by simp
  assume stuck: "\<forall>s'. flight_step s s' \<longrightarrow> fl_dropped s' \<noteq> fl_dropped s"
  show "fl_slot s = None"
    using stuck inv(1) slot_moves [of s] unfolding slot_inv_def by (metis option.exhaust)
  show "\<exists>r. fl_callers s i = Returned r" if "i < n" for i
    using stuck caller_moves [of s i] inv that by auto
qed

section \<open>A run\<close>

text \<open>
  Two callers miss; the first one gets the slot and fetches while the second one waits. Then the
  fetch gives 7, which is stored and handed to both.
\<close>

definition demo_waiting :: "nat flight" where
  "demo_waiting =
     (let s = move 1 Missed (move 0 Missed (flight_start 2 None))
      in move 0 Fetching (move 1 Waiting (move 0 InSlot (s\<lparr>fl_slot := Some 0\<rparr>))))"

definition demo_served :: "nat flight" where
  "demo_served =
     (let s = move 0 (Storing 7) (demo_waiting\<lparr>fl_fetched := Suc (fl_fetched demo_waiting)\<rparr>)
      in leave_slot 0 (Some 7) (move 0 (Leaving (Some 7)) (s\<lparr>fl_cache := Some 7\<rparr>)))"

lemma reached_step: "flight_reached n v s \<Longrightarrow> flight_step s s' \<Longrightarrow> flight_reached n v s'"
  unfolding flight_reached_def by (rule rtranclp.rtrancl_into_rtrancl)

lemma reached_start: "flight_reached n v (flight_start n v)"
  by (simp add: flight_reached_def)

lemma demo_waiting_reached: "flight_reached 2 None demo_waiting"
proof -
  let ?s1 = "move 0 Missed (flight_start 2 None)"
  let ?s2 = "move 1 Missed ?s1"
  let ?s3 = "move 0 InSlot (?s2\<lparr>fl_slot := Some 0\<rparr>)"
  let ?s4 = "move 1 Waiting ?s3"
  note start = reached_start [of 2 None]
  have "flight_reached 2 None ?s1"
    by (rule reached_step [OF start]) (simp add: flight_step.miss flight_start_def)
  then have "flight_reached 2 None ?s2"
    by (rule reached_step) (simp add: flight_step.miss flight_start_def)
  then have "flight_reached 2 None ?s3"
    by (rule reached_step) (rule flight_step.enter, simp_all add: flight_start_def)
  then have "flight_reached 2 None ?s4"
    by (rule reached_step) (rule flight_step.wait, simp_all)
  then have "flight_reached 2 None (move 0 Fetching ?s4)"
    by (rule reached_step) (simp add: flight_step.second_miss flight_start_def)
  then show ?thesis
    by (simp only: demo_waiting_def Let_def)
qed

lemma demo_served_reached: "flight_reached 2 None demo_served"
proof -
  let ?s1 = "move 0 (Storing 7) (demo_waiting\<lparr>fl_fetched := Suc (fl_fetched demo_waiting)\<rparr>)"
  let ?s2 = "move 0 (Leaving (Some 7)) (?s1\<lparr>fl_cache := Some 7\<rparr>)"
  have "flight_reached 2 None ?s1"
    by (rule reached_step [OF demo_waiting_reached])
      (rule flight_step.fetch_ok, simp add: demo_waiting_def Let_def)
  then have "flight_reached 2 None ?s2"
    by (rule reached_step) (rule flight_step.store, simp)
  then have "flight_reached 2 None (leave_slot 0 (Some 7) ?s2)"
    by (rule reached_step) (rule flight_step.leave, simp)
  then show ?thesis
    by (simp only: demo_served_def Let_def)
qed

lemma fetched_once_witness:
  "fl_fetched demo_served = 1 \<and> fl_callers demo_served 1 = Returned (Some 7) \<and> fl_cache demo_served = Some 7"
  using fetched_once [OF demo_served_reached, of 1 7]
  by (simp add: demo_served_def demo_waiting_def Let_def flight_start_def)

lemma all_callers_return_witness:
  "fl_callers demo_served 0 = Returned (Some 7) \<and> fl_callers demo_served 1 = Returned (Some 7) \<and>
   (\<exists>k \<le> 15. (flight_step ^^ k) (flight_start 2 None) demo_served)"
proof -
  obtain k where k: "(flight_step ^^ k) (flight_start 2 None) demo_served"
    using demo_served_reached unfolding flight_reached_def by (auto dest: rtranclp_imp_relpowp)
  have "k \<le> 15"
    using all_callers_return [OF k] by simp
  moreover have "fl_callers demo_served 0 = Returned (Some 7)" "fl_callers demo_served 1 = Returned (Some 7)"
    by (simp_all add: demo_served_def demo_waiting_def Let_def flight_start_def)
  ultimately show ?thesis
    using k by blast
qed

end
