(* ===== verification/Flight_Refinement.thy ===== *)
theory Flight_Refinement
  imports Single_Flight Plugin_Safety
begin

text \<open>
  The detailed model of one resolution, \<open>resolveMappingWithSource\<close>, is a run of one caller of the
  step relation of \<^verbatim>\<open>Single_Flight\<close>: what is shown there for any number of callers is about the same
  code.
\<close>

section \<open>Undisturbed runs of one caller\<close>

lemma flight_steps: "flight_step s t \<Longrightarrow> flight_step\<^sup>*\<^sup>* t u \<Longrightarrow> flight_step\<^sup>*\<^sup>* s u"
  by (rule converse_rtranclp_into_rtranclp)

text \<open>
  \<open>t'\<close> is reached from \<open>t\<close> by steps in which caller \<open>i\<close> is answered with \<open>r\<close> and \<open>n\<close> fetches succeed; no
  other caller moves unless it waits for that answer, nothing is dropped, and the slot is free at
  the end.
\<close>

definition served :: "nat \<Rightarrow> 'v option \<Rightarrow> nat \<Rightarrow> 'v flight \<Rightarrow> 'v flight \<Rightarrow> bool" where
  "served i r n t t' \<longleftrightarrow> flight_step\<^sup>*\<^sup>* t t' \<and> fl_callers t' i = Returned r \<and> fl_slot t' = None \<and>
     (\<forall>j. j \<noteq> i \<longrightarrow> fl_callers t j \<noteq> Waiting \<longrightarrow> fl_callers t' j = fl_callers t j) \<and>
     fl_fetched t' = fl_fetched t + n \<and> fl_dropped t' = fl_dropped t"

lemma run_hit:
  assumes "i < fl_number t" "fl_callers t i = Calling" "fl_cache t = Some v" "fl_slot t = None"
  shows "\<exists>t'. served i (Some v) 0 t t' \<and> fl_cache t' = Some v"
  using assms flight_step.hit [OF assms(1-3)]
  by (intro exI [of _ "move i (Returned (Some v)) t"]) (auto simp: served_def)

text \<open>A miss leads into the slot, to the fetch.\<close>

lemma run_to_fetch:
  assumes "i < fl_number t" "fl_callers t i = Calling" "fl_cache t = None" "fl_slot t = None"
  shows "\<exists>t'. flight_step\<^sup>*\<^sup>* t t' \<and> fl_callers t' i = Fetching \<and> fl_cache t' = None \<and> fl_slot t' = Some i \<and>
    (\<forall>j. j \<noteq> i \<longrightarrow> fl_callers t' j = fl_callers t j) \<and> fl_fetched t' = fl_fetched t \<and> fl_dropped t' = fl_dropped t"
proof -
  let ?t1 = "move i Missed t"
  let ?t2 = "move i InSlot (?t1\<lparr>fl_slot := Some i\<rparr>)"
  have "flight_step t ?t1" "flight_step ?t1 ?t2" "flight_step ?t2 (move i Fetching ?t2)"
    using assms by (auto intro: flight_step.intros)
  then have "flight_step\<^sup>*\<^sup>* t (move i Fetching ?t2)"
    by (meson flight_steps rtranclp.rtrancl_refl)
  with assms show ?thesis
    by (intro exI [of _ "move i Fetching ?t2"]) simp
qed

lemma run_fetched:
  assumes "i < fl_number t" "fl_callers t i = Calling" "fl_cache t = None" "fl_slot t = None"
  shows "\<exists>t'. served i r (of_bool (r \<noteq> None)) t t' \<and> fl_cache t' = r"
proof -
  obtain s where s: "flight_step\<^sup>*\<^sup>* t s" "fl_callers s i = Fetching" "fl_cache s = None" "fl_slot s = Some i"
    "\<forall>j. j \<noteq> i \<longrightarrow> fl_callers s j = fl_callers t j" "fl_fetched s = fl_fetched t" "fl_dropped s = fl_dropped t"
    using run_to_fetch [OF assms] by blast
  show ?thesis
  proof (cases r)
    case None
    let ?s1 = "move i (Leaving None) s"
    have "flight_step s ?s1" "flight_step ?s1 (leave_slot i None ?s1)"
      using s by (auto intro: flight_step.intros)
    with s(1) have "flight_step\<^sup>*\<^sup>* t (leave_slot i None ?s1)"
      by (meson rtranclp.rtrancl_into_rtrancl)
    with s None show ?thesis
      by (intro exI [of _ "leave_slot i None ?s1"]) (simp add: served_def)
  next
    case (Some v)
    let ?s1 = "move i (Storing v) (s\<lparr>fl_fetched := Suc (fl_fetched s)\<rparr>)"
    let ?s2 = "move i (Leaving (Some v)) (?s1\<lparr>fl_cache := Some v\<rparr>)"
    have "flight_step s ?s1"
      by (rule flight_step.fetch_ok [OF s(2)])
    moreover have "flight_step ?s1 ?s2"
      by (rule flight_step.store) simp
    moreover have "flight_step ?s2 (leave_slot i (Some v) ?s2)"
      by (rule flight_step.leave) simp
    ultimately have "flight_step\<^sup>*\<^sup>* t (leave_slot i (Some v) ?s2)"
      using s(1) by (meson rtranclp.rtrancl_into_rtrancl)
    with s Some show ?thesis
      by (intro exI [of _ "leave_slot i (Some v) ?s2"]) (simp add: served_def)
  qed
qed

section \<open>What a resolution fetches\<close>

text \<open>
  A fetch asks the Kubernetes API for the pod before anything else that could issue credentials, and
  nothing else in a resolution does; so the fetches of a resolution are counted by these calls.
\<close>

definition fetches :: "event list \<Rightarrow> nat" where
  "fetches es = length (filter (\<lambda>e. call_of e = C_get_pod) es)"

lemma fetches_simps [simp]:
  "fetches [] = 0" "fetches (e # es) = (if call_of e = C_get_pod then 1 else 0) + fetches es"
  "fetches (es @ es') = fetches es + fetches es'"
  by (simp_all add: fetches_def)

lemma no_fetches: "\<forall>e \<in> set es. call_of e \<in> K \<Longrightarrow> C_get_pod \<notin> K \<Longrightarrow> fetches es = 0"
  by (auto simp: fetches_def filter_empty_conv)

lemma emits_no_fetches: "calls K m \<Longrightarrow> C_get_pod \<notin> K \<Longrightarrow> emits m (\<lambda>r es. fetches es = 0)"
  by (erule emits_calls) (rule no_fetches)

lemma emits_read_pod_fetches:
  "emits (read_pod E ns n) (\<lambda>r es. fetches es \<le> 1 \<and> (\<forall>p. r = Ok p \<longrightarrow> fetches es = 1))"
  unfolding read_pod_def GetKubernetesClient_def
  by (intro emits_intro) (auto split: res.splits intro!: emits_intro)

lemma emits_prepare_fetches:
  "emits (prepare_fetch E cfg ctx ns n) (\<lambda>r es. fetches es \<le> 1 \<and> (\<forall>x. r = Ok x \<longrightarrow> fetches es = 1))"
proof -
  have tokens: "emits (login_tokens E cfg p) (\<lambda>r es. fetches es = 0)" for p
    by (rule emits_no_fetches [where K = "{C_kube_client, C_create_token, C_read_file, C_metric}"]) auto
  show ?thesis
    unfolding prepare_fetch_def
    apply (rule emits_check, rule emits_conseq [OF emits_read_pod_fetches])
    apply (auto split: res.split intro!: emits_intro emits_conseq [OF tokens])
    done
qed

lemma emits_fetch_fetches:
  "emits (fetchAndBuildMapping E cfg ctx ns n b) (\<lambda>r es. fetches es \<le> 1 \<and> (\<forall>x. fst r = Ok x \<longrightarrow> fetches es = 1))"
proof -
  have loop: "emits (fetch_configs E cfg V i ds m l live b) (\<lambda>r es. fetches es = 0)" for V i ds m l live b
    by (rule emits_no_fetches [OF calls_fetch_configs [OF subset_refl]]) (simp add: fetch_calls_def)
  have revoke: "emits (revoke_all E f cs) (\<lambda>r es. fetches es = 0)" for f cs
    by (rule emits_no_fetches [OF calls_revoke_all [OF subset_refl]]) simp
  show ?thesis
    unfolding fetchAndBuildMapping_def Let_def
    apply (rule emits_bind, rule emits_conseq [OF emits_prepare_fetches])
    apply (split res.split, intro conjI allI impI)
      apply (split prod.split, intro allI impI)
      apply (rule emits_bind, rule emits_conseq [OF loop])
      apply (auto split: res.split intro!: emits_intro emits_conseq [OF revoke])
    done
qed

lemma emits_resolution_fetches:
  "emits (resolveMappingWithSource E shared cfg p uid ns n src) (\<lambda>r es. fetches es \<le> 1 \<and>
     (cached p uid \<noteq> None \<longrightarrow> fetches es = 0) \<and>
     (cached p uid = None \<longrightarrow> (\<forall>m. fst r = Ok m \<longrightarrow> fetches es = 1)))"
proof -
  have save: "emits (saveCache E path pods) (\<lambda>r es. fetches es = 0)" for path pods
    by (rule emits_no_fetches [where K = "{C_fs}"]) auto
  have inside: "emits (fetch_and_cache E cfg p uid ns n src) (\<lambda>r es. fetches es \<le> 1 \<and>
      (\<forall>m. fst r = Ok m \<longrightarrow> fetches es = 1))" if "map_of (pl_cache p) uid = None"
    unfolding fetch_and_cache_def that option.case Let_def
    apply (rule emits_bind, rule emits_conseq [OF emits_fetch_fetches])
    apply (auto split: res.split prod.split intro!: emits_intro emits_conseq [OF save])
    done
  show ?thesis
  proof (cases "map_of (pl_cache p) uid")
    case None
    show ?thesis
      unfolding resolveMappingWithSource_def None option.case
      apply (rule emits_bind, rule emits_conseq [OF inside [OF None]])
      apply (auto simp: cached_def None split: res.split intro!: emits_intro)
      done
  next
    case (Some m)
    then show ?thesis
      unfolding resolveMappingWithSource_def Let_def
      by (auto simp: cached_def intro!: emits_intro)
  qed
qed

section \<open>The resolution is such a run\<close>

definition resolved :: "'v res \<Rightarrow> 'v option" where
  "resolved r = (case r of Ok v \<Rightarrow> Some v | _ \<Rightarrow> None)"

lemma resolved_simps [simp]: "resolved (Ok v) = Some v" "resolved (Err err) = None" "resolved Panic = None"
  by (simp_all add: resolved_def)

lemma emits_resolution:
  assumes "plugin_ok p"
  shows "emits (resolveMappingWithSource E shared cfg p uid ns n src) (\<lambda>r es.
     plugin_ok (snd r) \<and> cached (snd r) uid = (case cached p uid of Some m \<Rightarrow> Some m | None \<Rightarrow> resolved (fst r)) \<and>
     (\<forall>m. cached p uid = Some m \<longrightarrow> fst r = Ok m))"
proof (cases "cached p uid")
  case None
  then have none: "map_of (pl_cache p) uid = None"
    by (simp add: cached_def)
  show ?thesis
    unfolding resolveMappingWithSource_def none option.case
    apply (rule emits_bind, rule emits_conseq [OF emits_fetch_and_cache [OF assms]])
    apply (auto simp: None split: res.split intro!: emits_intro)
    done
next
  case (Some m)
  then show ?thesis
    by (intro emits_conseq [OF emits_resolveMappingWithSource [OF assms]]) auto
qed

text \<open>
  C25. A resolution is a run of one caller of the step relation: from any state of the relation with
  the same cached value and a free slot there are steps that answer the caller with the
  resolution's result, drop nothing, and end with a free slot and the cached value that the plugin
  then has. A resolution asks for the pod at most once, not at all when the mapping is cached, and
  the number of successful fetches of the run is the number of these calls when it succeeds. So
  sequences of resolutions are runs, too.
\<close>

theorem resolve_simulated:
  assumes "plugin_ok p" "fl_cache t = cached p uid" "fl_slot t = None" "i < fl_number t" "fl_callers t i = Calling"
  shows "emits (resolveMappingWithSource E shared cfg p uid ns n src) (\<lambda>r es. plugin_ok (snd r) \<and>
    fetches es \<le> 1 \<and> (cached p uid \<noteq> None \<longrightarrow> fetches es = 0) \<and>
    (\<exists>t'. served i (resolved (fst r)) (if resolved (fst r) = None then 0 else fetches es) t t' \<and>
       fl_cache t' = cached (snd r) uid))"
proof (rule emits_conseq [OF emits_conj [OF emits_resolution [OF assms(1)] emits_resolution_fetches]], elim conjE, intro conjI)
  fix r :: "mapping res \<times> plugin" and es
  assume r: "cached (snd r) uid = (case cached p uid of Some m \<Rightarrow> Some m | None \<Rightarrow> resolved (fst r))"
    "\<forall>m. cached p uid = Some m \<longrightarrow> fst r = Ok m" "cached p uid \<noteq> None \<longrightarrow> fetches es = 0"
    "cached p uid = None \<longrightarrow> (\<forall>m. fst r = Ok m \<longrightarrow> fetches es = 1)"
  show "\<exists>t'. served i (resolved (fst r)) (if resolved (fst r) = None then 0 else fetches es) t t' \<and>
      fl_cache t' = cached (snd r) uid"
  proof (cases "cached p uid")
    case None
    then have "(if resolved (fst r) = None then 0 else fetches es) = of_bool (resolved (fst r) \<noteq> None)"
      using r(4) by (cases "fst r") auto
    then show ?thesis
      using None r(1) assms(2-5) run_fetched [of i t "resolved (fst r)"] by auto
  next
    case (Some m)
    then show ?thesis
      using r(1-3) assms(2-5) run_hit [of i t] by auto
  qed
qed

lemma resolve_simulated_witness:
  "\<exists>t'. served 0 (Some demo_mapping) 0 (flight_start 1 (Some demo_mapping)) t' \<and> fl_cache t' = Some demo_mapping"
proof -
  let ?run = "run_state (resolveMappingWithSource calm_env False default_config demo_plugin ''u1'' ''ns'' ''p1'' ''sync'') []"
  have hit: "cached demo_plugin ''u1'' = Some demo_mapping"
    by (simp add: cached_def) code_simp
  then have run: "fst (fst ?run) = Ok demo_mapping" "snd (fst ?run) = demo_plugin" "fetches (snd ?run) = 0"
    by (simp_all add: resolveMappingWithSource_def cached_def Let_def)
  show ?thesis
    using emits_run [OF resolve_simulated [OF demo_plugin_ok, of "flight_start 1 (Some demo_mapping)" "''u1''" 0
          calm_env False default_config "''ns''" "''p1''" "''sync''"]] hit run
    by (simp add: flight_start_def)
qed

end
