(* ===== verification/Bookkeeping_Safety.thy ===== *)
theory Bookkeeping_Safety
  imports Revoker Mutator_Safety Fetch_Cleanup
begin

text \<open>
  What ties the issuers of credentials to the jobs that look after them: under which KV entry the
  webhook and the agent record what they issue, what the revoker's periodic comparison may remove,
  and what is read back of an entry.
\<close>

section \<open>What the periodic comparison may remove\<close>

text \<open>The entry \<open>ki\<close> is what a read of its path gave during the run.\<close>

definition entry_read :: "string \<Rightarrow> string \<Rightarrow> KeyInfo \<Rightarrow> event list \<Rightarrow> bool" where
  "entry_read s pfx ki es \<longleftrightarrow>
     (\<exists>cl sec m. LogicalRead cl (s @ ''/data/'' @ kv_full_path pfx (PodNameUID ki)) (Inr sec) \<in> set es \<and>
        data_field_of sec = DataMap m \<and> ki = keyInfoFromMap (PodNameUID ki) m)"

lemma entry_read_mono: "entry_read s pfx ki es \<Longrightarrow> set es \<subseteq> set ts \<Longrightarrow> entry_read s pfx ki ts"
  unfolding entry_read_def by (meson subsetD)

lemma kv_paths: "Sprintf ''%s/data/%s/%s'' [s, pfx, u] = s @ ''/data/'' @ kv_full_path pfx u"
  "kv_full_path pfx u = pfx @ ''/'' @ u"
  by (simp_all add: kv_full_path_def)

lemma emits_read_key:
  "emits (read_key E cl s pfx k) (\<lambda>r es. \<forall>ki. r = Found ki \<longrightarrow> entry_read s pfx ki es)"
  unfolding read_key_def Let_def kv_paths(1)
  by (intro emits_intro)
    (auto simp: entry_read_def split: option.splits any.splits sum.splits data_field.splits intro!: emits_intro)

lemma emits_read_keys:
  "emits (read_keys E cl s pfx ks) (\<lambda>r es. \<forall>ki. Found ki \<in> set r \<longrightarrow> entry_read s pfx ki es)"
proof (induction ks)
  case (Cons k ks)
  show ?case
    unfolding read_keys.simps
    apply (rule emits_bind, rule emits_conseq [OF emits_read_key])
    apply (rule emits_bind, rule emits_conseq [OF Cons])
    apply (rule emits_return, auto elim!: entry_read_mono)
    done
qed (simp add: emits_return)

lemma emits_ListKeyInfo:
  "emits (ListKeyInfo E lsched c s pfx) (\<lambda>r es. \<forall>kis err. r = Ok (kis, err) \<longrightarrow>
     (\<forall>ki \<in> set kis. entry_read s pfx ki es))"
  unfolding ListKeyInfo_def Let_def
  apply (cases "client c", simp add: with_client_def emits_return, simp add: with_client_def)
  apply (intro emits_intro)
  apply (split sum.split option.split any.split, intro conjI allI impI)+
  apply (auto intro!: emits_intro split: option.split any.split)
  apply (rule emits_conseq [OF emits_read_keys])
  apply (auto simp: set_found_infos intro!: emits_return elim!: entry_read_mono)
  done

text \<open>Deleting what a vanished pod left removes nothing else.\<close>

lemma only_removes_HandlePodDeletionToken:
  "only {e. removes_only ki s pfx e} (HandlePodDeletionToken E c ki s pfx)"
  unfolding HandlePodDeletionToken_def RevokeOrphanToken_def DeleteData_def with_client_def Let_def
  by (auto split: option.splits sum.splits)

definition removes_unlisted :: "string set \<Rightarrow> KeyInfo list \<Rightarrow> string \<Rightarrow> string \<Rightarrow> event \<Rightarrow> bool" where
  "removes_unlisted us kis s pfx e \<longleftrightarrow>
     (removal e \<longrightarrow> (\<exists>ki \<in> set kis. PodNameUID ki \<notin> us \<and> removes_only ki s pfx e))"

lemma only_removes_cleanup_orphans:
  "only {e. removes_unlisted us kis (VaultSecretName cfg) (VaultSecretPrefix cfg) e} (cleanup_orphans E c cfg us kis)"
proof (induction kis)
  case (Cons ki kis)
  let ?S = "{e. removes_unlisted us (ki # kis) (VaultSecretName cfg) (VaultSecretPrefix cfg) e}"
  have rest: "only ?S (cleanup_orphans E c cfg us kis)"
    by (rule only_mono [OF Cons]) (auto simp: removes_unlisted_def)
  have "only ?S (HandlePodDeletionToken E c ki (VaultSecretName cfg) (VaultSecretPrefix cfg))" if "PodNameUID ki \<notin> us"
    by (rule only_mono [OF only_removes_HandlePodDeletionToken]) (use that in \<open>auto simp: removes_unlisted_def\<close>)
  with rest show ?case
    by (auto split: res.split)
qed simp

lemma only_no_removal:
  "calls K m \<Longrightarrow> K \<inter> {C_revoke_orphan, C_revoke_self, C_kv_delete, C_kv_delete_metadata} = {} \<Longrightarrow>
    emits m (\<lambda>_ es. \<forall>e \<in> set es. \<not> removal e)"
  by (erule emits_calls) (auto simp: removal_def)

lemma emits_GetAllPods:
  "emits (GetAllPodAndNamespace E cfg) (\<lambda>r es. (\<forall>e \<in> set es. \<not> removal e) \<and>
     (\<forall>infos. r = Ok infos \<longrightarrow> (\<exists>pods. pods \<noteq> [] \<and> infos = map pod_info pods \<and>
        ListPods (InjectorLabel cfg @ ''=true'') '''' (Inr pods) \<in> set es)))"
  unfolding GetAllPodAndNamespace_def Let_def
  by (intro emits_intro) (auto simp: removal_def split: sum.splits intro!: emits_intro)

lemma all_uuids_pod_info: "all_uuids (map pod_info pods) = (\<Union>p \<in> set pods. set (pod_uuids p))"
  by (simp add: all_uuids_def pod_info_def)

lemma unlisted_removals:
  assumes "\<forall>ki \<in> set kis. entry_read s pfx ki es" and "\<forall>e \<in> set (es @ es'). \<not> removal e"
    and "\<exists>pods. pods \<noteq> [] \<and> infos = map pod_info pods \<and> ListPods l f (Inr pods) \<in> set es'"
    and "set es'' \<subseteq> {e. removes_unlisted (all_uuids infos) kis s pfx e}"
    and "e \<in> set (es @ es' @ es'')" "removal e"
  shows "\<exists>pods ki. ListPods l f (Inr pods) \<in> set (es @ es' @ es'') \<and> pods \<noteq> [] \<and>
    entry_read s pfx ki (es @ es' @ es'') \<and> (\<forall>p \<in> set pods. PodNameUID ki \<notin> set (pod_uuids p)) \<and>
    removes_only ki s pfx e"
proof -
  obtain pods where pods: "pods \<noteq> []" "infos = map pod_info pods" "ListPods l f (Inr pods) \<in> set es'"
    using assms(3) by blast
  have "e \<in> set es''"
    using assms(2,5,6) by auto
  then obtain ki where ki: "ki \<in> set kis" "PodNameUID ki \<notin> all_uuids infos" "removes_only ki s pfx e"
    using assms(4,6) by (auto simp: removes_unlisted_def)
  have "entry_read s pfx ki (es @ es' @ es'')"
    using assms(1) ki(1) by (auto intro: entry_read_mono [of s pfx ki es])
  with ki pods show ?thesis
    by (intro exI [of _ pods] exI [of _ ki]) (simp add: all_uuids_pod_info)
qed

text \<open>
  C4. The revoker's periodic comparison removes something only after the API has listed the pods:
  every token it revokes and every KV entry it deletes belong to an entry that was read in this
  run and whose UUID is none of a listed pod. When the listing fails or is empty nothing is removed.
\<close>

theorem safety_net_spares_listed:
  "emits (safetyNetSync E lsched cfg c) (\<lambda>r es. \<forall>e \<in> set es. removal e \<longrightarrow>
     (\<exists>pods ki. ListPods (InjectorLabel cfg @ ''=true'') '''' (Inr pods) \<in> set es \<and> pods \<noteq> [] \<and>
        entry_read (VaultSecretName cfg) (VaultSecretPrefix cfg) ki es \<and>
        (\<forall>p \<in> set pods. PodNameUID ki \<notin> set (pod_uuids p)) \<and>
        removes_only ki (VaultSecretName cfg) (VaultSecretPrefix cfg) e))"
proof -
  have list: "emits (ListKeyInfo E lsched c (VaultSecretName cfg) (VaultSecretPrefix cfg)) (\<lambda>r es.
      (\<forall>e \<in> set es. \<not> removal e) \<and> (\<forall>kis err. r = Ok (kis, err) \<longrightarrow>
        (\<forall>ki \<in> set kis. entry_read (VaultSecretName cfg) (VaultSecretPrefix cfg) ki es)))"
    by (rule emits_conj [OF only_no_removal [where K = "{C_list, C_limiter, C_read}"] emits_ListKeyInfo]) auto
  show ?thesis
    unfolding safetyNetSync_def
    apply (rule emits_check, rule emits_conseq [OF list])
    apply (split res.split, intro conjI allI impI)
      apply (split prod.split, intro allI impI, split if_split, intro conjI impI)
       apply (rule emits_return, simp)
      apply (rule emits_bind, rule emits_conseq [OF emits_GetAllPods])
      apply (split res.split, intro conjI allI impI)
        apply (rule emits_conseq [OF only_removes_cleanup_orphans [unfolded only_def]])
    subgoal for r es kis_err kis err r' es' infos u es''
      by (intro ballI impI, rule unlisted_removals [of kis _ _ es es' infos _ _ es'']) auto
       apply (rule emits_return, auto)+
    done
qed

section \<open>What the deletion of a pod settles\<close>

text \<open>
  Nothing is left of the UUID: either its entry was read and removed, or the read found none (no
  data, or an error that says so).
\<close>

definition no_entry :: "goerr + secret option \<Rightarrow> bool" where
  "no_entry a = (case a of Inl err \<Rightarrow> err_is err KeyNotFound | Inr sec \<Rightarrow> data_field_of sec = NoData)"

definition uuid_settled :: "string \<Rightarrow> string \<Rightarrow> string \<Rightarrow> event list \<Rightarrow> bool" where
  "uuid_settled s pfx u es \<longleftrightarrow>
     (\<exists>cl a. no_entry a \<and> LogicalRead cl (s @ ''/data/'' @ kv_full_path pfx u) a \<in> set es) \<or>
     (\<exists>ki. PodNameUID ki = u \<and> entry_read s pfx ki es \<and> entry_removed s pfx ki es)"

lemma uuid_settled_mono: "uuid_settled s pfx u es \<Longrightarrow> set es \<subseteq> set ts \<Longrightarrow> uuid_settled s pfx u ts"
  unfolding uuid_settled_def using entry_read_mono entry_removed_mono by blast

lemma uuid_settled_append:
  "uuid_settled s pfx u es \<Longrightarrow> uuid_settled s pfx u (es @ ts)"
  "uuid_settled s pfx u ts \<Longrightarrow> uuid_settled s pfx u (es @ ts)"
  "uuid_settled s pfx u ts \<Longrightarrow> uuid_settled s pfx u (e # ts)"
  by (auto elim: uuid_settled_mono)

lemma no_entry_simps [simp]:
  "no_entry (Inl err) = err_is err KeyNotFound" "no_entry (Inr sec) \<longleftrightarrow> data_field_of sec = NoData"
  by (simp_all add: no_entry_def)

lemma emits_GetKeyInfo:
  "emits (GetKeyInfo E c u s pfx) (\<lambda>r es. (\<forall>e \<in> set es. call_of e = C_read) \<and>
     (\<forall>ki. r = Ok ki \<longrightarrow> PodNameUID ki = u \<and> entry_read s pfx ki es) \<and>
     (\<forall>err. r = Err err \<longrightarrow> err_is err KeyNotFound \<longrightarrow> uuid_settled s pfx u es))"
  unfolding GetKeyInfo_def with_client_def Let_def kv_paths(1)
  by (auto simp: uuid_settled_def entry_read_def split: option.split sum.splits data_field.splits
      intro!: emits_intro)

abbreviation cleanup_counted :: event where
  "cleanup_counted \<equiv> Metric (Inc PodCleanupSuccessCount [])"

lemma emits_deletion_counts:
  "emits (HandlePodDeletionToken E c ki s pfx) (\<lambda>r es. cleanup_counted \<notin> set es \<and>
     (r = Ok () \<longrightarrow> entry_removed s pfx ki es))"
proof (rule emits_conj [OF _ emits_HandlePodDeletionToken_removed])
  have "only {e. e \<noteq> cleanup_counted} (HandlePodDeletionToken E c ki s pfx)"
    unfolding HandlePodDeletionToken_def RevokeOrphanToken_def DeleteData_def with_client_def Let_def
    by (auto split: option.splits sum.splits)
  then show "emits (HandlePodDeletionToken E c ki s pfx) (\<lambda>r es. cleanup_counted \<notin> set es)"
    unfolding only_def by (rule emits_conseq) auto
qed

lemma removed_settled:
  "entry_read s pfx ki es \<Longrightarrow> entry_removed s pfx ki es' \<Longrightarrow> uuid_settled s pfx (PodNameUID ki) (es @ es' @ es'')"
  unfolding uuid_settled_def by (auto intro!: exI [of _ ki] elim: entry_read_mono entry_removed_mono)

lemma emits_revoke_uuids:
  "emits (revoke_uuids E c cfg us ok) (\<lambda>r es. cleanup_counted \<notin> set es \<and>
     (r = Ok True \<longrightarrow> ok \<and> (\<forall>u \<in> set us. uuid_settled (VaultSecretName cfg) (VaultSecretPrefix cfg) u es)))"
proof (induction us arbitrary: ok)
  case (Cons u us)
  have reading: "cleanup_counted \<notin> set es" if "\<forall>e \<in> set es. call_of e = C_read" for es
    using that by fastforce
  show ?case
    unfolding revoke_uuids.simps
    apply (rule emits_bind, rule emits_conseq [OF emits_GetKeyInfo])
    apply (split res.split, intro conjI allI impI)
      apply (rule emits_bind, rule emits_conseq [OF emits_deletion_counts])
      apply (split res.split, intro conjI allI impI)
        apply (rule emits_conseq [OF Cons])
        apply (auto dest: reading intro: removed_settled uuid_settled_append)[1]
       apply (rule emits_bind, rule emits_metric, rule emits_conseq [OF Cons], auto dest: reading)[1]
      apply (rule emits_return, auto dest: reading)[1]
     apply (split if_split, intro conjI impI)
      apply (rule emits_conseq [OF Cons], auto dest: reading intro: uuid_settled_append)[1]
     apply (rule emits_bind, rule emits_metric, rule emits_conseq [OF Cons], auto dest: reading)[1]
    apply (rule emits_return, auto dest: reading)
    done
qed (simp add: emits_return)

text \<open>
  C5. A deletion is counted as cleaned up only when nothing is left of the pod: for every UUID of
  its annotation the entry was read, its token revoked (or gone) and the entry deleted, or there
  was no entry. It is counted at most once, and a pod without the annotation is not touched.
\<close>

theorem counted_deletion_settles:
  "emits (handle_deleted E c cfg p) (\<lambda>r es.
     case map_of (pod_annotations p) ANNOTATION_VAULT_POD_UUID of
       None \<Rightarrow> es = []
     | Some v \<Rightarrow> count_list es cleanup_counted \<le> 1 \<and> (cleanup_counted \<in> set es \<longrightarrow>
         (\<forall>u \<in> set (Split v CHR '',''). uuid_settled (VaultSecretName cfg) (VaultSecretPrefix cfg) u es)))"
  unfolding handle_deleted_def
  apply (split option.split, intro conjI allI impI)
   apply (rule emits_return, simp)
  apply (rule emits_check, rule emits_conseq [OF emits_revoke_uuids])
  apply (auto simp: count_list_0_iff split: res.split intro!: emits_intro intro: uuid_settled_append)
  done

section \<open>Under which keys credentials are recorded\<close>

text \<open>If the event starts the recording of issued credentials, their entry's UUID is in \<open>us\<close>.\<close>

definition stored_under :: "string set \<Rightarrow> string \<Rightarrow> event \<Rightarrow> bool" where
  "stored_under us pfx e = (case e of SpawnStoreData a t s path d \<Rightarrow> path \<in> kv_full_path pfx ` us | _ \<Rightarrow> True)"

lemma stored_under_simps [simp]:
  "stored_under us pfx (SpawnStoreData a t s path d) \<longleftrightarrow> path \<in> kv_full_path pfx ` us"
  "stored_under us pfx (LogicalRead cl path' r)" "stored_under us pfx (Metric op)" "stored_under us pfx (NewUUID u)"
  by (simp_all add: stored_under_def)

lemma stored_under_other: "call_of e \<noteq> C_spawn_store \<Longrightarrow> stored_under us pfx e"
  by (cases e) (auto simp: stored_under_def)

lemma stored_under_mono: "stored_under us pfx e \<Longrightarrow> us \<subseteq> vs \<Longrightarrow> stored_under vs pfx e"
  by (auto simp: stored_under_def split: event.splits)

lemma only_stored_calls: "calls K m \<Longrightarrow> C_spawn_store \<notin> K \<Longrightarrow> only {e. stored_under us pfx e} m"
  unfolding calls_def by (erule only_mono) (auto intro: stored_under_other)

lemma only_stored_GetDbCredentials:
  "only {e. stored_under {req_PodNameUID req} (req_Prefix req) e} (GetDbCredentials E c req)"
proof -
  have "only {e. stored_under {req_PodNameUID req} (req_Prefix req) e} (acquire_token E c req)"
    by (rule only_stored_calls [where K = "{C_create_orphan, C_metric}"]) auto
  moreover have "only {e. stored_under {req_PodNameUID req} (req_Prefix req) e} (read_credentials E c' tok req)" for c' tok
    unfolding read_credentials_def with_client_def StoreDataAsync_def Let_def
    by (auto simp: NewKeyInfo_def split: option.splits sum.splits any.splits)
  ultimately show ?thesis
    unfolding GetDbCredentials_def by (auto split: prod.splits res.splits)
qed

subsection \<open>The agent\<close>

lemma only_stored_fetch_one:
  "only {e. stored_under {config_uuid V i} (VaultSecretPrefix cfg) e} (fetch_one E cfg V i d b)"
proof -
  have issue: "only {e. stored_under {config_uuid V i} (VaultSecretPrefix cfg) e} (issue_for E cfg c (config_uuid V i) ns sa d i)"
    for c ns sa
    unfolding issue_for_def
    using only_stored_GetDbCredentials [of "creds_request cfg (config_uuid V i) ns sa" E c]
    by (auto simp: creds_request_def)
  have login: "only {e. stored_under {config_uuid V i} (VaultSecretPrefix cfg) e} (Login E c)" for c
    by (rule only_stored_calls [where K = "{C_new_client, C_k8s_auth, C_login}"]) auto
  have proj: "only {e. stored_under {config_uuid V i} (VaultSecretPrefix cfg) e} (authorize_projected E cfg c tok d i b)" for c tok
    by (rule only_stored_calls [where K = "{C_lookup_self, C_metric, C_now, C_new_client, C_k8s_auth, C_login}"]) auto
  have legacy: "only {e. stored_under {config_uuid V i} (VaultSecretPrefix cfg) e} (authorize_legacy E cfg c sa ns d i)" for c sa ns
    by (rule only_stored_calls [where K = "{C_read, C_metric}"]) auto
  show ?thesis
    unfolding fetch_one_def Let_def
    by (auto intro!: login proj legacy issue split: option.split res.split prod.split)
qed

lemma only_stored_fetch_configs:
  "only {e. stored_under (range (config_uuid V)) (VaultSecretPrefix cfg) e} (fetch_configs E cfg V i ds m l cs b)"
proof (induction ds arbitrary: i m l cs b)
  case (Cons d ds)
  have "only {e. stored_under (range (config_uuid V)) (VaultSecretPrefix cfg) e} (fetch_one E cfg V i d b)"
    by (rule only_mono [OF only_stored_fetch_one]) (auto elim: stored_under_mono)
  with Cons show ?case
    by (auto simp: Let_def split: res.split)
qed simp

lemma pod_db_uuids_subset: "insert (pod_uid p) (set (pod_db_uuids p (pod_uid p))) \<subseteq> set (pod_uuids p)"
  by (auto simp: pod_db_uuids_def pod_uuids_def lookup_str_def Let_def split: option.splits if_splits)

lemma config_uuid_fresh:
  "fv_contextID V = pod_uid p \<Longrightarrow> fv_podUuids V = pod_db_uuids p (pod_uid p) \<Longrightarrow> config_uuid V i \<in> set (pod_uuids p)"
  using pod_db_uuids_subset [of p] by (auto simp: config_uuid_def subset_iff)

lemma emits_prepare_fetch_uuids:
  "emits (prepare_fetch E cfg u ns n) (\<lambda>r es. (\<forall>e \<in> set es. stored_under {} pfx e) \<and>
     (\<forall>V ds. r = Ok (V, ds) \<longrightarrow> (\<exists>p. GetPod ns n (Inr p) \<in> set es \<and> pod_uid p = u \<and>
        range (config_uuid V) \<subseteq> set (pod_uuids p))))"
proof (rule emits_conj)
  show "emits (prepare_fetch E cfg u ns n) (\<lambda>r es. \<forall>e \<in> set es. stored_under {} pfx e)"
    by (rule emits_calls [where K = prepare_calls]) (auto simp: prepare_calls_def dest!: bspec intro!: stored_under_other)
  show "emits (prepare_fetch E cfg u ns n) (\<lambda>r es. \<forall>V ds. r = Ok (V, ds) \<longrightarrow>
      (\<exists>p. GetPod ns n (Inr p) \<in> set es \<and> pod_uid p = u \<and> range (config_uuid V) \<subseteq> set (pod_uuids p)))"
    unfolding prepare_fetch_def
    apply (rule emits_check, rule emits_conseq [OF emits_read_pod])
    apply (split res.split, intro conjI allI impI)
      apply (split if_split, intro conjI impI)
       apply (rule emits_return, simp)
      apply (rule emits_check, rule emits_return, split res.split, intro conjI allI impI)
        apply (rule emits_check, rule emits_return, split res.split, intro conjI allI impI)
          apply (split if_split, intro conjI impI)
           apply (rule emits_return, simp)
          apply (rule emits_check, rule emits_any, (auto simp: login_tokens_def split: res.split)[1])
          apply (split res.split, intro conjI allI impI, split prod.split, intro allI impI)
            apply (rule emits_return, auto simp: config_uuid_fresh)[1]
    apply simp_all
    done
qed

lemma stored_in_parts:
  assumes "\<exists>p. GetPod ns n (Inr p) \<in> set es \<and> pod_uid p = u \<and> range (config_uuid V) \<subseteq> set (pod_uuids p)"
    and "\<forall>e \<in> set (es @ es''). call_of e \<noteq> C_spawn_store"
    and "set es' \<subseteq> {e. stored_under (range (config_uuid V)) pfx e}"
  shows "\<forall>e \<in> set (es @ es' @ es''). call_of e = C_spawn_store \<longrightarrow> (\<exists>p. GetPod ns n (Inr p) \<in> set (es @ es' @ es'') \<and>
    pod_uid p = u \<and> stored_under (set (pod_uuids p)) pfx e)"
proof (intro ballI impI)
  fix e assume e: "e \<in> set (es @ es' @ es'')" "call_of e = C_spawn_store"
  obtain p where p: "GetPod ns n (Inr p) \<in> set es" "pod_uid p = u" "range (config_uuid V) \<subseteq> set (pod_uuids p)"
    using assms(1) by blast
  have "stored_under (range (config_uuid V)) pfx e"
    using e assms(2,3) by auto
  then have "stored_under (set (pod_uuids p)) pfx e"
    using p(3) by (rule stored_under_mono)
  with p show "\<exists>p. GetPod ns n (Inr p) \<in> set (es @ es' @ es'') \<and> pod_uid p = u \<and>
      stored_under (set (pod_uuids p)) pfx e"
    by auto
qed

lemma emits_fetch_stored:
  "emits (fetchAndBuildMapping E cfg u ns n b) (\<lambda>r es.
     \<forall>e \<in> set es. call_of e = C_spawn_store \<longrightarrow> (\<exists>p. GetPod ns n (Inr p) \<in> set es \<and> pod_uid p = u \<and>
       stored_under (set (pod_uuids p)) (VaultSecretPrefix cfg) e))"
proof -
  let ?pfx = "VaultSecretPrefix cfg"
  have no_spawn: "stored_under {} ?pfx e \<Longrightarrow> call_of e \<noteq> C_spawn_store" for e
    by (cases e) auto
  have revoke: "emits (revoke_all E f cs) (\<lambda>r es. \<forall>e \<in> set es. call_of e \<noteq> C_spawn_store)" for f cs
    by (rule emits_calls [where K = "{C_new_client, C_revoke_self, C_metric}"]) auto
  show ?thesis
    unfolding fetchAndBuildMapping_def
    apply (rule emits_bind, rule emits_conseq [OF emits_prepare_fetch_uuids [where pfx = ?pfx]])
    apply (split res.split, intro conjI allI impI)
      apply (split prod.split, intro allI impI)
      apply (rule emits_bind, rule emits_conseq [OF only_stored_fetch_configs [unfolded only_def]])
      apply (simp only: Let_def)
      apply (rule emits_conseq [where Q = "\<lambda>_ es. \<forall>e \<in> set es. call_of e \<noteq> C_spawn_store"])
       apply (auto split: res.split intro!: emits_intro emits_conseq [OF revoke])[1]
    subgoal for pr es Vds V ds l es' r es''
      by (rule stored_in_parts [where V = V]) (use no_spawn in auto)
    apply (auto intro!: emits_return dest: no_spawn)
    done
qed

subsection \<open>The webhook\<close>

text \<open>A UUID in its text form is not empty and has no comma.\<close>

definition uuid_text :: "string \<Rightarrow> bool" where
  "uuid_text u \<longleftrightarrow> u \<noteq> '''' \<and> CHR '','' \<notin> set u"

definition uuids_ok :: "env \<Rightarrow> bool" where
  "uuids_ok E \<longleftrightarrow> (\<forall>h. uuid_text (e_uuid E h))"

lemma emits_generateUUID:
  "uuids_ok E \<Longrightarrow> emits (generateUUID E) (\<lambda>u es. uuid_text u \<and> (\<forall>e \<in> set es. call_of e \<noteq> C_spawn_store))"
  by (simp add: generateUUID_def uuids_ok_def emits_def perform_def)

lemma emits_fetchDbCredentials_stored:
  assumes "uuids_ok E"
  shows "emits (fetchDbCredentials E cfg d c p) (\<lambda>r es. \<forall>creds. fst r = Ok creds \<longrightarrow>
    uuid_text (PodUUID creds) \<and> (\<forall>e \<in> set es. stored_under {PodUUID creds} (VaultSecretPrefix cfg) e))"
  unfolding fetchDbCredentials_def
  apply (rule emits_bind, rule emits_conseq [OF emits_generateUUID [OF assms]])
  apply (rule emits_bind, rule emits_conseq [OF only_stored_GetDbCredentials [unfolded only_def]])
  apply (rule emits_return, auto simp: creds_request_def stored_under_other split: res.splits prod.splits)
  done

lemma emits_no_store:
  assumes "calls K m" "C_spawn_store \<notin> K" "\<And>r es. \<forall>us pfx. \<forall>e \<in> set es. stored_under us pfx e \<Longrightarrow> P r es"
  shows "emits m P"
  using assms by (elim emits_calls) (metis stored_under_other)

lemma emits_inject_body_stored:
  assumes "uuids_ok E"
  shows "emits (inject_body E cfg d c p) (\<lambda>r es. \<forall>u. fst r = Ok u \<longrightarrow>
    uuid_text u \<and> (\<forall>e \<in> set es. stored_under {u} (VaultSecretPrefix cfg) e))"
  unfolding inject_body_def
  apply (rule emits_bind, rule emits_conseq [where Q = "\<lambda>f es. case fst f of
      Ok (Some creds) \<Rightarrow> uuid_text (PodUUID creds) \<and> (\<forall>e \<in> set es. stored_under {PodUUID creds} (VaultSecretPrefix cfg) e)
    | Ok None \<Rightarrow> \<forall>e \<in> set es. call_of e \<noteq> C_spawn_store
    | _ \<Rightarrow> True"])
   apply (auto split: prod.splits res.splits intro!: emits_intro emits_conseq [OF emits_fetchDbCredentials_stored [OF assms]])[1]
  apply (split prod.split, intro allI impI, split res.split, intro conjI allI impI)
    apply (rule emits_bind, rule emits_no_store [OF calls_applyEnv, OF subset_refl], simp)
    apply (split res.split, intro conjI allI impI)
      apply (rule emits_bind, rule emits_no_store [OF calls_release_login, OF subset_refl], simp)
      apply (split res.split, intro conjI allI impI)
        apply (rule emits_bind, split option.split, intro conjI allI impI)
         apply (rule emits_conseq [OF emits_generateUUID [OF assms]], rule emits_return)
         apply (auto intro: stored_under_other)[1]
        apply (rule emits_return, rule emits_return)
        apply (auto simp: Ball_def)[1]
       apply (auto intro!: emits_return)
  done

lemma emits_inject_configs_stored:
  assumes "uuids_ok E"
  shows "emits (inject_configs E cfg path tok injTok ds us st) (\<lambda>r es. \<forall>us'. fst r = Ok us' \<longrightarrow>
    list_all uuid_text us \<longrightarrow> list_all uuid_text us' \<and> set us \<subseteq> set us' \<and>
      (\<forall>e \<in> set es. stored_under (set us') (VaultSecretPrefix cfg) e))"
proof (induction ds arbitrary: us st)
  case (Cons d ds)
  show ?case
    unfolding inject_configs.simps
    apply (split option.split, intro conjI allI impI)
     apply (rule emits_bind, rule emits_no_store [OF calls_authorizeDbAccess, OF subset_refl], simp add: authorize_calls_def)
     apply (split prod.split, intro allI impI, split res.split, intro conjI allI impI)
       apply (rule emits_bind, rule emits_conseq [OF emits_inject_body_stored [OF assms]])
       apply (simp only: Let_def, split res.split, intro conjI allI impI)
         apply (rule emits_conseq [OF Cons], auto intro: stored_under_mono)[1]
        apply (auto intro!: emits_return)
    done
qed (simp add: emits_return)

lemma emits_injectCredentials_stored:
  assumes "uuids_ok E"
  shows "emits (injectCredentialsIntoPod E cfg ds path tok injTok p b) (\<lambda>r es. \<forall>us. fst r = Ok us \<longrightarrow>
    list_all uuid_text us \<and> (\<forall>e \<in> set es. stored_under (set us) (VaultSecretPrefix cfg) e))"
  unfolding injectCredentialsIntoPod_def
  apply (split if_split, intro conjI impI)
   apply (rule emits_return, simp)
  apply (rule emits_bind, rule emits_conseq [OF emits_inject_configs_stored [OF assms]])
  apply (auto split: prod.split res.split if_splits intro!: emits_intro emits_any)
  done

lemma pod_uuids_annotated:
  assumes "list_all uuid_text us"
  shows "set us \<subseteq> set (tl (pod_uuids (set_annotation ANNOTATION_VAULT_POD_UUID (Join us '','') q)))"
proof (cases "us = []")
  case False
  have "Split (Join us '','') CHR '','' = us"
    using False assms by (intro Split_Join) (auto simp: list_all_iff uuid_text_def)
  moreover from this have "Join us '','' \<noteq> ''''"
    using False assms by (cases us) (auto simp: uuid_text_def)
  ultimately show ?thesis
    by (auto simp: pod_uuids_def set_annotation_def update_conv')
qed simp

lemma emits_mutate_stored:
  assumes "uuids_ok E"
  shows "emits (mutate E cfg p entries) (\<lambda>(r, p', entries') es. r = Ok () \<longrightarrow>
    (\<forall>e \<in> set es. stored_under (set (tl (pod_uuids p'))) (VaultSecretPrefix cfg) e))"
  unfolding mutate_def
  apply (rule emits_bind, rule emits_no_store [OF calls_generateUUID, OF subset_refl], simp)
  apply (split res.split, intro conjI allI impI)
    apply (rule emits_bind, rule emits_no_store [where K = "{C_kube_client, C_create_token, C_read_file, C_metric}"])
      apply (auto simp: webhook_tokens_def split: res.splits)[2]
    apply (split res.split, intro conjI allI impI)
      apply (split prod.split, intro allI impI)
      apply (rule emits_bind, rule emits_conseq [OF emits_injectCredentials_stored [OF assms]])
      apply (auto simp: Let_def split: prod.split res.split intro!: emits_intro)
   apply (meson pod_uuids_annotated stored_under_mono)
  apply (meson empty_subsetI stored_under_mono)
  done

text \<open>
  Also when it fails, the webhook records nothing under a UUID that it did not draw itself in this
  admission; in NRI mode it records nothing at all.
\<close>

definition drawn_uuids :: "event list \<Rightarrow> string set" where
  "drawn_uuids es = {u. NewUUID u \<in> set es}"

lemma drawn_uuids_append [simp]: "drawn_uuids (es @ es') = drawn_uuids es \<union> drawn_uuids es'"
  by (auto simp: drawn_uuids_def)

abbreviation stored_drawn :: "string \<Rightarrow> event list \<Rightarrow> bool" where
  "stored_drawn pfx es \<equiv> \<forall>e \<in> set es. stored_under (drawn_uuids es) pfx e"

lemma stored_drawn_append: "stored_drawn pfx es \<Longrightarrow> stored_drawn pfx es' \<Longrightarrow> stored_drawn pfx (es @ es')"
  by (auto elim: stored_under_mono)

lemma emits_stored_drawn: "calls K m \<Longrightarrow> C_spawn_store \<notin> K \<Longrightarrow> emits m (\<lambda>r es. stored_drawn pfx es)"
  by (rule emits_no_store) auto

lemma drawn_bind:
  assumes "emits m (\<lambda>r es. stored_drawn pfx es)" "\<And>a. emits (k a) (\<lambda>r es. stored_drawn pfx es)"
  shows "emits (State_Monad.bind m k) (\<lambda>r es. stored_drawn pfx es)"
  by (rule emits_bind, rule emits_conseq [OF assms(1)], rule emits_conseq [OF assms(2)])
    (rule stored_drawn_append)

lemma drawn_return: "emits (ret a) (\<lambda>r es. stored_drawn pfx es)"
  by (rule emits_return) simp

lemma drawn_fetchDbCredentials:
  "emits (fetchDbCredentials E cfg d c p) (\<lambda>r es. stored_drawn (VaultSecretPrefix cfg) es)"
proof -
  have "emits (generateUUID E) (\<lambda>u es. es = [NewUUID u])"
    by (simp add: generateUUID_def emits_def perform_def)
  then show ?thesis
    unfolding fetchDbCredentials_def
    apply (rule emits_bind [OF emits_conseq])
    apply (rule emits_bind, rule emits_conseq [OF only_stored_GetDbCredentials [unfolded only_def]])
    apply (rule emits_return)
    apply (auto simp: creds_request_def drawn_uuids_def elim!: stored_under_mono dest!: subsetD)
    done
qed

lemma drawn_inject_body:
  "emits (inject_body E cfg d c p) (\<lambda>r es. stored_drawn (VaultSecretPrefix cfg) es)"
proof -
  have 1: "emits (applyEnvToContainersWithNRI E q d' cr b) (\<lambda>r es. stored_drawn (VaultSecretPrefix cfg) es)" for q d' cr b
    by (rule emits_stored_drawn [OF calls_applyEnv [OF subset_refl]]) simp
  have 2: "emits (release_login E cfg c') (\<lambda>r es. stored_drawn (VaultSecretPrefix cfg) es)" for c'
    by (rule emits_stored_drawn [OF calls_release_login [OF subset_refl]]) simp
  have 3: "emits (generateUUID E) (\<lambda>r es. stored_drawn (VaultSecretPrefix cfg) es)"
    by (rule emits_stored_drawn [OF calls_generateUUID [OF subset_refl]]) simp
  show ?thesis
    unfolding inject_body_def
    by (auto intro!: drawn_bind drawn_return drawn_fetchDbCredentials 1 2 3 split: prod.split res.split option.split)
qed

lemma drawn_inject_configs:
  "emits (inject_configs E cfg path tok injTok ds us st) (\<lambda>r es. stored_drawn (VaultSecretPrefix cfg) es)"
proof (induction ds arbitrary: us st)
  case (Cons d ds)
  have "emits (authorizeDbAccess E cfg d path tok injTok p b) (\<lambda>r es. stored_drawn (VaultSecretPrefix cfg) es)" for p b
    by (rule emits_stored_drawn [OF calls_authorizeDbAccess [OF subset_refl]]) (simp add: authorize_calls_def)
  then show ?case
    unfolding inject_configs.simps Let_def
    by (auto intro!: drawn_bind drawn_return drawn_inject_body Cons split: prod.split res.split option.split)
qed (simp add: drawn_return)

lemma drawn_mutate: "emits (mutate E cfg p entries) (\<lambda>r es. stored_drawn (VaultSecretPrefix cfg) es)"
proof -
  have 1: "emits (generateUUID E) (\<lambda>r es. stored_drawn (VaultSecretPrefix cfg) es)"
    by (rule emits_stored_drawn [OF calls_generateUUID [OF subset_refl]]) simp
  have 2: "emits (webhook_tokens E cfg p) (\<lambda>r es. stored_drawn (VaultSecretPrefix cfg) es)"
    by (rule emits_stored_drawn [where K = "{C_kube_client, C_create_token, C_read_file, C_metric}"])
      (auto simp: webhook_tokens_def split: res.splits)
  have 3: "emits (revoke_all E f cs) (\<lambda>r es. stored_drawn (VaultSecretPrefix cfg) es)" for f cs
    by (rule emits_stored_drawn [OF calls_revoke_all [OF subset_refl]]) simp
  have 4: "emits (metric op) (\<lambda>r es. stored_drawn (VaultSecretPrefix cfg) es)" for op
    by (rule emits_metric) simp
  show ?thesis
    unfolding mutate_def injectCredentialsIntoPod_def Let_def
    by (auto intro!: drawn_bind drawn_return drawn_inject_configs 1 2 3 4 split: prod.split res.split)
qed

subsection \<open>Both together\<close>

text \<open>
  C6. Under which UUIDs credentials are recorded. For an admitted pod each is a UUID of the annotation
  that the webhook returns, and for the agent, whether its fetch fails or not, one of the pod that the
  API returned for the sandbox: these are the UUIDs by which renewer and revoker know the pod, so the
  entry is renewed while the pod is listed and never taken for that of a vanished pod. An admission
  that fails may have recorded something, too, but only under a UUID that it drew itself, which no
  pod then carries in an annotation.
\<close>

theorem entries_tracked:
  assumes "uuids_ok E"
  shows "emits (mutate E cfg p entries) (\<lambda>(r, p', entries') es.
      (r = Ok () \<longrightarrow> (\<forall>a t s path d. SpawnStoreData a t s path d \<in> set es \<longrightarrow>
        (\<exists>u \<in> set (tl (pod_uuids p')). path = kv_full_path (VaultSecretPrefix cfg) u))) \<and>
      (\<forall>a t s path d. SpawnStoreData a t s path d \<in> set es \<longrightarrow>
        (\<exists>u. NewUUID u \<in> set es \<and> path = kv_full_path (VaultSecretPrefix cfg) u))) \<and>
    emits (fetchAndBuildMapping E cfg uid ns n b) (\<lambda>r es.
      \<forall>a t s path d. SpawnStoreData a t s path d \<in> set es \<longrightarrow>
        (\<exists>q. GetPod ns n (Inr q) \<in> set es \<and> pod_uid q = uid \<and>
          (\<exists>u \<in> set (pod_uuids q). path = kv_full_path (VaultSecretPrefix cfg) u)))"
proof
  show "emits (mutate E cfg p entries) (\<lambda>(r, p', entries') es.
      (r = Ok () \<longrightarrow> (\<forall>a t s path d. SpawnStoreData a t s path d \<in> set es \<longrightarrow>
        (\<exists>u \<in> set (tl (pod_uuids p')). path = kv_full_path (VaultSecretPrefix cfg) u))) \<and>
      (\<forall>a t s path d. SpawnStoreData a t s path d \<in> set es \<longrightarrow>
        (\<exists>u. NewUUID u \<in> set es \<and> path = kv_full_path (VaultSecretPrefix cfg) u)))"
    by (rule emits_conseq [OF emits_conj [OF emits_mutate_stored [OF assms] drawn_mutate]])
      (fastforce simp: drawn_uuids_def)
  show "emits (fetchAndBuildMapping E cfg uid ns n b) (\<lambda>r es.
      \<forall>a t s path d. SpawnStoreData a t s path d \<in> set es \<longrightarrow>
        (\<exists>q. GetPod ns n (Inr q) \<in> set es \<and> pod_uid q = uid \<and>
          (\<exists>u \<in> set (pod_uuids q). path = kv_full_path (VaultSecretPrefix cfg) u)))"
    by (rule emits_conseq [OF emits_fetch_stored]) fastforce
qed

section \<open>What is written is read back\<close>

text \<open>
  The KV engine as far as its clients see it: the entries by the path they are read under, after a
  history of calls. A successful write replaces the entry; a successful deletion of the data, or of
  the metadata, removes it.
\<close>

type_synonym kv_contents = "string \<rightharpoonup> (string \<times> string) list"

definition read_path :: "string \<Rightarrow> string \<Rightarrow> string" where
  "read_path s path = s @ ''/data/'' @ path"

fun kv_after :: "event \<Rightarrow> kv_contents \<Rightarrow> kv_contents" where
  "kv_after (KvPut cl s path d None) m = m(read_path s path \<mapsto> d)"
| "kv_after (KvDelete cl s path None) m = m(read_path s path := None)"
| "kv_after (KvDeleteMetadata cl s path None) m = m(read_path s path := None)"
| "kv_after _ m = m"

definition kv_contents :: "event list \<Rightarrow> kv_contents" where
  "kv_contents h = fold kv_after h Map.empty"

definition kv_secret :: "(string \<times> string) list \<Rightarrow> secret" where
  "kv_secret d = \<lparr>sec_data = [(''data'', AMap (to_any d))], sec_lease_id = '''', sec_lease_duration = 0,
     sec_client_token = None, sec_token_ttl = Inr 0\<rparr>"

text \<open>Reads are answered from the contents; a deletion is answered with 404 only if nothing is there.\<close>

definition kv_backed :: "env \<Rightarrow> bool" where
  "kv_backed E \<longleftrightarrow>
     (\<forall>h cl path. e_read E h cl path = Inr (map_option kv_secret (kv_contents h path))) \<and>
     (\<forall>h cl s path err. e_kv_delete E h cl s path = Some err \<longrightarrow> isNotFound err \<longrightarrow>
        kv_contents h (read_path s path) = None)"

text \<open>No call of the piece of history writes or deletes the entry.\<close>

definition kv_untouched :: "string \<Rightarrow> event list \<Rightarrow> bool" where
  "kv_untouched path es \<longleftrightarrow> (\<forall>e \<in> set es. \<forall>m. kv_after e m path = m path)"

lemma kv_untouched_contents: "kv_untouched path es \<Longrightarrow> kv_contents (h @ es) path = kv_contents h path"
  unfolding kv_contents_def fold_append comp_def
proof (induction es arbitrary: h rule: rev_induct)
  case (snoc e es)
  then show ?case
    by (auto simp: kv_untouched_def)
qed simp

lemma kv_contents_snoc: "kv_contents (h @ [e]) = kv_after e (kv_contents h)"
  by (simp add: kv_contents_def)

lemma kv_after_other: "call_of e \<notin> {C_kv_put, C_kv_delete, C_kv_delete_metadata} \<Longrightarrow> kv_after e m = m"
  by (cases "(e, m)" rule: kv_after.cases) auto

lemma kv_after_metric [simp]: "kv_after (Metric op) m = m"
  by simp

lemma run_StoreData:
  assumes "run_state (StoreData E c ki s u n pfx) h = (Ok (), h')"
  shows "kv_contents h' (read_path s (kv_full_path pfx (PodNameUID ki))) = Some (store_map ki)"
  using assms
  by (auto simp: StoreData_def with_client_def Let_def perform_def metric_def emit_def kv_contents_def
    split: option.splits)

lemma run_GetKeyInfo:
  assumes "kv_backed E" "client c = Some cl"
  shows "fst (run_state (GetKeyInfo E c u s pfx) h) =
    (case kv_contents h (read_path s (kv_full_path pfx u)) of
       None \<Rightarrow> Err (Wrap KeyNotFound (Sprintf ''no vault data found for uuid %s'' [u]))
     | Some d \<Rightarrow> Ok (keyInfoFromMap u (to_any d)))"
proof -
  have "Sprintf ''%s/data/%s/%s'' [s, pfx, u] = read_path s (kv_full_path pfx u)"
    by (simp only: read_path_def kv_paths(1))
  then show ?thesis
    using assms
    by (simp add: GetKeyInfo_def with_client_def Let_def kv_backed_def kv_secret_def data_field_of_def
      del: Sprintf.simps split: option.split)
qed

lemma run_DeleteData:
  assumes "kv_backed E" "run_state (DeleteData E c s u n pfx) h = (Ok (), h')"
  shows "kv_contents h' (read_path s (kv_full_path pfx u)) = None"
  using assms
  by (auto simp: DeleteData_def with_client_def Let_def perform_def metric_def emit_def kv_backed_def kv_contents_def
    simp del: Sprintf.simps split: option.splits if_splits)

lemma run_HandlePodDeletionToken:
  assumes "kv_backed E" "run_state (HandlePodDeletionToken E c ki s pfx) h = (Ok (), h')"
  shows "kv_contents h' (read_path s (kv_full_path pfx (PodNameUID ki))) = None"
proof -
  obtain h1 h2 where del: "run_state (DeleteData E c s (PodNameUID ki) (ki_Namespace ki) pfx) h1 = (Ok (), h2)"
    and h': "h' = h2 @ [Metric (DeleteLabelValues LeaseExpirationInTime [PodNameUID ki, ki_Namespace ki]),
      Metric (DeleteLabelValues TokenExpirationInTime [PodNameUID ki, ki_Namespace ki])]"
    using assms(2)
    by (auto simp: HandlePodDeletionToken_def check_def metric_def emit_def split_def prod_eq_iff split: res.splits)
  show ?thesis
    using run_DeleteData [OF assms(1) del] by (simp add: h' kv_contents_def)
qed

text \<open>
  C7. The life of an entry: after \<open>StoreData\<close> succeeded, a read of the pod's UUID gives the same
  entry, whoever reads and whatever else happened to other entries; after
  \<open>HandlePodDeletionToken\<close> succeeded it gives \<open>KeyNotFound\<close>, which the revoker takes for done.
\<close>

theorem entry_life:
  assumes "kv_backed E" "client c' = Some cl" "kv_untouched (read_path s (kv_full_path pfx (PodNameUID ki))) es"
  shows "(run_state (StoreData E c ki s u n pfx) h = (Ok (), h1) \<longrightarrow>
      fst (run_state (GetKeyInfo E c' (PodNameUID ki) s pfx) (h1 @ es)) = Ok ki) \<and>
    (run_state (HandlePodDeletionToken E c ki s pfx) h = (Ok (), h1) \<longrightarrow>
      (\<exists>err. fst (run_state (GetKeyInfo E c' (PodNameUID ki) s pfx) (h1 @ es)) = Err err \<and> err_is err KeyNotFound))"
  using run_StoreData [of E c ki s u n pfx h h1] run_HandlePodDeletionToken [OF assms(1), of c ki s pfx h h1]
    kv_untouched_contents [OF assms(3), of h1]
  by (auto simp: run_GetKeyInfo [OF assms(1,2)] key_info.decode_encode simp del: Sprintf.simps)

section \<open>Examples\<close>

text \<open>Two entries are listed, one of a pod that exists and one of a pod that is gone.\<close>

definition demo_conn :: connector where
  "demo_conn = (NewConnector ''http://vault'' '''' '''' '''' '''' '''' 0)
     \<lparr>client := Some \<lparr>cl_address = ''http://vault'', cl_token = ''own''\<rparr>\<rparr>"

definition demo_comparison :: "unit res \<times> event list" where
  "demo_comparison = run_state (safetyNetSync calm_env id legacy_config demo_conn) []"

definition demo_deletion :: event where
  "demo_deletion = KvDelete \<lparr>cl_address = ''http://vault'', cl_token = ''own''\<rparr> (VaultSecretName legacy_config)
     (kv_full_path (VaultSecretPrefix legacy_config) ''u2'') None"

lemma safety_net_spares_listed_witness:
  "demo_deletion \<in> set (snd demo_comparison) \<and>
   (\<exists>pods ki. ListPods (InjectorLabel legacy_config @ ''=true'') '''' (Inr pods) \<in> set (snd demo_comparison) \<and>
     pods \<noteq> [] \<and> entry_read (VaultSecretName legacy_config) (VaultSecretPrefix legacy_config) ki (snd demo_comparison) \<and>
     (\<forall>p \<in> set pods. PodNameUID ki \<notin> set (pod_uuids p)) \<and>
     removes_only ki (VaultSecretName legacy_config) (VaultSecretPrefix legacy_config) demo_deletion)"
proof
  show e: "demo_deletion \<in> set (snd demo_comparison)"
    by code_simp
  have "removal demo_deletion"
    by (simp add: removal_def demo_deletion_def)
  with e show "\<exists>pods ki. ListPods (InjectorLabel legacy_config @ ''=true'') '''' (Inr pods) \<in> set (snd demo_comparison) \<and>
     pods \<noteq> [] \<and> entry_read (VaultSecretName legacy_config) (VaultSecretPrefix legacy_config) ki (snd demo_comparison) \<and>
     (\<forall>p \<in> set pods. PodNameUID ki \<notin> set (pod_uuids p)) \<and>
     removes_only ki (VaultSecretName legacy_config) (VaultSecretPrefix legacy_config) demo_deletion"
    unfolding demo_comparison_def
    by (rule emits_run [OF safety_net_spares_listed, THEN bspec, THEN mp])
qed

definition demo_admission :: "(unit res \<times> pod \<times> BookkeepingTokenCache) \<times> event list" where
  "demo_admission = run_state (mutate calm_env legacy_config calm_pod NewBookkeepingTokenCache) []"

definition admitted :: pod where
  "admitted = fst (snd (fst demo_admission))"

lemma entries_tracked_witness:
  "list_ex (\<lambda>e. call_of e = C_spawn_store) (snd demo_admission) \<and> ''uuid'' \<in> set (pod_uuids admitted)"
proof
  show store: "list_ex (\<lambda>e. call_of e = C_spawn_store) (snd demo_admission)"
    by code_simp
  have path: "list_all (\<lambda>e. case e of SpawnStoreData a t s path d \<Rightarrow>
      path = kv_full_path (VaultSecretPrefix legacy_config) ''uuid'' | _ \<Rightarrow> True) (snd demo_admission)"
    by code_simp
  have "fst (fst demo_admission) = Ok ()"
    by code_simp
  moreover have "uuids_ok calm_env"
    by (simp add: uuids_ok_def uuid_text_def calm_env_def)
  ultimately have tracked: "\<forall>a t s path d. SpawnStoreData a t s path d \<in> set (snd demo_admission) \<longrightarrow>
      (\<exists>u \<in> set (tl (pod_uuids admitted)). path = kv_full_path (VaultSecretPrefix legacy_config) u)"
    using emits_run [OF conjunct1 [OF entries_tracked [of calm_env legacy_config calm_pod NewBookkeepingTokenCache]],
        folded demo_admission_def]
    by (simp add: admitted_def split_def)
  from store obtain a t s pth d where "SpawnStoreData a t s pth d \<in> set (snd demo_admission)"
    by (auto simp: list_ex_iff elim!: call_of.elims)
  with path tracked have "''uuid'' \<in> set (tl (pod_uuids admitted))"
    by (fastforce simp: list_all_iff kv_paths(2))
  then show "''uuid'' \<in> set (pod_uuids admitted)"
    by (cases "pod_uuids admitted") auto
qed

text \<open>A world with a KV engine.\<close>

definition kv_env :: env where
  "kv_env = calm_env\<lparr>e_read := \<lambda>h cl path. Inr (map_option kv_secret (kv_contents h path))\<rparr>"

definition demo_entry :: KeyInfo where
  "demo_entry = NewKeyInfo ''u1'' ''lease'' ''token'' ''ns'' ''app'' ''p1'' ''node''"

definition demo_stored :: "event list" where
  "demo_stored = snd (run_state (StoreData kv_env demo_conn demo_entry ''kv'' ''u1'' ''ns'' ''creds'') [])"

lemma entry_life_witness:
  "fst (run_state (GetKeyInfo kv_env demo_conn ''u1'' ''kv'' ''creds'') (demo_stored @ [TimeNow 0])) = Ok demo_entry"
proof -
  have kv: "kv_backed kv_env"
    by (simp add: kv_backed_def kv_env_def calm_env_def)
  have "kv_untouched p [TimeNow 0]" for p
    by (simp add: kv_untouched_def)
  moreover have "client demo_conn = Some \<lparr>cl_address = ''http://vault'', cl_token = ''own''\<rparr>"
    by (simp add: demo_conn_def)
  moreover have "run_state (StoreData kv_env demo_conn demo_entry ''kv'' ''u1'' ''ns'' ''creds'') [] = (Ok (), demo_stored)"
    unfolding demo_stored_def by (rule prod_eqI) (code_simp, simp)
  moreover have "PodNameUID demo_entry = ''u1''"
    by (simp add: demo_entry_def NewKeyInfo_def)
  ultimately show ?thesis
    using entry_life [OF kv, of demo_conn _ "''kv''" "''creds''" demo_entry "[TimeNow 0]" demo_conn "''u1''" "''ns''" "[]" demo_stored]
    by metis
qed

definition gone_pod :: pod where
  "gone_pod = calm_pod\<lparr>pod_annotations := [(ANNOTATION_VAULT_POD_UUID, ''u1,u2'')]\<rparr>"

definition demo_cleanup :: "unit res \<times> event list" where
  "demo_cleanup = run_state (handle_deleted calm_env demo_conn legacy_config gone_pod) []"

lemma counted_deletion_settles_witness:
  "uuid_settled (VaultSecretName legacy_config) (VaultSecretPrefix legacy_config) ''u2'' (snd demo_cleanup)"
proof -
  have "cleanup_counted \<in> set (snd demo_cleanup)" "''u2'' \<in> set (Split ''u1,u2'' CHR '','')"
    by code_simp+
  moreover have "map_of (pod_annotations gone_pod) ANNOTATION_VAULT_POD_UUID = Some ''u1,u2''"
    by (simp add: gone_pod_def)
  ultimately show ?thesis
    using emits_run [OF counted_deletion_settles [of calm_env demo_conn legacy_config gone_pod], folded demo_cleanup_def]
    by simp
qed

end
