(* ===== verification/Webhook_Logins.thy ===== *)
theory Webhook_Logins
  imports Mutator_Safety
begin

text \<open>
  What an admission leaves behind in Vault: the login tokens that the mutating webhook obtains with
  the pod's token (the injector's token in legacy mode), which of them it revokes, and the one that
  it forgets when an access is refused after the login.
\<close>

section \<open>Logins and grants in the order of the calls\<close>

definition login_by :: "string \<Rightarrow> event \<Rightarrow> string list" where
  "login_by jwt e = (case e of AuthLogin a p role j (Inr tok) \<Rightarrow> (if j = jwt then [tok] else []) | _ \<Rightarrow> [])"

definition logins :: "string \<Rightarrow> event list \<Rightarrow> string list" where
  "logins jwt es = concat (map (login_by jwt) es)"

text \<open>
  The access to a database is granted after the login: in projected mode unless the bookkeeping
  login that follows fails, which the webhook counts under \<^verbatim>\<open>projected_bookkeeping\<close>; in legacy mode
  when the role check accepts the pod's ServiceAccount, which it counts as well.
\<close>

definition granted :: event where
  "granted = Metric (Inc ServiceAccountAuthorized [])"

definition bookkeeping_refused :: "event \<Rightarrow> bool" where
  "bookkeeping_refused e = (case e of
     Metric (Inc VaultLoginErrors labels) \<Rightarrow> labels \<noteq> [] \<and> last labels = ''projected_bookkeeping''
   | _ \<Rightarrow> False)"

definition all_granted :: "Config \<Rightarrow> string \<Rightarrow> event list \<Rightarrow> bool" where
  "all_granted cfg jwt es =
     (if UseProjectedSA cfg then list_all (\<lambda>e. \<not> bookkeeping_refused e) es
      else count_list es granted = length (logins jwt es))"

lemma logins_simps [simp]:
  "logins jwt [] = []" "logins jwt (e # es) = login_by jwt e @ logins jwt es"
  "logins jwt (xs @ ys) = logins jwt xs @ logins jwt ys"
  by (simp_all add: logins_def)

lemma all_granted_Nil [simp]: "all_granted cfg jwt []"
  by (simp add: all_granted_def)

lemma all_granted_append: "all_granted cfg jwt xs \<Longrightarrow> all_granted cfg jwt (xs @ ys) = all_granted cfg jwt ys"
  by (simp add: all_granted_def)

text \<open>Calls that are neither a login with the token nor a decision about an access.\<close>

definition neutral :: "string \<Rightarrow> event \<Rightarrow> bool" where
  "neutral jwt e \<longleftrightarrow> login_by jwt e = [] \<and> e \<noteq> granted \<and> \<not> bookkeeping_refused e"

lemma neutral_logins: "set es \<subseteq> {e. neutral jwt e} \<Longrightarrow> logins jwt es = []"
  by (induction es) (auto simp: neutral_def)

lemma neutral_decisions:
  "set es \<subseteq> {e. neutral jwt e} \<Longrightarrow> list_all (\<lambda>e. \<not> bookkeeping_refused e) es \<and> granted \<notin> set es"
  by (auto simp: neutral_def list_all_iff)

lemma neutral_granted: "set es \<subseteq> {e. neutral jwt e} \<Longrightarrow> all_granted cfg jwt es"
  by (simp add: all_granted_def neutral_logins neutral_decisions)

lemma neutral_not_metric: "call_of e \<notin> {C_login, C_metric} \<Longrightarrow> neutral jwt e"
  by (cases e) (simp_all add: neutral_def login_by_def granted_def bookkeeping_refused_def)

lemma neutral_simps [simp]:
  "neutral jwt (NewVaultClient a cr)" "neutral jwt (NewKubernetesAuth p q j kr)"
  "neutral jwt (RevokeSelf cl rr)" "neutral jwt (TokenLookupSelf cl lr)" "neutral jwt (TimeNow t)"
  "neutral jwt (CreateOrphan cl ttl n ps cor)" "neutral jwt (LogicalRead cl path rd)"
  "neutral jwt (SpawnStoreData a tk m pf d)"
  by (simp_all add: neutral_not_metric)

lemma neutral_Inc [simp]:
  "name \<noteq> ServiceAccountAuthorized \<Longrightarrow> name \<noteq> VaultLoginErrors \<Longrightarrow> neutral jwt (Metric (Inc name ls))"
  by (simp add: neutral_def login_by_def granted_def bookkeeping_refused_def split: metric.splits)

lemma only_neutral_calls: "calls K m \<Longrightarrow> K \<inter> {C_login, C_metric} = {} \<Longrightarrow> only {e. neutral jwt e} m"
  unfolding calls_def by (erule only_mono) (auto intro: neutral_not_metric)

lemma only_neutral_RevokeSelf [intro!]: "only {e. neutral jwt e} (RevokeSelfToken E c tok)"
  unfolding RevokeSelfToken_def NewClient_def Let_def
  by (auto split: res.splits option.splits)

lemma only_neutral_revoke_all [intro!]: "only {e. neutral jwt e} (revoke_all E f cs)"
  by (induction cs) (auto split: res.splits)

section \<open>One access\<close>

lemma only_neutral_check_period [intro!]: "only {e. neutral jwt e} (check_period E c role)"
  unfolding check_period_def VerifyTokenPeriod_def
  by (auto split: res.splits sum.splits option.splits)

lemma only_neutral_Login:
  "k8sSaToken c \<noteq> jwt \<Longrightarrow> only {e. neutral jwt e} (Login E c)"
  unfolding Login_def NewClient_def
  by (auto simp: neutral_def login_by_def granted_def bookkeeping_refused_def
      split: res.splits option.splits sum.splits)

lemma only_neutral_book_token:
  "tok \<noteq> jwt \<Longrightarrow> only {e. neutral jwt e} (book_token E cfg b tok role)"
  unfolding book_token_def Get_def valid_entry_def LoginAsInjectorSA_def NewConnector_def Let_def
  by (auto intro!: only_neutral_Login split: option.splits res.splits)

lemma emits_Login_logins:
  "emits (Login E c) (\<lambda>r es.
     logins (k8sSaToken c) es = (case r of Ok c' \<Rightarrow> [vaultToken c'] | _ \<Rightarrow> []) \<and>
     list_all (\<lambda>e. \<not> bookkeeping_refused e) es \<and> granted \<notin> set es)"
  unfolding Login_def NewClient_def
  by (intro emits_intro) (auto simp: login_by_def granted_def bookkeeping_refused_def
      split: res.splits option.splits sum.splits intro!: emits_intro)

text \<open>The role check: the access is granted exactly when it is counted.\<close>

lemma emits_CanIGetRoles_granted:
  "emits (CanIGetRoles E c sa ns path role) (\<lambda>r es. logins jwt es = [] \<and>
     count_list es granted = (case r of Ok _ \<Rightarrow> 1 | _ \<Rightarrow> 0))"
  unfolding CanIGetRoles_def deny_def Let_def
  by (intro emits_intro) (auto simp: login_by_def granted_def role_list_def
      split: res.splits option.splits sum.splits intro!: emits_intro)

lemma no_self_revoked_authorize:
  "emits (authorizeDbAccess E cfg d path tok injTok p b) (\<lambda>r es. self_revoked es = {})"
  by (rule emits_calls [where K = authorize_calls])
    (auto simp: no_self_revoked [where K = authorize_calls] authorize_calls_def)

definition outcome_of_access :: "Config \<Rightarrow> string \<Rightarrow> connector res \<Rightarrow> event list \<Rightarrow> bool" where
  "outcome_of_access cfg tok r es \<longleftrightarrow>
     (\<forall>c. r = Ok c \<longrightarrow> logins tok es = [cleanup_token cfg c] \<and> all_granted cfg tok es) \<and>
     (\<forall>err. r = Err err \<longrightarrow>
        (if all_granted cfg tok es then logins tok es = [] else length (logins tok es) = 1))"

lemma emits_authorize_projected_access:
  assumes "UseProjectedSA cfg" "tok \<noteq> injTok"
  shows "emits (authorizeDbAccess E cfg d path tok injTok p b) (\<lambda>r es. outcome_of_access cfg tok (fst r) es)"
  unfolding authorizeDbAccess_def Let_def if_P [OF assms(1)]
  apply (rule emits_bind, rule emits_conseq [OF emits_Login_logins])
  apply (split res.split, intro conjI allI impI)
    apply (rule emits_bind, rule emits_conseq [OF only_neutral_check_period [where jwt = tok, unfolded only_def]])
    apply (split if_split, intro conjI impI)
     apply (rule emits_return, simp add: outcome_of_access_def)
    apply (rule emits_bind, rule emits_conseq [OF only_neutral_book_token
        [OF assms(2) [symmetric], unfolded only_def]])
    apply (split prod.split, intro allI impI, split res.split, intro conjI allI impI)
      apply (rule emits_return)
      apply (simp add: outcome_of_access_def assms(1) NewConnector_def neutral_logins neutral_decisions
        cleanup_token_def GetToken_def all_granted_def)
     apply (rule emits_bind, rule emits_metric, rule emits_return)
     apply (simp add: outcome_of_access_def assms(1) NewConnector_def neutral_logins neutral_decisions
        all_granted_def bookkeeping_refused_def login_by_def)
    apply (rule emits_return, simp add: outcome_of_access_def)
   apply (rule emits_bind, rule emits_metric, rule emits_return)
   apply (simp add: outcome_of_access_def assms(1) NewConnector_def all_granted_def
      bookkeeping_refused_def login_by_def)
  apply (rule emits_return, simp add: outcome_of_access_def)
  done

lemma emits_authorize_legacy_access:
  assumes "\<not> UseProjectedSA cfg"
  shows "emits (authorizeDbAccess E cfg d path tok injTok p b) (\<lambda>r es. outcome_of_access cfg tok (fst r) es)"
  unfolding authorizeDbAccess_def Let_def if_not_P [OF assms]
  apply (rule emits_bind, rule emits_conseq [OF emits_Login_logins])
  apply (split res.split, intro conjI allI impI)
    apply (rule emits_bind, rule emits_conseq [OF emits_CanIGetRoles_granted [where jwt = tok]])
    apply (rule emits_return)
    apply (auto simp: outcome_of_access_def assms NewConnector_def all_granted_def cleanup_token_def GetToken_def
      split: res.split)[1]
   apply (rule emits_bind, rule emits_metric, rule emits_return)
   apply (simp add: outcome_of_access_def assms NewConnector_def all_granted_def granted_def login_by_def)
  apply (rule emits_return, simp add: outcome_of_access_def)
  done

lemma emits_authorize_access:
  assumes "UseProjectedSA cfg \<longrightarrow> tok \<noteq> injTok"
  shows "emits (authorizeDbAccess E cfg d path tok injTok p b) (\<lambda>r es.
     outcome_of_access cfg tok (fst r) es \<and> self_revoked es = {})"
proof (rule emits_conj [OF _ no_self_revoked_authorize])
  show "emits (authorizeDbAccess E cfg d path tok injTok p b) (\<lambda>r es. outcome_of_access cfg tok (fst r) es)"
    using assms emits_authorize_projected_access emits_authorize_legacy_access by (cases "UseProjectedSA cfg") blast+
qed

section \<open>One configuration\<close>

lemma only_neutral_uuid [intro!]: "only {e. neutral jwt e} (generateUUID E)"
  by (rule only_neutral_calls [where K = "{C_uuid}"]) auto

lemma only_neutral_fetch [intro!]: "only {e. neutral jwt e} (fetchDbCredentials E cfg d c p)"
  unfolding fetchDbCredentials_def GetDbCredentials_def acquire_token_def CreateOrphanToken_def
    read_credentials_def StoreDataAsync_def Let_def
  by (auto split: res.splits sum.splits option.splits any.splits)

lemma only_neutral_apply [intro!]: "only {e. neutral jwt e} (applyEnvToContainersWithNRI E p d creds b)"
  by (rule only_neutral_calls [where K = "{C_rand}"]) auto

lemma only_neutral_release [intro!]: "only {e. neutral jwt e} (release_login E cfg c)"
  unfolding release_login_def
  by auto

lemma only_neutral_body: "only {e. neutral jwt e} (inject_body E cfg d c p)"
  unfolding inject_body_def
  by (auto split: res.splits prod.splits option.splits)

lemma emits_fetchDbCredentials_conn:
  "emits (fetchDbCredentials E cfg d c p) (\<lambda>r es. cleanup_token cfg (snd r) = cleanup_token cfg c)"
proof (cases "UseProjectedSA cfg")
  case True
  show ?thesis
    unfolding fetchDbCredentials_def GetDbCredentials_def acquire_token_def creds_request_def
    apply (rule emits_bind, rule emits_any, blast)
    apply (simp add: True, intro emits_intro)
    apply (rule emits_any, blast)
    apply (auto intro!: emits_intro split: res.split)
    done
next
  case False
  have set: "SetToken c t = Ok c' \<Longrightarrow> K8sSaVaultToken c' = K8sSaVaultToken c" for t c'
    by (auto simp: SetToken_def split: option.splits)
  show ?thesis
    unfolding fetchDbCredentials_def GetDbCredentials_def acquire_token_def creds_request_def
    apply (rule emits_bind, rule emits_any, blast)
    apply (simp add: False, intro emits_intro)
    apply (rule emits_any, blast)
    apply (auto simp: cleanup_token_def False set intro!: emits_intro emits_any split: res.split)
    done
qed

lemma emits_RevokeSelf_login:
  assumes "client_ok E"
  shows "emits (RevokeSelfToken E c tok) (\<lambda>r es. r \<noteq> Panic \<and> self_revoked es = {tok} - {''''})"
proof (rule emits_conseq [OF emits_conj [OF emits_RevokeSelf_sent [OF assms] emits_RevokeSelfToken]])
  fix r es
  assume *: "(r \<noteq> Panic \<and> (tok = '''' \<or> tok \<in> self_revoked es)) \<and> (r :: unit res) \<noteq> Panic \<and>
    (tok = '''' \<or> retired tok es) \<and>
    (\<forall>e \<in> set es. \<forall>cl rr. e = RevokeSelf cl rr \<longrightarrow> cl_token cl = tok \<and> tok \<noteq> '''')"
  then have "self_revoked es \<subseteq> {tok} - {''''}"
    by (fastforce simp: self_revoked_def)
  with * show "r \<noteq> Panic \<and> self_revoked es = {tok} - {''''}"
    by blast
qed

lemma emits_revoke_all_logins:
  "client_ok E \<Longrightarrow> emits (revoke_all E f cs) (\<lambda>r es. r \<noteq> Panic \<and> self_revoked es = f ` set cs - {''''})"
proof (induction cs)
  case (Cons c cs)
  show ?case
    unfolding revoke_all.simps
    apply (rule emits_bind, rule emits_conseq [OF emits_RevokeSelf_login [OF Cons.prems]])
    apply (split res.split, intro conjI allI impI)
      apply (rule emits_conseq [OF Cons.IH [OF Cons.prems]], simp, blast)
     apply (rule emits_conseq [OF Cons.IH [OF Cons.prems]], simp, blast)
    apply simp
    done
qed (simp add: emits_return)

lemma emits_release_login:
  assumes "client_ok E"
  shows "emits (release_login E cfg c) (\<lambda>r es. (\<forall>err. r \<noteq> Err err) \<and> (\<forall>c'. r = Ok c' \<longrightarrow>
     (if nri_Enabled (NRI cfg) then self_revoked es = {cleanup_token cfg c} - {''''} \<and> cleanup_token cfg c' = ''''
      else c' = c \<and> self_revoked es = {})))"
  unfolding release_login_def
  apply (split if_split, intro conjI impI)
   apply (rule emits_return, simp)
  apply (split if_split, intro conjI impI)
   apply (split if_split, intro conjI impI)
    apply (rule emits_return, simp add: cleanup_token_def)
   apply (rule emits_bind, rule emits_conseq [OF emits_RevokeSelf_login [OF assms]], rule emits_return)
   apply (simp add: cleanup_token_def)
  apply (split if_split, intro conjI impI)
   apply (rule emits_return, simp add: cleanup_token_def)
  apply (rule emits_bind, rule emits_conseq [OF emits_RevokeSelf_login [OF assms]], rule emits_return)
  apply (simp add: cleanup_token_def SetToken_def GetToken_def split: option.split)
  done

text \<open>
  The body revokes the login token of its connector with the plugin enabled, when it succeeds; in
  every other case the connector still holds it.
\<close>

definition outcome_of_body :: "Config \<Rightarrow> connector \<Rightarrow> string res \<Rightarrow> connector \<Rightarrow> event list \<Rightarrow> bool" where
  "outcome_of_body cfg c r c' es \<longleftrightarrow> r \<noteq> Panic \<longrightarrow>
     (if nri_Enabled (NRI cfg) \<and> (\<exists>u. r = Ok u)
      then self_revoked es = {cleanup_token cfg c} - {''''} \<and> cleanup_token cfg c' = ''''
      else self_revoked es = {} \<and> cleanup_token cfg c' = cleanup_token cfg c)"

lemma emits_body_fetch:
  "emits (if nri_Enabled (NRI cfg) then ret (Ok None, c)
          else do {
            g \<leftarrow> fetchDbCredentials E cfg d c p;
            ret (case g of (Ok creds, conn) \<Rightarrow> (Ok (Some creds), conn)
                         | (Err err, conn) \<Rightarrow> (Err err, conn) | (Panic, conn) \<Rightarrow> (Panic, conn)) })
     (\<lambda>f es. cleanup_token cfg (snd f) = cleanup_token cfg c \<and> self_revoked es = {})"
proof (rule emits_conj)
  show "emits (if nri_Enabled (NRI cfg) then ret (Ok None, c)
          else do {
            g \<leftarrow> fetchDbCredentials E cfg d c p;
            ret (case g of (Ok creds, conn) \<Rightarrow> (Ok (Some creds), conn)
                         | (Err err, conn) \<Rightarrow> (Err err, conn) | (Panic, conn) \<Rightarrow> (Panic, conn)) })
     (\<lambda>f es. cleanup_token cfg (snd f) = cleanup_token cfg c)"
    by (auto split: res.split prod.split intro!: emits_intro emits_conseq [OF emits_fetchDbCredentials_conn])
qed (rule emits_calls [where K = "{C_uuid, C_create_orphan, C_metric, C_read, C_spawn_store}"],
  auto simp: no_self_revoked [where K = "{C_uuid, C_create_orphan, C_metric, C_read, C_spawn_store}"])

lemma emits_inject_body_logins:
  assumes "client_ok E"
  shows "emits (inject_body E cfg d c p) (\<lambda>r es. outcome_of_body cfg c (fst r) (bs_conn (snd r)) es)"
  unfolding inject_body_def
  apply (rule emits_bind, rule emits_conseq [OF emits_body_fetch])
  apply (split prod.split, intro allI impI, split res.split, intro conjI allI impI)
    apply (rule emits_bind, rule emits_calls [where K = "{C_rand}"], blast)
    subgoal premises p for f es r conn creds a es'
    proof -
      have none: "self_revoked es' = {}"
        using p(4) by (intro no_self_revoked [where K = "{C_rand}"]) auto
      have uuid: "emits (generateUUID E) (\<lambda>u es. self_revoked es = {})"
        by (rule emits_calls [where K = "{C_uuid}"]) (auto simp: no_self_revoked [where K = "{C_uuid}"])
      show ?thesis
        apply (split res.split, intro conjI allI impI)
          apply (rule emits_bind, rule emits_conseq [OF emits_release_login [OF assms]])
          apply (split res.split, intro conjI allI impI)
            apply (rule emits_bind)
            apply (split option.split, intro conjI allI impI)
             apply (rule emits_conseq [OF uuid], rule emits_return)
             apply (use p(1,2) none in \<open>simp add: outcome_of_body_def\<close>)[1]
            apply (rule emits_return, rule emits_return)
            apply (use p(1,2) none in \<open>simp add: outcome_of_body_def\<close>)[1]
           apply (rule emits_return, simp)
          apply (rule emits_return, simp add: outcome_of_body_def)
         apply (rule emits_return, use p(1,2) none in \<open>simp add: outcome_of_body_def\<close>)
        apply (rule emits_return, simp add: outcome_of_body_def)
        done
    qed
   apply (rule emits_return, simp add: outcome_of_body_def)
  apply (rule emits_return, simp add: outcome_of_body_def)
  done

section \<open>All configurations\<close>

text \<open>
  The logins of a run, in their order: all but a refused one at the end are revoked or held by a
  connector of the cleanup, and nothing else is.
\<close>

definition accounted :: "Config \<Rightarrow> string \<Rightarrow> event list \<Rightarrow> string set \<Rightarrow> bool" where
  "accounted cfg tok es held \<longleftrightarrow> (\<exists>ts refused. logins tok es = ts @ refused \<and>
     (if all_granted cfg tok es then refused = [] else length refused = 1) \<and>
     set ts \<subseteq> {''''} \<union> self_revoked es \<union> held \<and> self_revoked es \<subseteq> set ts - {''''} \<and> held \<subseteq> {''''} \<union> set ts)"

definition outcome_of_loop :: "Config \<Rightarrow> string \<Rightarrow> string list res \<Rightarrow> connector list \<Rightarrow> event list \<Rightarrow> bool" where
  "outcome_of_loop cfg tok r new es \<longleftrightarrow> r \<noteq> Panic \<longrightarrow>
     accounted cfg tok es (cleanup_token cfg ` set new) \<and>
     (\<forall>us. r = Ok us \<longrightarrow> all_granted cfg tok es \<and>
        (if nri_Enabled (NRI cfg) then set (logins tok es) \<subseteq> {''''} \<union> self_revoked es else self_revoked es = {}))"

lemma outcome_of_loop_refused:
  assumes "outcome_of_access cfg tok (Err err) es" "self_revoked es = {}"
  shows "outcome_of_loop cfg tok (Err err') [] es"
proof -
  have "if all_granted cfg tok es then logins tok es = [] else length (logins tok es) = 1"
    using assms(1) by (simp add: outcome_of_access_def)
  then have "accounted cfg tok es {}"
    unfolding accounted_def assms(2) by (intro exI [of _ "[]"] exI [of _ "logins tok es"]) simp
  then show ?thesis
    by (simp add: outcome_of_loop_def)
qed

lemma outcome_of_loop_failed:
  assumes "outcome_of_access cfg tok (Ok c) es" "self_revoked es = {}"
    "set es' \<subseteq> {e. neutral tok e}" "outcome_of_body cfg c (Err err) c' es'"
  shows "outcome_of_loop cfg tok (Err err') [c'] (es @ es')"
proof -
  have l: "logins tok (es @ es') = [cleanup_token cfg c]" "all_granted cfg tok (es @ es')"
    using assms(1,3) by (simp_all add: outcome_of_access_def neutral_logins all_granted_append neutral_granted)
  have "self_revoked (es @ es') = {}" "cleanup_token cfg c' = cleanup_token cfg c"
    using assms(2,4) by (simp_all add: outcome_of_body_def)
  with l show ?thesis
    unfolding outcome_of_loop_def accounted_def
    by (intro impI conjI exI [of _ "[cleanup_token cfg c]"] exI [of _ "[]"]) simp_all
qed

lemma outcome_of_loop_step:
  assumes "outcome_of_access cfg tok (Ok c) es" "self_revoked es = {}"
    "set es' \<subseteq> {e. neutral tok e}" "outcome_of_body cfg c (Ok u) c' es'"
    "outcome_of_loop cfg tok r new es''"
  shows "outcome_of_loop cfg tok r (c' # new) (es @ es' @ es'')"
proof (cases "r = Panic")
  case False
  let ?t = "cleanup_token cfg c" and ?all = "es @ es' @ es''"
  have l: "logins tok ?all = ?t # logins tok es''" "all_granted cfg tok ?all = all_granted cfg tok es''"
    using assms(1,3) by (simp_all add: outcome_of_access_def neutral_logins all_granted_append neutral_granted)
  have r: "self_revoked ?all = self_revoked es' \<union> self_revoked es''"
    using assms(2) by simp
  have b: "if nri_Enabled (NRI cfg) then self_revoked es' = {?t} - {''''} \<and> cleanup_token cfg c' = ''''
     else self_revoked es' = {} \<and> cleanup_token cfg c' = ?t"
    using assms(4) by (simp add: outcome_of_body_def)
  obtain ts refused where ts: "logins tok es'' = ts @ refused"
      "if all_granted cfg tok es'' then refused = [] else length refused = 1"
      "set ts \<subseteq> {''''} \<union> self_revoked es'' \<union> cleanup_token cfg ` set new"
      "self_revoked es'' \<subseteq> set ts - {''''}" "cleanup_token cfg ` set new \<subseteq> {''''} \<union> set ts"
    using assms(5) False unfolding outcome_of_loop_def accounted_def by blast
  have "accounted cfg tok ?all (cleanup_token cfg ` set (c' # new))"
    unfolding accounted_def l r
    using ts b by (intro exI [of _ "?t # ts"] exI [of _ refused]) (auto split: if_splits)
  moreover have "all_granted cfg tok ?all \<and>
     (if nri_Enabled (NRI cfg) then set (logins tok ?all) \<subseteq> {''''} \<union> self_revoked ?all else self_revoked ?all = {})"
    if "r = Ok us" for us
  proof -
    have "all_granted cfg tok es''"
      "if nri_Enabled (NRI cfg) then set (logins tok es'') \<subseteq> {''''} \<union> self_revoked es'' else self_revoked es'' = {}"
      using assms(5) that False unfolding outcome_of_loop_def by blast+
    with b show ?thesis
      unfolding l r by (auto split: if_splits)
  qed
  ultimately show ?thesis
    unfolding outcome_of_loop_def by blast
qed (simp add: outcome_of_loop_def)

lemma emits_inject_configs_logins:
  assumes "client_ok E" "UseProjectedSA cfg \<longrightarrow> tok \<noteq> injTok"
  shows "emits (inject_configs E cfg path tok injTok ds us st) (\<lambda>r es.
     \<exists>new. is_liveConns (snd (snd r)) = is_liveConns st @ new \<and> outcome_of_loop cfg tok (fst r) new es)"
proof (induction ds arbitrary: us st)
  case (Cons d ds)
  show ?case
    unfolding inject_configs.simps
    apply (split option.split, intro conjI allI impI)
     apply (rule emits_bind, rule emits_conseq [OF emits_authorize_access [OF assms(2)]])
     apply (split prod.split, intro allI impI, split res.split, intro conjI allI impI)
       apply (rule emits_bind, rule emits_conseq [OF emits_conj
          [OF only_neutral_body [where jwt = tok, unfolded only_def] emits_inject_body_logins [OF assms(1)]]])
       apply (simp only: Let_def, split res.split, intro conjI allI impI)
    subgoal premises p
      apply (rule emits_conseq [OF Cons.IH])
      using p by (auto intro: outcome_of_loop_step)
    subgoal premises p
      apply (rule emits_return)
      using p by (auto intro: outcome_of_loop_failed)
      apply (rule emits_return, simp add: outcome_of_loop_def)
     apply (rule emits_return)
    subgoal premises p
      using p by (auto intro: outcome_of_loop_refused)
    apply (rule emits_return, simp add: outcome_of_loop_def)
    apply (rule emits_return, simp add: outcome_of_loop_def accounted_def)
    done
qed (simp add: emits_return outcome_of_loop_def accounted_def)

section \<open>The admission\<close>

text \<open>
  What is known of the logins and revocations of an admission, by its outcome: on success those of
  the loop; on failure the cleanup has revoked what the connectors held.
\<close>

definition outcome_of_admission :: "Config \<Rightarrow> string \<Rightarrow> string list res \<Rightarrow> event list \<Rightarrow> bool" where
  "outcome_of_admission cfg tok r es \<longleftrightarrow> (case r of
     Ok us \<Rightarrow> (if nri_Enabled (NRI cfg) then set (logins tok es) \<subseteq> {''''} \<union> self_revoked es else self_revoked es = {})
   | Err err \<Rightarrow> accounted cfg tok es {}
   | Panic \<Rightarrow> True)"

lemma accounted_cleanup:
  assumes "accounted cfg tok es held" "set es' \<subseteq> {e. neutral tok e}" "self_revoked es' = held - {''''}"
  shows "accounted cfg tok (es @ es') {}"
proof -
  have l: "logins tok (es @ es') = logins tok es"
    by (simp add: neutral_logins [OF assms(2)])
  have g: "all_granted cfg tok (es @ es') = all_granted cfg tok es"
    using neutral_decisions [OF assms(2)] by (simp add: all_granted_def neutral_logins [OF assms(2)])
  obtain ts refused where "logins tok es = ts @ refused"
      "if all_granted cfg tok es then refused = [] else length refused = 1"
      "set ts \<subseteq> {''''} \<union> self_revoked es \<union> held" "self_revoked es \<subseteq> set ts - {''''}" "held \<subseteq> {''''} \<union> set ts"
    using assms(1) unfolding accounted_def by blast
  then show ?thesis
    unfolding accounted_def l g self_revoked_append assms(3)
    by (intro exI [of _ ts] exI [of _ refused]) blast
qed

lemma emits_injectCredentials_logins:
  assumes "client_ok E" "UseProjectedSA cfg \<longrightarrow> tok \<noteq> injTok"
  shows "emits (injectCredentialsIntoPod E cfg ds path tok injTok p b) (\<lambda>r es. outcome_of_admission cfg tok (fst r) es)"
  unfolding injectCredentialsIntoPod_def
  apply (split if_split, intro conjI impI)
   apply (rule emits_return, simp add: outcome_of_admission_def accounted_def)
  apply (rule emits_bind, rule emits_conseq [OF emits_inject_configs_logins [OF assms]])
  apply (split prod.split, intro allI impI, split res.split, intro conjI allI impI)
    apply (split prod.split, intro allI impI)
    apply (rule emits_return)
    apply (auto simp: outcome_of_admission_def outcome_of_loop_def split: if_splits)[1]
   apply (split prod.split, intro allI impI)
   apply (rule emits_bind, rule emits_conseq [OF emits_conj
      [OF only_neutral_revoke_all [where jwt = tok, unfolded only_def] emits_revoke_all_logins [OF assms(1)]]])
  subgoal premises p
    apply (rule emits_return)
    using p by (auto simp: outcome_of_admission_def outcome_of_loop_def intro: accounted_cleanup)
  apply (split prod.split, intro allI impI)
  apply (rule emits_return, simp add: outcome_of_admission_def)
  done


text \<open>
  C33. A login token is leaked when the access is refused after the login, in projected mode by a
  failing bookkeeping login, in legacy mode by the role check: the admission fails, and that token,
  the last one, is not sent to revoke-self unless an earlier login got the same. The source
  returns the connector of the failed authorization, but the caller appends it to the connectors
  of the cleanup only after the check for the error.
\<close>

theorem denied_login_is_leaked:
  assumes "client_ok E" "UseProjectedSA cfg \<longrightarrow> tok \<noteq> injTok"
  shows "emits (injectCredentialsIntoPod E cfg ds path tok injTok p b) (\<lambda>r es. \<forall>err.
     fst r = Err err \<longrightarrow> \<not> all_granted cfg tok es \<longrightarrow>
       logins tok es \<noteq> [] \<and> self_revoked es \<subseteq> set (butlast (logins tok es)))"
proof (rule emits_conseq [OF emits_injectCredentials_logins [OF assms]], intro allI impI)
  fix r :: "string list res \<times> string \<times> pod \<times> BookkeepingTokenCache option" and es err
  assume "outcome_of_admission cfg tok (fst r) es" "fst r = Err err" "\<not> all_granted cfg tok es"
  then obtain ts refused where "logins tok es = ts @ refused" "length refused = 1" "self_revoked es \<subseteq> set ts - {''''}"
    by (auto simp: outcome_of_admission_def accounted_def)
  then show "logins tok es \<noteq> [] \<and> self_revoked es \<subseteq> set (butlast (logins tok es))"
    by (auto simp: length_Suc_conv)
qed

section \<open>Examples\<close>

text \<open>
  With the plugin enabled, an admission of one database. The random source draws the same bytes
  twice.
\<close>

definition fixed_rand_env :: env where
  "fixed_rand_env = calm_env\<lparr>e_rand := \<lambda>h. Inr (replicate 32 7)\<rparr>"



text \<open>
  In projected mode the pods' own logins for two databases succeed; the injector's bookkeeping login
  works for the first and fails for the second.
\<close>

definition failing_bookkeeping_env :: env where
  "failing_bookkeeping_env = fixed_rand_env\<lparr>e_login := \<lambda>h a p role jwt.
     if jwt = ''sa-jwt'' \<and> 12 < length h then Inl (Newf ''permission denied'' []) else Inr (''tok-'' @ role)\<rparr>"

definition denied_admission ::
  "(string list res \<times> string \<times> pod \<times> BookkeepingTokenCache option) \<times> event list" where
  "denied_admission = run_state (injectCredentialsIntoPod failing_bookkeeping_env nri_webhook_config two_configs
     ''databases'' ''jwt'' ''sa-jwt'' calm_pod None) []"

lemma denied_login_is_leaked_witness:
  "logins ''jwt'' (snd denied_admission) = [''tok-ro'', ''tok-rw''] \<and>
   self_revoked (snd denied_admission) \<subseteq> {''tok-ro''}"
proof -
  have ok: "client_ok failing_bookkeeping_env" "UseProjectedSA nri_webhook_config \<longrightarrow> ''jwt'' \<noteq> ''sa-jwt''"
    by (simp_all add: client_ok_def failing_bookkeeping_env_def fixed_rand_env_def calm_env_def)
  have "case fst (fst denied_admission) of Err err \<Rightarrow> True | _ \<Rightarrow> False"
    by code_simp
  then obtain err where err: "fst (fst denied_admission) = Err err"
    by (auto split: res.splits)
  have denied: "\<not> all_granted nri_webhook_config ''jwt'' (snd denied_admission)"
    by code_simp
  have l: "logins ''jwt'' (snd denied_admission) = [''tok-ro'', ''tok-rw'']"
    by code_simp
  have "self_revoked (snd denied_admission) \<subseteq> set (butlast (logins ''jwt'' (snd denied_admission)))"
    using emits_run [OF denied_login_is_leaked [OF ok, of two_configs "''databases''" calm_pod None],
        folded denied_admission_def] err denied by blast
  with l show ?thesis
    by simp
qed

end
