(* ===== verification/Metric_Types.thy ===== *)
theory Metric_Types
  imports Renewer Revoker Mutator NRI_Background NRI_Lifecycle Leadership Controller
begin

text \<open>
  The types of the metric collectors. Prometheus checks at run time that \<^verbatim>\<open>WithLabelValues\<close> gets as
  many values as the vector has label names and panics otherwise, in the middle of whatever the
  program was doing; \<^verbatim>\<open>DeleteLabelValues\<close> with a wrong number deletes nothing. This theory gives each
  collector its kind, says when an operation is well typed, and shows that no job, webhook or
  hook of the program ever performs an ill-typed one.
\<close>

section \<open>Typing of operations\<close>

datatype collector_kind = Counter | Gauge | Summary

fun collector_kind_of :: "metric \<Rightarrow> collector_kind" where
  "collector_kind_of TokenExpirationInTime = Gauge"
| "collector_kind_of LeaseExpirationInTime = Gauge"
| "collector_kind_of LastTokenSynchronizationSuccess = Gauge"
| "collector_kind_of LastSynchronizationDuration = Summary"
| "collector_kind_of IsLeader = Gauge"
| "collector_kind_of LeaseDuration = Gauge"
| "collector_kind_of NRIPrewarmInflight = Gauge"
| "collector_kind_of _ = Counter"

text \<open>
  The label values fit the vector, and the method exists for the kind of collector: a counter only
  goes up, a summary only observes. \<^verbatim>\<open>WithLabelValues\<close> of a summary vector does not occur.
\<close>

definition labels_fit :: "metric \<Rightarrow> string list \<Rightarrow> bool" where
  "labels_fit m ls \<longleftrightarrow> length ls = length (metric_labels m)"

fun op_typed :: "metric_op \<Rightarrow> bool" where
  "op_typed (Inc m ls) = (collector_kind_of m \<noteq> Summary \<and> labels_fit m ls)"
| "op_typed (Dec m ls) = (collector_kind_of m = Gauge \<and> labels_fit m ls)"
| "op_typed (Set m ls v) = (collector_kind_of m = Gauge \<and> labels_fit m ls)"
| "op_typed (Observe m v) = (collector_kind_of m = Summary \<and> labels_fit m [])"
| "op_typed (DeleteLabelValues m ls) = labels_fit m ls"

fun event_typed :: "event \<Rightarrow> bool" where
  "event_typed (Metric op) = op_typed op"
| "event_typed _ = True"

text \<open>Code that is well typed: whatever it meets, each metric operation it performs is.\<close>

definition metrics_typed :: "'a io \<Rightarrow> bool" where
  "metrics_typed m \<longleftrightarrow> only {e. event_typed e} m"

lemma event_typed_call: "call_of e \<noteq> C_metric \<Longrightarrow> event_typed e"
  by (cases e) simp_all

section \<open>One rule per construct\<close>

lemma typed_return [simp, intro!]: "metrics_typed (ret a)"
  by (simp add: metrics_typed_def)

lemma typed_perform [intro!]: "(\<And>a. event_typed (ev a)) \<Longrightarrow> metrics_typed (perform f ev)"
  unfolding metrics_typed_def by (rule only_perform) simp

lemma typed_metric [intro!]: "op_typed op \<Longrightarrow> metrics_typed (metric op)"
  unfolding metrics_typed_def by (rule only_metric) simp

lemma typed_metrics_all [intro!]: "list_all op_typed ops \<Longrightarrow> metrics_typed (metrics_all ops)"
  unfolding metrics_typed_def only_def by (rule emits_metrics_all) (auto simp: list_all_iff)

lemma typed_bind [intro!]:
  "metrics_typed m \<Longrightarrow> (\<And>a. metrics_typed (k a)) \<Longrightarrow> metrics_typed (State_Monad.bind m k)"
  unfolding metrics_typed_def by (rule only_bind)

lemma typed_check [intro!]:
  "metrics_typed m \<Longrightarrow> (\<And>a. metrics_typed (k a)) \<Longrightarrow> metrics_typed (check m k)"
  unfolding metrics_typed_def by (rule only_check)

lemma typed_with_client [intro!]: "(\<And>cl. metrics_typed (k cl)) \<Longrightarrow> metrics_typed (with_client c k)"
  by (simp add: with_client_def split: option.splits)

text \<open>Code without metrics is well typed.\<close>

lemma typed_calls: "calls (- {C_metric}) m \<Longrightarrow> metrics_typed m"
  unfolding calls_def metrics_typed_def by (erule only_mono) (auto intro: event_typed_call)

lemmas labels_simps = labels_fit_def list_all_iff FlushPodSeries_def

section \<open>Vault\<close>

lemma typed_ConnectToVault [intro!]: "metrics_typed (ConnectToVault E cfg tok)"
  unfolding ConnectToVault_def Let_def
  by (auto simp: labels_simps intro!: typed_calls [of "Login E c" for c] split: res.splits)

lemma typed_deny [intro!]: "metrics_typed (deny sa ns role cause msg)"
  unfolding deny_def by (auto simp: labels_simps)

lemma typed_CanIGetRoles [intro!]: "metrics_typed (CanIGetRoles E c sa ns path role)"
  unfolding CanIGetRoles_def Let_def
  by (auto simp: labels_simps split: sum.splits option.splits)

lemma typed_CreateOrphanToken [intro!]: "metrics_typed (CreateOrphanToken E c ttl policies)"
  unfolding CreateOrphanToken_def
  by (auto simp: labels_simps split: sum.splits)

lemma typed_GetDbCredentials [intro!]: "metrics_typed (GetDbCredentials E c req)"
  unfolding GetDbCredentials_def acquire_token_def Let_def
  by (auto intro!: typed_calls [of "read_credentials E c tok req" for c tok req] split: res.splits prod.splits)

lemma typed_RevokeSelfToken [intro!]: "metrics_typed (RevokeSelfToken E c tok)"
  unfolding RevokeSelfToken_def Let_def
  by (auto simp: labels_simps intro!: typed_calls [of "NewClient E a" for a] split: res.splits option.splits)

lemma typed_StoreData [intro!]: "metrics_typed (StoreData E c ki s u n pfx)"
  unfolding StoreData_def Let_def
  by (auto simp: labels_simps split: option.splits)

lemma typed_store_data_goroutine [intro!]: "metrics_typed (store_data_goroutine E c ki s u n pfx)"
  unfolding store_data_goroutine_def Let_def
  by (auto simp: labels_simps intro!: typed_calls [of "NewClient E a" for a] split: res.splits)

lemma typed_DeleteData [intro!]: "metrics_typed (DeleteData E c s u n pfx)"
  unfolding DeleteData_def Let_def
  by (auto simp: labels_simps split: option.splits)

lemma typed_RevokeOrphanToken [intro!]: "metrics_typed (RevokeOrphanToken E c tok u n)"
  unfolding RevokeOrphanToken_def
  by (auto simp: labels_simps split: option.splits)

lemma typed_RenewToken [intro!]: "metrics_typed (RenewToken E c tok u n inc)"
  unfolding RenewToken_def Let_def
  by (auto simp: labels_simps split: sum.splits)

lemma typed_RenewLease [intro!]: "metrics_typed (RenewLease E c l ttl u n)"
  unfolding RenewLease_def Let_def
  by (auto simp: labels_simps split: sum.splits option.splits)

section \<open>Renewer and revoker\<close>

lemma typed_HandlePodDeletionToken [intro!]: "metrics_typed (HandlePodDeletionToken E c ki s pfx)"
  unfolding HandlePodDeletionToken_def
  by (auto simp: labels_simps)

lemma typed_purge_unrecoverable [intro!]: "metrics_typed (purge_unrecoverable E c ki s pfx)"
  unfolding purge_unrecoverable_def
  by (auto simp: labels_simps split: res.splits)

lemma typed_sync_live [intro!]: "metrics_typed (sync_live E c pinfo ki s pfx inc)"
  unfolding sync_live_def
  by (auto simp: Let_def split: res.splits)

lemma typed_sync_one [intro!]: "metrics_typed (sync_one E c pods s pfx inc ki)"
  unfolding sync_one_def
  by (auto simp: labels_simps split: option.splits)

lemma typed_sync_all [intro!]: "metrics_typed (sync_all E c pods s pfx inc kis)"
  by (induction kis) auto

lemma typed_GetAllPodAndNamespace [intro!]: "metrics_typed (GetAllPodAndNamespace E cfg)"
  unfolding GetAllPodAndNamespace_def Let_def
  by (auto simp: labels_simps split: sum.splits)

lemma typed_SyncAndCleanupTokens [intro!]: "metrics_typed (SyncAndCleanupTokens E sched c cfg kis s pfx inc)"
  unfolding SyncAndCleanupTokens_def
  by (auto split: res.splits)

lemma typed_renewal_tick [intro!]: "metrics_typed (renewal_tick E cfg c)"
  unfolding renewal_tick_def Let_def
  by (auto intro!: typed_calls [of "RenewSelfToken E c"] split: res.splits)

lemma typed_flushVanished: "list_all op_typed (fst (flushVanished prev current))"
  by (auto simp: flushVanished_def Let_def labels_simps split: if_splits)

lemma typed_ListKeyInfo [intro!]: "metrics_typed (ListKeyInfo E sched c path pfx)"
  by (rule typed_calls) auto

lemma typed_sync_tick [intro!]: "metrics_typed (sync_tick E lsched sched cfg c tracked)"
  unfolding sync_tick_def syncToken_def
  by (auto simp: labels_fit_def typed_flushVanished split: res.splits option.splits prod.splits bool.splits)

lemma typed_renewer_loop: "metrics_typed (renewer_loop E lsched sched cfg ws c tracked)"
  by (induction E lsched sched cfg ws c tracked rule: renewer_loop.induct) (auto split: res.splits)

lemma typed_ConnectAndRenew [intro!]: "metrics_typed (ConnectAndRenew E cfg tok)"
  unfolding ConnectAndRenew_def
  by auto

lemma typed_GetServiceAccountToken [intro!]: "metrics_typed (GetServiceAccountToken E)"
  by (rule typed_calls) auto

lemma typed_cleanup_orphans [intro!]: "metrics_typed (cleanup_orphans E c cfg podUUIDs kis)"
  by (induction kis) (auto split: res.splits)

lemma typed_safetyNetSync [intro!]: "metrics_typed (safetyNetSync E lsched cfg c)"
  unfolding safetyNetSync_def
  by (auto split: res.splits prod.splits)

lemma typed_revoke_uuids [intro!]: "metrics_typed (revoke_uuids E c cfg uuids allOK)"
  by (induction uuids arbitrary: allOK)
    (auto simp: labels_simps intro!: typed_calls [of "GetKeyInfo E c u path pfx" for u path pfx] split: res.splits)

lemma typed_handle_deleted [intro!]: "metrics_typed (handle_deleted E c cfg p)"
  unfolding handle_deleted_def
  by (auto simp: labels_simps split: option.splits)

lemma typed_revoker_loop: "metrics_typed (revoker_loop E lsched cfg ws c)"
  by (induction E lsched cfg ws c rule: revoker_loop.induct) (auto simp: stop_revoker_def split: res.splits)

section \<open>Webhook and plugin\<close>

lemma typed_check_period [intro!]: "metrics_typed (check_period E c role)"
  unfolding check_period_def
  by (auto simp: labels_simps intro!: typed_calls [of "VerifyTokenPeriod E c"] split: res.splits)

lemma typed_book_token [intro!]: "metrics_typed (book_token E cfg b tok role)"
  by (rule typed_calls) auto

lemma typed_Login [intro!]: "metrics_typed (Login E c)"
  by (rule typed_calls) auto

lemma typed_authorizeDbAccess [intro!]: "metrics_typed (authorizeDbAccess E cfg d path tok injTok p b)"
  unfolding authorizeDbAccess_def Let_def
  by (auto simp: labels_simps split: res.splits prod.splits)

lemma typed_release_login [intro!]: "metrics_typed (release_login E cfg c)"
  unfolding release_login_def
  by auto

lemma typed_inject_body [intro!]: "metrics_typed (inject_body E cfg d c p)"
  unfolding inject_body_def fetchDbCredentials_def
  by (auto intro!: typed_calls [of "applyEnvToContainersWithNRI E q d' cr b" for q d' cr b]
      typed_calls [of "generateUUID E"] split: res.splits prod.splits option.splits)

lemma typed_inject_configs [intro!]: "metrics_typed (inject_configs E cfg path tok injTok ds us st)"
  by (induction ds arbitrary: us st) (auto simp: Let_def split: res.splits option.splits prod.splits)

lemma typed_revoke_all [intro!]: "metrics_typed (revoke_all E f cs)"
  by (induction cs) (auto split: res.splits)

lemma typed_VaultLoginToken [intro!]: "metrics_typed (VaultLoginToken E p b aud ex)"
  by (rule typed_calls) auto

lemma typed_webhook_tokens [intro!]: "metrics_typed (webhook_tokens E cfg p)"
  unfolding webhook_tokens_def
  by (auto simp: labels_simps split: res.splits)

lemma typed_mutate: "metrics_typed (mutate E cfg p entries)"
  unfolding mutate_def injectCredentialsIntoPod_def Let_def
  by (auto simp: labels_simps intro!: typed_calls [of "generateUUID E"] split: res.splits prod.splits)

lemma typed_login_tokens [intro!]: "metrics_typed (login_tokens E cfg p)"
  unfolding login_tokens_def
  by (auto simp: labels_simps split: res.splits)

lemma typed_fetch_one [intro!]: "metrics_typed (fetch_one E cfg V i d b)"
  unfolding fetch_one_def authorize_legacy_def authorize_projected_def issue_for_def Let_def
  by (auto simp: labels_simps split: option.splits res.splits prod.splits)

lemma typed_fetch_configs [intro!]: "metrics_typed (fetch_configs E cfg V i ds m l live b)"
  by (induction ds arbitrary: i m l live b) (auto simp: Let_def split: res.splits)

lemma typed_fetchAndBuildMapping [intro!]: "metrics_typed (fetchAndBuildMapping E cfg ctx ns n b)"
  unfolding fetchAndBuildMapping_def prepare_fetch_def Let_def
  by (auto intro!: typed_calls [of "read_pod E ns n"] split: res.splits prod.splits)

lemma typed_saveCache [intro!]: "metrics_typed (saveCache E path pods)"
  by (rule typed_calls) auto

lemma typed_evictCacheEntry [intro!]: "metrics_typed (evictCacheEntry E cfg p uid)"
  by (rule typed_calls) auto

lemma typed_resolveMappingWithSource [intro!]:
  "metrics_typed (resolveMappingWithSource E shared cfg p uid ns n src)"
  unfolding resolveMappingWithSource_def fetch_and_cache_def Let_def
  by (auto simp: labels_simps split: option.splits res.splits prod.splits)

lemma typed_refuse [intro!]: "metrics_typed (refuse cause err)"
  unfolding refuse_def
  by (auto simp: labels_simps)

lemma typed_CreateContainer [intro!]: "metrics_typed (CreateContainer E shared order cfg p sb ctr)"
  unfolding CreateContainer_def resolveMapping_def adjust_container_def Let_def
  by (auto simp: labels_simps split: option.splits res.splits prod.splits)

lemma typed_sweepOnce [intro!]: "metrics_typed (sweepOnce E cfg nodeName p)"
  unfolding sweepOnce_def Let_def
  by (auto split: sum.splits)

lemma typed_sweeper_Run [intro!]: "metrics_typed (sweeper_Run E cfg has_client nodeName n p)"
  by (induction n arbitrary: p) auto

lemma typed_onAdd [intro!]: "metrics_typed (onAdd obj pw)"
  by (cases obj) (auto simp: labels_simps split: option.splits)

lemma typed_finish_task [intro!]: "metrics_typed (finish_task E shared cfg i pw)"
  unfolding finish_task_def prewarm_fetch_def
  by (auto simp: labels_simps split: res.splits)

lemma typed_plugin_step [intro!]: "metrics_typed (plugin_step E shared order cfg nodeName ev pw)"
  by (cases ev)
    (auto simp: with_plugin_def onDelete_def RemovePodSandbox_def Synchronize_def Let_def split: option.splits)

lemma typed_plugin_steps: "metrics_typed (plugin_steps E shared order cfg nodeName evs pw)"
  by (induction evs arbitrary: pw) auto

section \<open>Elections and modes\<close>

lemma typed_run_callbacks [intro!]: "metrics_typed (run_callbacks cbs le)"
  by (induction cbs le rule: run_callbacks.induct) (auto simp: startLeading_def stopLeading_def labels_simps)

lemma typed_RunLeaderElection: "metrics_typed (RunLeaderElection cbs le)"
  unfolding RunLeaderElection_def
  by (auto simp: labels_simps)

lemma typed_dispatch: "metrics_typed (dispatch W cfg)"
  unfolding dispatch_def RunInjector_def RunRenewer_def RunRevoker_def RunNRI_def run_elected_def Let_def
  by (auto simp: labels_simps split: res.splits)

section \<open>The login token and the connection\<close>

lemma typed_renewal_ticks: "metrics_typed (renewal_ticks n E cfg c)"
  by (induction n arbitrary: c) auto

text \<open>The operations on the reconnect counter in a trace of the reconnect loop.\<close>

definition counted :: "lifecycle_event list \<Rightarrow> metric_op list" where
  "counted es = concat (map (\<lambda>e. case e of Counted op \<Rightarrow> [op] | _ \<Rightarrow> []) es)"

lemma counted_simps [simp]:
  "counted [] = []" "counted (e # es) = (case e of Counted op \<Rightarrow> op # counted es | _ \<Rightarrow> counted es)"
  by (simp_all add: counted_def split: lifecycle_event.split)

lemma typed_lifecycle_loop:
  "lifecycle_loop w backoff attempt = (r, es) \<Longrightarrow> list_all op_typed (counted es)"
proof (induction "Suc (length backoff) - attempt" arbitrary: attempt r es rule: less_induct)
  case less
  from less.prems show ?case
  proof (cases rule: lifecycle_loop_cases)
    case (again es')
    then have "list_all op_typed (counted es')"
      using less.hyps [of "Suc attempt" r es'] by simp
    with again show ?thesis
      by (simp add: labels_fit_def)
  qed (simp_all add: labels_fit_def)
qed

lemma typed_lifecycle_run: "list_all op_typed (counted (snd (lifecycle_run w backoff)))"
  by (auto simp: lifecycle_run_def split: option.split prod.split dest: typed_lifecycle_loop)

text \<open>
  C38. No metric operation panics or misses its series. Whatever the environment answers and in
  whatever order things arrive, every operation on a collector has as many label values as the
  collector has label names, and is one that the kind of collector offers. Covered are all places of
  the program that use a collector: the jobs of renewer and revoker with all their wake-ups, the
  renewal of the login token, the admission of a pod, any sequence of hooks, informer events and
  sweeps of the plugin, its reconnect loop, the goroutine that records an entry, the callbacks of an
  election, and the start of every mode.
\<close>

theorem metrics_well_typed:
  "metrics_typed (RenewTokenJob E lsched sched cfg ws) \<and>
   metrics_typed (RevokeTokenJob E lsched cfg watch wakeups) \<and>
   metrics_typed (renewal_ticks n E cfg c) \<and>
   metrics_typed (mutate E cfg p entries) \<and>
   metrics_typed (plugin_steps E shared order cfg nodeName evs pw) \<and>
   list_all op_typed (counted (snd (lifecycle_run w backoff))) \<and>
   metrics_typed (store_data_goroutine E c ki secretName uuid namespace pfx) \<and>
   metrics_typed (RunLeaderElection cbs le) \<and>
   metrics_typed (dispatch W cfg)"
  unfolding RenewTokenJob_def RevokeTokenJob_def
  by (intro conjI typed_check typed_renewer_loop typed_revoker_loop typed_renewal_ticks typed_mutate
      typed_plugin_steps typed_lifecycle_run typed_store_data_goroutine typed_RunLeaderElection typed_dispatch
      typed_GetServiceAccountToken typed_ConnectAndRenew)

end
