(* ===== verification/Spec2Isabelle.thy ===== *)
theory Spec2Isabelle
  imports Renewer Revoker Webhook_Plugin_Uri NRI_Background NRI_Lifecycle NRI_Run Service_Group Flight_Refinement
    Bookkeeping_Safety Webhook_Logins Metric_Types
begin

text \<open>
  A model of the vault-db-injector and the theorems that make it correct.

  The program hands dynamic database credentials of HashiCorp Vault to Kubernetes pods. It is one
  binary with several modes. The \<^bold>\<open>injector\<close> is a mutating admission webhook: it reads a pod's
  annotations, logs in to Vault, obtains credentials, writes them into the environment of the
  containers (legacy) or writes placeholders there (NRI mode), and stores a KV entry of what it
  issued. The \<^bold>\<open>NRI agent\<close> on each node replaces the placeholders when containerd creates a
  container; it fetches the credentials itself, keeps them per pod in memory and in a file, and
  drops them when the pod is gone. The \<^bold>\<open>renewer\<close> renews tokens and leases of all KV entries whose
  pods live and the \<^bold>\<open>revoker\<close> revokes those of pods that vanished; both run under leader election.

  \<^bold>\<open>Conventions.\<close> A function with effects is a value of type \<open>'a io\<close> (theory \<^verbatim>\<open>Effects\<close>): a state monad
  over the history of the run, a list of events. Each call that leaves the process (Vault, the
  Kubernetes API, files, clock, random source, rate limiter) appends one event with its arguments and
  its answer; the answers come from a parameter \<open>E\<close> of type \<open>env\<close>, whose functions may depend on the
  whole history, so they stand for any behaviour of the outside world, and no law about them is
  assumed except where a theorem says so (\<open>client_ok\<close>: a client can be built; \<open>uuids_ok\<close>: UUIDs have no
  comma; \<open>kv_backed\<close>: the KV engine returns what was put). A Go result is \<open>Ok\<close>, \<open>Err\<close> or \<open>Panic\<close>. Metrics are events;
  log lines are left out. A Go map is an association list whose order is the order of one particular
  \<^verbatim>\<open>range\<close>; where the code ranges over a map the order is a parameter. A theorem about effects has the
  form \<open>emits m P\<close>: from every history the run of \<open>m\<close> only appends events, and result and appended
  events satisfy \<open>P\<close>. Strings are lists of bytes.

  \<^bold>\<open>Theories and the code they model\<close> (paths under \<^verbatim>\<open>src/\<close>):

    \<^item> \<^verbatim>\<open>Prelude\<close>, \<^verbatim>\<open>Go_Strings\<close>, \<^verbatim>\<open>Net_Url\<close>, \<^verbatim>\<open>Json\<close>: shared lemmas, interleavings of goroutines, and the parts
      of Go's \<^verbatim>\<open>strings\<close>, \<^verbatim>\<open>net/url\<close> and \<^verbatim>\<open>encoding/json\<close> that the code uses.
    \<^item> \<^verbatim>\<open>Placeholder\<close> (\<^verbatim>\<open>pkg/placeholder\<close>), \<^verbatim>\<open>Metrics\<close> (\<^verbatim>\<open>pkg/metrics\<close>), \<^verbatim>\<open>Effects\<close> (errors, the outside
      world, the logic of events), \<^verbatim>\<open>Config\<close> (\<^verbatim>\<open>pkg/config\<close>), \<^verbatim>\<open>Annotations\<close> and \<^verbatim>\<open>Kube\<close> (\<^verbatim>\<open>pkg/k8s\<close>).
    \<^item> \<^verbatim>\<open>Connector\<close>, \<^verbatim>\<open>KeyInfo\<close>, \<^verbatim>\<open>Credentials\<close>, \<^verbatim>\<open>Tokens\<close>, \<^verbatim>\<open>Bookkeeping_Cache\<close> (\<^verbatim>\<open>pkg/vault\<close>): logins, KV
      entries, credentials, renewal and revocation of tokens and leases, the cached bookkeeping token.
    \<^item> \<^verbatim>\<open>Renewer\<close>, \<^verbatim>\<open>Revoker\<close> (\<^verbatim>\<open>pkg/renewer\<close>, \<^verbatim>\<open>pkg/revoker\<close>): the jobs as loops over their wake-ups.
    \<^item> \<^verbatim>\<open>NRI_Env\<close>, \<^verbatim>\<open>NRI_Persist\<close>, \<^verbatim>\<open>NRI_Fetch\<close>, \<^verbatim>\<open>Fetch_Cleanup\<close>, \<^verbatim>\<open>NRI_Plugin\<close>, \<^verbatim>\<open>Plugin_Cache\<close>,
      \<^verbatim>\<open>Plugin_Safety\<close>, \<^verbatim>\<open>NRI_Background\<close>, \<^verbatim>\<open>NRI_Lifecycle\<close>, \<^verbatim>\<open>NRI_Run\<close> (\<^verbatim>\<open>pkg/nri\<close>): substitution, the cache
      file, the fetch and its cleanup, the hooks, prewarmer and sweeper, reconnects, the start.
    \<^item> \<^verbatim>\<open>Bookkeeping_Safety\<close>: the KV entries between those who write them (webhook, agent) and those who
      read, renew and remove them (renewer, revoker).
    \<^item> \<^verbatim>\<open>Single_Flight\<close>: concurrent callers of the two caches behind \<^verbatim>\<open>singleflight\<close>, of
      \<^verbatim>\<open>resolveMappingWithSource\<close> and of the bookkeeping cache's \<^verbatim>\<open>Get\<close>, as a step relation; and
      \<^verbatim>\<open>Flight_Refinement\<close>: the detailed model of the former as runs of that relation.
    \<^item> \<^verbatim>\<open>Mutator\<close>, \<^verbatim>\<open>Mutator_Safety\<close>, \<^verbatim>\<open>Webhook_Logins\<close> (\<^verbatim>\<open>pkg/k8smutator\<close>): the admission, what it does to the
      pod and to Vault; \<^verbatim>\<open>Webhook_Plugin\<close> and \<^verbatim>\<open>Webhook_Plugin_Uri\<close>, which
      put the webhook and the agent together, the latter with \<^verbatim>\<open>Url_Reparse\<close> (a printed URL parsed again).
    \<^item> \<^verbatim>\<open>Healthcheck\<close>, \<^verbatim>\<open>Leadership\<close>, \<^verbatim>\<open>Logging\<close>, \<^verbatim>\<open>Webhook_Server\<close>, \<^verbatim>\<open>Controller\<close> (\<^verbatim>\<open>pkg/healthcheck\<close>,
      \<^verbatim>\<open>pkg/leadership\<close>, \<^verbatim>\<open>pkg/logger\<close>, \<^verbatim>\<open>pkg/sentry\<close>, \<^verbatim>\<open>pkg/injector\<close>, \<^verbatim>\<open>pkg/controller\<close>, \<^verbatim>\<open>main.go\<close>):
      probes, election, log and error reports, the server's goroutines, modes and start-up;
      \<^verbatim>\<open>Service_Group\<close>: the goroutines of a mode under its \<^verbatim>\<open>errgroup\<close>, with the health server's \<^verbatim>\<open>Start\<close>
      and the metrics server (\<^verbatim>\<open>pkg/metrics/metrics.go\<close>).
    \<^item> \<^verbatim>\<open>Metric_Types\<close>: the kinds and labels of the collectors against every metric operation of the code.

  \<^bold>\<open>What is shown.\<close> Revocation before deletion, and no removal without a reason, in every interleaving of
  a cycle (\<^verbatim>\<open>Tokens\<close>); the entries of an admitted pod are known to the jobs as its own (a failing admission
  may leave one that no pod has), a listed pod's entry is never taken for an orphan, and what is stored
  is read back (\<^verbatim>\<open>Bookkeeping_Safety\<close>); the annotation parser equals a declarative reading in any order of
  the map (\<^verbatim>\<open>Annotations\<close>); no credentials for a pod whose identity is not attested (\<^verbatim>\<open>NRI_Fetch\<close>); the
  webhook of NRI mode issues nothing and adds placeholders only (\<^verbatim>\<open>Mutator_Safety\<close>); which login tokens
  are revoked, and which one an error leaves in Vault (\<^verbatim>\<open>Fetch_Cleanup\<close>, \<^verbatim>\<open>Webhook_Logins\<close>); the hook lets no
  container of the plugin's own pods start with a placeholder, and leaves all others alone
  (\<^verbatim>\<open>Plugin_Safety\<close>); the cache as a map from pods to mappings under all handlers, with the interface
  \<open>per_pod_cache\<close> interpreted by the plugin's maps (\<^verbatim>\<open>Plugin_Cache\<close>, \<^verbatim>\<open>NRI_Background\<close>), with a late
  prewarm of a deleted pod until the next sweep (\<^verbatim>\<open>NRI_Background\<close>); the cache file is
  replaced atomically and read back unchanged (\<^verbatim>\<open>NRI_Persist\<close>, \<^verbatim>\<open>NRI_Run\<close>); placeholders of the webhook
  filled in by the agent equal the legacy injection (\<^verbatim>\<open>Webhook_Plugin\<close>), in URI mode exactly when the
  credentials need no escaping (\<^verbatim>\<open>Webhook_Plugin_Uri\<close>); concurrent callers of one pod
  share one fetch, and each of them returns (\<^verbatim>\<open>Single_Flight\<close>); the bounds of the reconnect loop, and
  the shutdown that it can miss (\<^verbatim>\<open>NRI_Lifecycle\<close>); what losing the lead does; that every stop of the webhook server panics (\<^verbatim>\<open>Webhook_Server\<close>); that a
  mode ends after its cancellation unless it runs a metrics server, which nobody shuts down
  (\<^verbatim>\<open>Service_Group\<close>); and that no metric operation panics (\<^verbatim>\<open>Metric_Types\<close>).

  \<^bold>\<open>Bounds and fuel.\<close> No definition takes fuel. Loops over Go channels are recursions over the list of
  their wake-ups, or step relations; \<^verbatim>\<open>time.ParseDuration\<close>, the JSON lexer and the reconnect loop
  recurse with a measure. Durations and JSON numbers keep their 64-bit bounds; random bytes are words.

  \<^bold>\<open>Not modelled.\<close> The Kubernetes, Vault, containerd, Prometheus, Sentry and YAML libraries, which are
  parameters; the HTTP servers of the standard library beyond when they listen and return; log lines; contexts other than as the
  point where a run is cancelled; float rounding of \<^verbatim>\<open>Duration.Seconds\<close>; invalid UTF-8 in JSON texts.
\<close>

end
